theory Spec2Isabelle
  imports Main
begin

section \<open>JavaScript values and the facilitator's environment\<close>

text \<open>
  The facilitator (facilitator/x402-facilitator.cjs) works on the values that
  \<^verbatim>\<open>JSON.parse\<close> returns and on \<^verbatim>\<open>undefined\<close>, which a missing property reads as.
  Numbers of the model are the integers; an object is the list of its own properties in
  insertion order, with distinct keys. A string is the list of its UTF-16 code units;
  \<open>ascii\<close> writes an ASCII literal as one.
\<close>

type_synonym ustring = "nat list"

definition ascii :: "string \<Rightarrow> ustring" where
  "ascii s = map of_char s"

datatype jsval =
    JUndefined
  | JNull
  | JBool bool
  | JNum int
  | JStr ustring
  | JArr "jsval list"
  | JObj "(ustring \<times> jsval) list"

text \<open>The result of \<^verbatim>\<open>Number(v)\<close>: not-a-number, an (integer) number, or an infinity.\<close>

datatype jsnum = NaN | Fin int | PosInf | NegInf

text \<open>\<^verbatim>\<open>a < b\<close> and \<^verbatim>\<open>a > b\<close> for an integer \<open>a\<close> and a number \<open>b\<close>: false whenever \<open>b\<close> is NaN.\<close>

fun num_lt :: "int \<Rightarrow> jsnum \<Rightarrow> bool" where
  "num_lt a NaN = False"
| "num_lt a (Fin b) = (a < b)"
| "num_lt a PosInf = True"
| "num_lt a NegInf = False"

fun num_gt :: "int \<Rightarrow> jsnum \<Rightarrow> bool" where
  "num_gt a NaN = False"
| "num_gt a (Fin b) = (a > b)"
| "num_gt a PosInf = False"
| "num_gt a NegInf = True"

text \<open>An \<^verbatim>\<open>Error\<close> thrown by the RPC library: \<^verbatim>\<open>error.reason\<close> (when set) and \<^verbatim>\<open>error.message\<close>.\<close>

record js_error =
  reason :: "ustring option"
  message :: ustring

text \<open>\<^verbatim>\<open>error.reason || error.message\<close>: the reason when it is a non-empty string.\<close>

definition reason_or_message :: "js_error \<Rightarrow> ustring" where
  "reason_or_message e =
     (case reason e of
        Some r \<Rightarrow> if r \<noteq> [] then r else message e
      | None \<Rightarrow> message e)"

text \<open>What a handler does besides answering: reading the request body and talking to the chain.\<close>

datatype event =
    ReadBody
  | BalanceOfCall jsval jsval
  | StaticCall ustring "jsval list" ustring
  | GetBalance ustring
  | SendTransaction jsval ustring "jsval list" nat

text \<open>
  How a piece of a handler ends: it goes on with a value (\<open>Next\<close>), it answers with
  \<^verbatim>\<open>return sendJson(res, statusCode, data)\<close> (\<open>Return\<close>), or it throws (\<open>Throw\<close>).
  For a whole handler \<open>Throw\<close> is a rejected promise that nobody
  catches: nothing is written to the socket. The events are listed in the order they happen.
\<close>

datatype 'a step = Next 'a | Return nat jsval | Throw js_error

type_synonym 'a prog = "'a step \<times> event list"

record request =
  rq_method :: string
  rq_pathname :: string
  rq_headers :: "string \<Rightarrow> string option"
  rq_chunks :: "ustring list"
  rq_stream_error :: bool

text \<open>
  Everything the handlers take from outside the file: the boot-time configuration
  (\<^verbatim>\<open>API_KEY\<close>, \<^verbatim>\<open>CONFIG.escrowAdapter\<close>, the relayer), the clock, the built-ins
  \<^verbatim>\<open>JSON.parse\<close>, \<^verbatim>\<open>BigInt\<close>, \<^verbatim>\<open>Number\<close> and \<^verbatim>\<open>String.prototype.toLowerCase\<close>, the library
  call \<^verbatim>\<open>ethers.verifyTypedData\<close> and the contract calls through the RPC provider. A call
  that throws returns \<open>Inl\<close>. \<open>new_Contract target\<close> is \<^verbatim>\<open>new ethers.Contract(target, ...)\<close>,
  which throws for a target that the library does not take for an address; it stands where
  the target comes from the request unchecked, in \<^verbatim>\<open>handleSettleTransfer\<close>. In the other
  handlers the target is the configured adapter, or an asset that has passed
  \<^verbatim>\<open>toLowerCase\<close> and the lookup in \<^verbatim>\<open>CONFIG.assets\<close>: a string that names a contract.
\<close>

record env =
  API_KEY :: string
  escrowAdapter :: ustring
  relayerAddress :: ustring
  unix_now :: int
  JSON_parse :: "ustring \<Rightarrow> jsval option"
  js_BigInt :: "jsval \<Rightarrow> ustring + int"
  js_Number :: "jsval \<Rightarrow> jsnum"
  str_toLowerCase :: "ustring \<Rightarrow> ustring"
  verifyTypedData :: "(ustring \<times> ustring \<times> int \<times> jsval) \<Rightarrow> jsval list \<Rightarrow> jsval \<Rightarrow> js_error + ustring"
  new_Contract :: "jsval \<Rightarrow> js_error + unit"
  balanceOf :: "jsval \<Rightarrow> jsval \<Rightarrow> js_error + int"
  settlePayment_staticCall :: "ustring \<Rightarrow> jsval list \<Rightarrow> ustring \<Rightarrow> js_error option"
  settlePayment :: "ustring \<Rightarrow> jsval list \<Rightarrow> nat \<Rightarrow> js_error + ustring"
  transferWithAuthorization :: "jsval \<Rightarrow> jsval list \<Rightarrow> nat \<Rightarrow> js_error + ustring"
  getBalance :: "ustring \<Rightarrow> js_error + int"
  formatEther :: "int \<Rightarrow> ustring"
  demo_flow :: "jsval \<Rightarrow> unit prog"

subsection \<open>CONFIG\<close>

definition CONFIG_chainId :: int where
  "CONFIG_chainId = 1030"

definition CONFIG_network :: ustring where
  "CONFIG_network = ascii ''eip155:1030''"

record asset_info =
  symbol :: ustring
  decimals :: nat
  eip3009 :: bool
  eip712Name :: ustring
  eip712Version :: ustring

text \<open>
  \<^verbatim>\<open>CONFIG.assets[assetAddr]\<close>. A key that is not an own property reads as \<^verbatim>\<open>undefined\<close>, or
  as a member of \<^verbatim>\<open>Object.prototype\<close> whose \<^verbatim>\<open>eip3009\<close> is \<^verbatim>\<open>undefined\<close>: both take the
  \<^verbatim>\<open>!asset || !asset.eip3009\<close> branch, which \<open>None\<close> stands for.
\<close>

definition CONFIG_assets :: "ustring \<Rightarrow> asset_info option" where
  "CONFIG_assets addr =
     (if addr = ascii ''0xaf37e8b6c9ed7f6318979f56fc287d76c30847ff'' then
        Some \<lparr>symbol = ascii ''USDT0'', decimals = 6, eip3009 = True,
              eip712Name = ascii ''USDT0'', eip712Version = ascii ''1''\<rparr>
      else if addr = ascii ''0xded1660192d4d82e7c0b628ba556861edbb5cada'' then
        Some \<lparr>symbol = ascii ''CNHT0'', decimals = 6, eip3009 = True,
              eip712Name = ascii ''CNHT0'', eip712Version = ascii ''1''\<rparr>
      else None)"


section \<open>Control flow of an async handler\<close>

definition continue :: "'a \<Rightarrow> 'a prog" where
  "continue x = (Next x, [])"

text \<open>\<^verbatim>\<open>return sendJson(res, statusCode, data)\<close>\<close>

definition sendJson :: "nat \<Rightarrow> jsval \<Rightarrow> 'a prog" where
  "sendJson statusCode data = (Return statusCode data, [])"

definition emit :: "event \<Rightarrow> unit prog" where
  "emit e = (Next (), [e])"

text \<open>An expression of the language that may throw an error with the given message.\<close>

definition attempt :: "ustring + 'a \<Rightarrow> 'a prog" where
  "attempt r =
     (case r of
        Inl m \<Rightarrow> (Throw \<lparr>reason = None, message = m\<rparr>, [])
      | Inr x \<Rightarrow> (Next x, []))"

text \<open>A call into the library that may throw.\<close>

definition call :: "js_error + 'a \<Rightarrow> 'a prog" where
  "call r = (case r of Inl e \<Rightarrow> (Throw e, []) | Inr x \<Rightarrow> (Next x, []))"

text \<open>Sequencing: the rest runs only when the first part neither answered nor threw.\<close>

definition and_then :: "'a prog \<Rightarrow> ('a \<Rightarrow> 'b prog) \<Rightarrow> 'b prog" where
  "and_then m f =
     (case m of
        (Next x, evs) \<Rightarrow> (case f x of (s, evs') \<Rightarrow> (s, evs @ evs'))
      | (Return c d, evs) \<Rightarrow> (Return c d, evs)
      | (Throw e, evs) \<Rightarrow> (Throw e, evs))"

text \<open>\<^verbatim>\<open>try { m } catch (error) { h(error) }\<close>\<close>

definition try_catch :: "'a prog \<Rightarrow> (js_error \<Rightarrow> 'a prog) \<Rightarrow> 'a prog" where
  "try_catch m h =
     (case m of
        (Throw e, evs) \<Rightarrow> (case h e of (s, evs') \<Rightarrow> (s, evs @ evs'))
      | (Next x, evs) \<Rightarrow> (Next x, evs)
      | (Return c d, evs) \<Rightarrow> (Return c d, evs))"

section \<open>The JavaScript operations the handlers use\<close>

definition quoted :: "ustring \<Rightarrow> ustring" where
  "quoted s = 39 # s @ [39]"

text \<open>
  \<^verbatim>\<open>v.key\<close> for a \<open>v\<close> that is neither \<^verbatim>\<open>undefined\<close> nor \<^verbatim>\<open>null\<close>. The handlers read the
  properties payload, requirements, x402Version, scheme, network, asset, extra,
  settlementMode, assetTransferMethod, orderId, authorization, signature, from, to, value,
  validAfter, validBefore, nonce, amount, payTo and question: none of them is inherited
  from a prototype, so a primitive or an array has none of them.
\<close>

fun js_prop :: "jsval \<Rightarrow> ustring \<Rightarrow> jsval" where
  "js_prop (JObj kvs) key = (case map_of kvs key of Some v \<Rightarrow> v | None \<Rightarrow> JUndefined)"
| "js_prop v key = JUndefined"

fun nullish :: "jsval \<Rightarrow> bool" where
  "nullish JUndefined = True"
| "nullish JNull = True"
| "nullish v = False"

fun typeof_word :: "jsval \<Rightarrow> ustring" where
  "typeof_word JNull = ascii ''null''"
| "typeof_word v = ascii ''undefined''"

text \<open>\<^verbatim>\<open>v.key\<close>: a TypeError on \<^verbatim>\<open>undefined\<close> and \<^verbatim>\<open>null\<close>.\<close>

definition js_get :: "jsval \<Rightarrow> ustring \<Rightarrow> ustring + jsval" where
  "js_get v key =
     (if nullish v then
        Inl ((ascii ''Cannot read properties of '') @ typeof_word v @ (ascii '' (reading '') @ quoted key @ (ascii '')''))
      else Inr (js_prop v key))"

text \<open>\<^verbatim>\<open>v?.key\<close>\<close>

definition js_get_opt :: "jsval \<Rightarrow> ustring \<Rightarrow> jsval" where
  "js_get_opt v key = (if nullish v then JUndefined else js_prop v key)"

text \<open>
  \<^verbatim>\<open>const { key, ... } = v\<close> throws on \<^verbatim>\<open>undefined\<close> and \<^verbatim>\<open>null\<close>; otherwise each name is
  read with \<open>js_prop\<close>.
\<close>

definition js_destructure :: "ustring \<Rightarrow> ustring \<Rightarrow> jsval \<Rightarrow> ustring + unit" where
  "js_destructure key expr v =
     (if nullish v then
        Inl ((ascii ''Cannot destructure property '') @ quoted key @ (ascii '' of '') @ quoted expr
             @ (ascii '' as it is '') @ typeof_word v @ (ascii ''.''))
      else Inr ())"

text \<open>\<^verbatim>\<open>v.toLowerCase()\<close>: only a string has the method.\<close>

definition toLowerCase :: "env \<Rightarrow> ustring \<Rightarrow> jsval \<Rightarrow> ustring + ustring" where
  "toLowerCase env expr v =
     (case v of
        JStr s \<Rightarrow> Inr (str_toLowerCase env s)
      | JUndefined \<Rightarrow> Inl (ascii ''Cannot read properties of undefined (reading '' @ quoted (ascii ''toLowerCase'') @ ascii '')'')
      | JNull \<Rightarrow> Inl (ascii ''Cannot read properties of null (reading '' @ quoted (ascii ''toLowerCase'') @ ascii '')'')
      | _ \<Rightarrow> Inl (expr @ ascii ''.toLowerCase is not a function''))"

fun show_digits :: "nat \<Rightarrow> nat \<Rightarrow> ustring" where
  "show_digits 0 n = []"
| "show_digits (Suc k) n =
     (if n < 10 then [48 + n]
      else show_digits k (n div 10) @ [48 + n mod 10])"

text \<open>Decimal notation; \<open>n\<close> has at most \<open>n + 1\<close> digits.\<close>

definition show_nat :: "nat \<Rightarrow> ustring" where
  "show_nat n = show_digits (Suc n) n"

definition show_int :: "int \<Rightarrow> ustring" where
  "show_int i = (if i < 0 then 45 # show_nat (nat (- i)) else show_nat (nat i))"

text \<open>
  \<^verbatim>\<open>String(v)\<close>, as a template literal applies it (numbers in decimal notation). An object
  is written \<^verbatim>\<open>[object Object]\<close>; for an object with a property \<^verbatim>\<open>toString\<close> of its own the
  conversion throws instead, which the \<^verbatim>\<open>catch\<close> block of the handler turns into another
  reason under the same status.
\<close>

fun js_String :: "jsval \<Rightarrow> ustring" and js_join :: "jsval list \<Rightarrow> ustring" where
  "js_String JUndefined = ascii ''undefined''"
| "js_String JNull = ascii ''null''"
| "js_String (JBool b) = (if b then (ascii ''true'') else (ascii ''false''))"
| "js_String (JNum n) = show_int n"
| "js_String (JStr s) = s"
| "js_String (JArr xs) = js_join xs"
| "js_String (JObj kvs) = ascii ''[object Object]''"
| "js_join [] = []"
| "js_join (x # xs) =
     (if nullish x then [] else js_String x) @ (if xs = [] then [] else 44 # js_join xs)"

section \<open>Utility functions\<close>

text \<open>
  \<^verbatim>\<open>parseBody\<close>: the chunks are appended; the promise rejects as soon as the body is longer
  than 1048576, on a stream error, and when \<^verbatim>\<open>JSON.parse\<close> throws at the end.
\<close>

fun on_data :: "ustring \<Rightarrow> ustring list \<Rightarrow> ustring option" where
  "on_data body [] = Some body"
| "on_data body (chunk # chunks) =
     (let body' = body @ chunk in
      if length body' > 1048576 then None else on_data body' chunks)"

definition parseBody :: "env \<Rightarrow> request \<Rightarrow> jsval prog" where
  "parseBody env req =
     and_then (emit ReadBody) (\<lambda>_.
       case on_data [] (rq_chunks req) of
         None \<Rightarrow> attempt (Inl (ascii ''Body too large''))
       | Some body \<Rightarrow>
           if rq_stream_error req then attempt (Inl (ascii ''aborted''))
           else (case JSON_parse env body of
                   None \<Rightarrow> attempt (Inl (ascii ''Unexpected token in JSON''))
                 | Some v \<Rightarrow> continue v))"

section \<open>Handlers\<close>

definition unauthorized :: "env \<Rightarrow> string option \<Rightarrow> bool" where
  "unauthorized env apiKey =
     (case apiKey of None \<Rightarrow> True | Some k \<Rightarrow> k = [] \<or> k \<noteq> API_KEY env)"

definition invalid_key :: jsval where
  "invalid_key = JObj [(ascii ''error'', JStr (ascii ''Invalid or missing API key''))]"

definition not_valid :: "ustring \<Rightarrow> jsval" where
  "not_valid r = JObj [(ascii ''valid'', JBool False), (ascii ''reason'', JStr r)]"

definition is_valid :: jsval where
  "is_valid = JObj [(ascii ''valid'', JBool True)]"

subsection \<open>Transfer mode: \<^verbatim>\<open>handleVerifyTransfer\<close>\<close>

text \<open>The body of the \<^verbatim>\<open>try\<close> block.\<close>

definition verifyTransfer_checks :: "env \<Rightarrow> jsval \<Rightarrow> jsval \<Rightarrow> unit prog" where
  "verifyTransfer_checks env payload requirements =
     and_then (attempt (js_get payload (ascii ''x402Version''))) (\<lambda>x402Version.
     if x402Version \<noteq> JNum 2 then sendJson 200 (not_valid (ascii ''Unsupported x402 version'')) else
     if js_prop payload (ascii ''scheme'') \<noteq> JStr (ascii ''exact'') then sendJson 200 (not_valid (ascii ''Unsupported scheme'')) else
     if js_prop payload (ascii ''network'') \<noteq> JStr CONFIG_network then
       sendJson 200 (not_valid ((ascii ''Wrong network: '') @ js_String (js_prop payload (ascii ''network'')))) else
     and_then (attempt (js_get requirements (ascii ''asset''))) (\<lambda>req_asset.
     and_then (attempt (toLowerCase env (ascii ''requirements.asset'') req_asset)) (\<lambda>assetAddr.
     case CONFIG_assets assetAddr of
       None \<Rightarrow> sendJson 200 (not_valid (ascii ''Unsupported asset''))
     | Some asset \<Rightarrow>
     if \<not> eip3009 asset then sendJson 200 (not_valid (ascii ''Unsupported asset'')) else
     if js_get_opt (js_prop requirements (ascii ''extra'')) (ascii ''settlementMode'') \<noteq> JStr (ascii ''transfer'') then
       sendJson 200 (not_valid (ascii ''Settlement mode must be transfer'')) else
     and_then (attempt (js_get (js_prop payload (ascii ''payload'')) (ascii ''authorization''))) (\<lambda>authorization.
     and_then (attempt (js_destructure (ascii ''from'') (ascii ''payload.payload.authorization'') authorization)) (\<lambda>_.
     let from = js_prop authorization (ascii ''from'');
         to = js_prop authorization (ascii ''to'');
         val = js_prop authorization (ascii ''value'');
         validAfter = js_prop authorization (ascii ''validAfter'');
         validBefore = js_prop authorization (ascii ''validBefore'');
         nonce = js_prop authorization (ascii ''nonce'');
         domain = (eip712Name asset, eip712Version asset, CONFIG_chainId, req_asset);
         message = [from, to, val, validAfter, validBefore, nonce] in
     and_then (call (verifyTypedData env domain message
                 (js_prop (js_prop payload (ascii ''payload'')) (ascii ''signature'')))) (\<lambda>recoveredSigner.
     and_then (attempt (toLowerCase env (ascii ''from'') from)) (\<lambda>from_lower.
     if str_toLowerCase env recoveredSigner \<noteq> from_lower then sendJson 200 (not_valid (ascii ''Invalid signature'')) else
     and_then (attempt (toLowerCase env (ascii ''to'') to)) (\<lambda>to_lower.
     and_then (attempt (toLowerCase env (ascii ''requirements.payTo'') (js_prop requirements (ascii ''payTo'')))) (\<lambda>payTo_lower.
     if to_lower \<noteq> payTo_lower then
       sendJson 200 (not_valid (ascii ''Wrong payment destination (expected treasury)'')) else
     and_then (emit (BalanceOfCall req_asset from)) (\<lambda>_.
     and_then (call (balanceOf env req_asset from)) (\<lambda>balance.
     and_then (attempt (js_BigInt env val)) (\<lambda>value_big.
     if balance < value_big then sendJson 200 (not_valid (ascii ''Insufficient balance'')) else
     let now = unix_now env in
     if num_lt now (js_Number env validAfter) \<or> num_gt now (js_Number env validBefore) then
       sendJson 200 (not_valid (ascii ''Authorization expired or not yet valid'')) else
     and_then (attempt (js_BigInt env val)) (\<lambda>value_big2.
     and_then (attempt (js_BigInt env (js_prop requirements (ascii ''amount'')))) (\<lambda>amount_big.
     if value_big2 < amount_big then sendJson 200 (not_valid (ascii ''Insufficient amount'')) else
     sendJson 200 is_valid))))))))))))))"

definition handleVerifyTransfer :: "env \<Rightarrow> request \<Rightarrow> unit prog" where
  "handleVerifyTransfer env req =
     (if unauthorized env (rq_headers req ''x-api-key'') then sendJson 401 invalid_key
      else
        and_then (try_catch (parseBody env req)
                    (\<lambda>_. sendJson 400 (not_valid (ascii ''Invalid JSON body'')))) (\<lambda>body.
        and_then (attempt (js_destructure (ascii ''payload'') (ascii ''body'') body)) (\<lambda>_.
        let payload = js_prop body (ascii ''payload'');
            requirements = js_prop body (ascii ''requirements'') in
        try_catch (verifyTransfer_checks env payload requirements)
          (\<lambda>error. sendJson 200 (not_valid (message error))))))"

subsection \<open>Escrow mode: \<^verbatim>\<open>handleVerify\<close>\<close>

definition verify_checks :: "env \<Rightarrow> jsval \<Rightarrow> jsval \<Rightarrow> unit prog" where
  "verify_checks env payload requirements =
     and_then (attempt (js_get payload (ascii ''x402Version''))) (\<lambda>x402Version.
     if x402Version \<noteq> JNum 2 then sendJson 200 (not_valid (ascii ''Unsupported x402 version'')) else
     if js_prop payload (ascii ''scheme'') \<noteq> JStr (ascii ''exact'') then sendJson 200 (not_valid (ascii ''Unsupported scheme'')) else
     if js_prop payload (ascii ''network'') \<noteq> JStr CONFIG_network then
       sendJson 200 (not_valid ((ascii ''Wrong network: '') @ js_String (js_prop payload (ascii ''network'')))) else
     and_then (attempt (js_get requirements (ascii ''asset''))) (\<lambda>req_asset.
     and_then (attempt (toLowerCase env (ascii ''requirements.asset'') req_asset)) (\<lambda>assetAddr.
     case CONFIG_assets assetAddr of
       None \<Rightarrow> sendJson 200 (not_valid (ascii ''Unsupported asset''))
     | Some asset \<Rightarrow>
     if \<not> eip3009 asset then sendJson 200 (not_valid (ascii ''Unsupported asset'')) else
     if js_get_opt (js_prop requirements (ascii ''extra'')) (ascii ''assetTransferMethod'') \<noteq> JStr (ascii ''eip3009'') then
       sendJson 200 (not_valid (ascii ''Only eip3009 method supported'')) else
     and_then (attempt (js_get (js_prop payload (ascii ''payload'')) (ascii ''authorization''))) (\<lambda>authorization.
     and_then (attempt (js_destructure (ascii ''from'') (ascii ''payload.payload.authorization'') authorization)) (\<lambda>_.
     let from = js_prop authorization (ascii ''from'');
         to = js_prop authorization (ascii ''to'');
         val = js_prop authorization (ascii ''value'');
         validAfter = js_prop authorization (ascii ''validAfter'');
         validBefore = js_prop authorization (ascii ''validBefore'');
         nonce = js_prop authorization (ascii ''nonce'');
         signature = js_prop (js_prop payload (ascii ''payload'')) (ascii ''signature'');
         domain = (eip712Name asset, eip712Version asset, CONFIG_chainId, req_asset);
         message = [from, to, val, validAfter, validBefore, nonce] in
     and_then (call (verifyTypedData env domain message signature)) (\<lambda>recoveredSigner.
     and_then (attempt (toLowerCase env (ascii ''from'') from)) (\<lambda>from_lower.
     if str_toLowerCase env recoveredSigner \<noteq> from_lower then sendJson 200 (not_valid (ascii ''Invalid signature'')) else
     and_then (attempt (toLowerCase env (ascii ''to'') to)) (\<lambda>to_lower.
     if to_lower \<noteq> str_toLowerCase env (escrowAdapter env) then
       sendJson 200 (not_valid (ascii ''Wrong payment destination'')) else
     and_then (emit (BalanceOfCall req_asset from)) (\<lambda>_.
     and_then (call (balanceOf env req_asset from)) (\<lambda>balance.
     and_then (attempt (js_BigInt env val)) (\<lambda>value_big.
     if balance < value_big then sendJson 200 (not_valid (ascii ''Insufficient balance'')) else
     let now = unix_now env in
     if num_lt now (js_Number env validAfter) \<or> num_gt now (js_Number env validBefore) then
       sendJson 200 (not_valid (ascii ''Authorization expired or not yet valid'')) else
     and_then (attempt (js_BigInt env val)) (\<lambda>value_big2.
     and_then (attempt (js_BigInt env (js_prop requirements (ascii ''amount'')))) (\<lambda>amount_big.
     if value_big2 < amount_big then sendJson 200 (not_valid (ascii ''Insufficient amount'')) else
     let args = [req_asset, js_prop (js_prop requirements (ascii ''extra'')) (ascii ''orderId''), from, val,
                 validAfter, validBefore, nonce, signature] in
     and_then (emit (StaticCall (escrowAdapter env) args (relayerAddress env))) (\<lambda>_.
     case settlePayment_staticCall env (escrowAdapter env) args (relayerAddress env) of
       Some simError \<Rightarrow>
         sendJson 200 (not_valid ((ascii ''Settlement simulation failed: '') @ reason_or_message simError))
     | None \<Rightarrow> sendJson 200 is_valid))))))))))))))"

definition handleVerify :: "env \<Rightarrow> request \<Rightarrow> unit prog" where
  "handleVerify env req =
     (if unauthorized env (rq_headers req ''x-api-key'') then sendJson 401 invalid_key
      else if escrowAdapter env = [] then sendJson 400 (not_valid (ascii ''Escrow adapter not configured''))
      else
        and_then (try_catch (parseBody env req)
                    (\<lambda>_. sendJson 400 (not_valid (ascii ''Invalid JSON body'')))) (\<lambda>body.
        and_then (attempt (js_destructure (ascii ''payload'') (ascii ''body'') body)) (\<lambda>_.
        let payload = js_prop body (ascii ''payload'');
            requirements = js_prop body (ascii ''requirements'') in
        try_catch (verify_checks env payload requirements)
          (\<lambda>error. sendJson 200 (not_valid (message error))))))"

subsection \<open>Settlement: \<^verbatim>\<open>handleSettle\<close> and \<^verbatim>\<open>handleSettleTransfer\<close>\<close>

definition not_settled :: "ustring \<Rightarrow> jsval" where
  "not_settled e = JObj [(ascii ''success'', JBool False), (ascii ''error'', JStr e)]"

definition settled :: "ustring \<Rightarrow> jsval \<Rightarrow> jsval" where
  "settled receipt_hash from =
     JObj [(ascii ''x402Version'', JNum 2), (ascii ''scheme'', JStr (ascii ''exact'')), (ascii ''network'', JStr CONFIG_network),
           (ascii ''success'', JBool True), (ascii ''transaction'', JStr receipt_hash), (ascii ''payer'', from)]"

definition settle_send :: "env \<Rightarrow> jsval \<Rightarrow> jsval \<Rightarrow> unit prog" where
  "settle_send env payload requirements =
     and_then (attempt (js_get payload (ascii ''payload''))) (\<lambda>inner.
     and_then (attempt (js_get inner (ascii ''authorization''))) (\<lambda>authorization.
     and_then (attempt (js_destructure (ascii ''from'') (ascii ''payload.payload.authorization'') authorization)) (\<lambda>_.
     let from = js_prop authorization (ascii ''from'');
         val = js_prop authorization (ascii ''value'');
         validAfter = js_prop authorization (ascii ''validAfter'');
         validBefore = js_prop authorization (ascii ''validBefore'');
         nonce = js_prop authorization (ascii ''nonce'') in
     and_then (attempt (js_get requirements (ascii ''asset''))) (\<lambda>req_asset.
     and_then (attempt (js_get (js_prop requirements (ascii ''extra'')) (ascii ''orderId''))) (\<lambda>orderId.
     let args = [req_asset, orderId, from, val, validAfter, validBefore, nonce,
                 js_prop inner (ascii ''signature'')] in
     and_then (emit (SendTransaction (JStr (escrowAdapter env)) (ascii ''settlePayment'') args 500000)) (\<lambda>_.
     and_then (call (settlePayment env (escrowAdapter env) args 500000)) (\<lambda>receipt_hash.
     sendJson 200 (settled receipt_hash from))))))))"

definition handleSettle :: "env \<Rightarrow> request \<Rightarrow> unit prog" where
  "handleSettle env req =
     (if unauthorized env (rq_headers req ''x-api-key'') then sendJson 401 invalid_key
      else if escrowAdapter env = [] then sendJson 400 (not_settled (ascii ''Escrow adapter not configured''))
      else
        and_then (try_catch (parseBody env req)
                    (\<lambda>_. sendJson 400 (not_settled (ascii ''Invalid JSON body'')))) (\<lambda>body.
        and_then (attempt (js_destructure (ascii ''payload'') (ascii ''body'') body)) (\<lambda>_.
        let payload = js_prop body (ascii ''payload'');
            requirements = js_prop body (ascii ''requirements'') in
        try_catch (settle_send env payload requirements)
          (\<lambda>error. sendJson 500 (not_settled (reason_or_message error))))))"

text \<open>
  The body of the \<^verbatim>\<open>try\<close> block of \<^verbatim>\<open>handleSettleTransfer\<close>: the authorization is read
  from the payload, the contract object is built for \<^verbatim>\<open>requirements.asset\<close>, and the
  authorization is handed to \<^verbatim>\<open>token.transferWithAuthorization\<close> with
  \<^verbatim>\<open>{ gasLimit: 200_000 }\<close>; the handler then waits for the receipt.
\<close>

definition settleTransfer_send :: "env \<Rightarrow> jsval \<Rightarrow> jsval \<Rightarrow> unit prog" where
  "settleTransfer_send env payload requirements =
     and_then (attempt (js_get payload (ascii ''payload''))) (\<lambda>inner.
     and_then (attempt (js_get inner (ascii ''authorization''))) (\<lambda>authorization.
     and_then (attempt (js_destructure (ascii ''from'') (ascii ''payload.payload.authorization'') authorization)) (\<lambda>_.
     let from = js_prop authorization (ascii ''from'');
         to = js_prop authorization (ascii ''to'');
         val = js_prop authorization (ascii ''value'');
         validAfter = js_prop authorization (ascii ''validAfter'');
         validBefore = js_prop authorization (ascii ''validBefore'');
         nonce = js_prop authorization (ascii ''nonce'') in
     and_then (attempt (js_get requirements (ascii ''asset''))) (\<lambda>req_asset.
     and_then (call (new_Contract env req_asset)) (\<lambda>token.
     let args = [from, to, val, validAfter, validBefore, nonce, js_prop inner (ascii ''signature'')] in
     and_then (emit (SendTransaction req_asset (ascii ''transferWithAuthorization'') args 200000)) (\<lambda>_.
     and_then (call (transferWithAuthorization env req_asset args 200000)) (\<lambda>receipt_hash.
     sendJson 200 (settled receipt_hash from))))))))"

definition handleSettleTransfer :: "env \<Rightarrow> request \<Rightarrow> unit prog" where
  "handleSettleTransfer env req =
     (if unauthorized env (rq_headers req ''x-api-key'') then sendJson 401 invalid_key
      else
        and_then (try_catch (parseBody env req)
                    (\<lambda>_. sendJson 400 (not_settled (ascii ''Invalid JSON body'')))) (\<lambda>body.
        and_then (attempt (js_destructure (ascii ''payload'') (ascii ''body'') body)) (\<lambda>_.
        let payload = js_prop body (ascii ''payload'');
            requirements = js_prop body (ascii ''requirements'') in
        try_catch (settleTransfer_send env payload requirements)
          (\<lambda>error. sendJson 500 (not_settled (reason_or_message error))))))"

subsection \<open>\<^verbatim>\<open>handleDemoAi\<close> and \<^verbatim>\<open>handleHealth\<close>\<close>

text \<open>
  The demo handler checks the key in \<^verbatim>\<open>x-facilitator-key\<close> and parses the body; what it
  does with the question afterwards (two requests to the seller and a signature with the
  demo wallet) is the environment's \<open>demo_flow\<close>.
\<close>

definition handleDemoAi :: "env \<Rightarrow> request \<Rightarrow> unit prog" where
  "handleDemoAi env req =
     (if unauthorized env (rq_headers req ''x-facilitator-key'') then sendJson 401 invalid_key
      else
        and_then (try_catch (parseBody env req)
                    (\<lambda>_. sendJson 400 (JObj [(ascii ''success'', JBool False),
                                                (ascii ''message'', JStr (ascii ''Invalid JSON body''))]))) (\<lambda>body.
        demo_flow env body))"

definition supportedAssets :: jsval where
  "supportedAssets =
     JArr [JObj [(ascii ''address'', JStr (ascii ''0xaf37e8b6c9ed7f6318979f56fc287d76c30847ff'')),
                 (ascii ''symbol'', JStr (ascii ''USDT0'')), (ascii ''eip3009'', JBool True)],
           JObj [(ascii ''address'', JStr (ascii ''0xded1660192d4d82e7c0b628ba556861edbb5cada'')),
                 (ascii ''symbol'', JStr (ascii ''CNHT0'')), (ascii ''eip3009'', JBool True)]]"

definition handleHealth :: "env \<Rightarrow> request \<Rightarrow> unit prog" where
  "handleHealth env req =
     try_catch
       (and_then (emit (GetBalance (relayerAddress env))) (\<lambda>_.
        and_then (call (getBalance env (relayerAddress env))) (\<lambda>balance.
        sendJson 200
          (JObj [(ascii ''status'', JStr (ascii ''ok'')), (ascii ''network'', JStr CONFIG_network),
                 (ascii ''chainId'', JNum CONFIG_chainId), (ascii ''facilitator'', JStr (relayerAddress env)),
                 (ascii ''adapter'', if escrowAdapter env = [] then JNull else JStr (escrowAdapter env)),
                 (ascii ''balanceCFX'', JStr (formatEther env balance)),
                 (ascii ''supportedAssets'', supportedAssets), (ascii ''x402Version'', JNum 2)]))))
       (\<lambda>error. sendJson 500 (JObj [(ascii ''status'', JStr (ascii ''error'')), (ascii ''error'', JStr (message error))]))"

subsection \<open>The HTTP server\<close>

text \<open>An \<^verbatim>\<open>OPTIONS\<close> request is answered 200 with an empty body (written \<open>JUndefined\<close>).\<close>

definition server :: "env \<Rightarrow> request \<Rightarrow> unit prog" where
  "server env req =
     (let pathname = rq_pathname req; method = rq_method req in
      if method = ''OPTIONS'' then (Return 200 JUndefined, [])
      else if pathname = ''/x402/health'' \<and> method = ''GET'' then handleHealth env req
      else if pathname = ''/x402/verify'' \<and> method = ''POST'' then handleVerify env req
      else if pathname = ''/x402/settle'' \<and> method = ''POST'' then handleSettle env req
      else if pathname = ''/x402/verify-transfer'' \<and> method = ''POST'' then handleVerifyTransfer env req
      else if pathname = ''/x402/settle-transfer'' \<and> method = ''POST'' then handleSettleTransfer env req
      else if pathname = ''/x402/demo-ai'' \<and> method = ''POST'' then handleDemoAi env req
      else sendJson 404 (JObj [(ascii ''error'', JStr (ascii ''Not found''))]))"

section \<open>Header encoding: Base64 and JSON text\<close>

text \<open>
  The three payment headers carry Base64 of JSON text. The built-ins that produce and read
  them (\<^verbatim>\<open>base64_encode\<close>, \<^verbatim>\<open>json_encode\<close> in PHP; \<^verbatim>\<open>btoa\<close>, \<^verbatim>\<open>atob\<close>, \<^verbatim>\<open>JSON.stringify\<close>,
  \<^verbatim>\<open>JSON.parse\<close> in JavaScript) are modelled on bytes and code units written as numbers.
\<close>

subsection \<open>Base64 (RFC 4648, with padding)\<close>

text \<open>The alphabet: A to Z, a to z, 0 to 9, plus and slash, by character code.\<close>

definition b64_code :: "nat \<Rightarrow> nat" where
  "b64_code n =
     (if n < 26 then 65 + n
      else if n < 52 then 71 + n
      else if n < 62 then n - 4
      else if n = 62 then 43
      else 47)"

definition b64_char :: "nat \<Rightarrow> char" where
  "b64_char n = char_of (b64_code n)"

definition b64_index :: "char \<Rightarrow> nat option" where
  "b64_index c =
     (let k = (of_char c :: nat) in
      if 65 \<le> k \<and> k \<le> 90 then Some (k - 65)
      else if 97 \<le> k \<and> k \<le> 122 then Some (k - 71)
      else if 48 \<le> k \<and> k \<le> 57 then Some (k + 4)
      else if k = 43 then Some 62
      else if k = 47 then Some 63
      else None)"

text \<open>Three bytes make four sextets; a last group of one or two bytes makes two or three.\<close>

fun sextets :: "nat list \<Rightarrow> nat list" where
  "sextets (a # b # c # rest) =
     (a div 4) # (a mod 4 * 16 + b div 16) # (b mod 16 * 4 + c div 64) # (c mod 64) # sextets rest"
| "sextets [a, b] = [a div 4, a mod 4 * 16 + b div 16, b mod 16 * 4]"
| "sextets [a] = [a div 4, a mod 4 * 16]"
| "sextets [] = []"

text \<open>
  PHP's \<^verbatim>\<open>base64_encode\<close> of a byte string: the characters of the sextets, padded with
  \<^verbatim>\<open>=\<close> to a multiple of four.
\<close>

fun padding :: "nat list \<Rightarrow> string" where
  "padding (a # b # c # rest) = padding rest"
| "padding [a, b] = ''=''"
| "padding [a] = ''==''"
| "padding [] = []"

definition base64_encode :: "nat list \<Rightarrow> string" where
  "base64_encode bytes = map b64_char (sextets bytes) @ padding bytes"

text \<open>\<^verbatim>\<open>btoa\<close> throws when a code unit of its argument is above 255.\<close>

definition btoa :: "ustring \<Rightarrow> string option" where
  "btoa s = (if list_all (\<lambda>c. c \<le> 255) s then Some (base64_encode s) else None)"

text \<open>Four sextets make three bytes; the bits of an incomplete last group are dropped.\<close>

fun sextets_bytes :: "nat list \<Rightarrow> nat list" where
  "sextets_bytes (a # b # c # d # rest) =
     (a * 4 + b div 16) # (b mod 16 * 16 + c div 4) # (c mod 4 * 64 + d) # sextets_bytes rest"
| "sextets_bytes [a, b, c] = [a * 4 + b div 16, b mod 16 * 16 + c div 4]"
| "sextets_bytes [a, b] = [a * 4 + b div 16]"
| "sextets_bytes [a] = []"
| "sextets_bytes [] = []"

text \<open>
  PHP's \<^verbatim>\<open>base64_decode\<close> without the strict flag skips every character outside the
  alphabet, the padding included.
\<close>

definition base64_decode :: "string \<Rightarrow> nat list" where
  "base64_decode s = sextets_bytes (List.map_filter b64_index s)"

definition ascii_whitespace :: "char \<Rightarrow> bool" where
  "ascii_whitespace c = ((of_char c :: nat) \<in> set [9, 10, 12, 13, 32])"

definition strip_padding :: "string \<Rightarrow> string" where
  "strip_padding s =
     (if length s mod 4 = 0 \<and> s \<noteq> [] \<and> last s = CHR ''='' then
        (if butlast s \<noteq> [] \<and> last (butlast s) = CHR ''='' then butlast (butlast s) else butlast s)
      else s)"

text \<open>
  \<^verbatim>\<open>atob\<close> (forgiving Base64): ASCII whitespace is removed, one or two padding characters
  are removed from a length that is a multiple of four, a remaining length of 1 modulo 4 or a
  character outside the alphabet throws.
\<close>

definition atob :: "string \<Rightarrow> ustring option" where
  "atob s =
     (let t = strip_padding (filter (\<lambda>c. \<not> ascii_whitespace c) s) in
      if length t mod 4 = 1 \<or> \<not> list_all (\<lambda>c. b64_index c \<noteq> None) t then None
      else Some (sextets_bytes (List.map_filter b64_index t)))"

subsection \<open>Writing JSON text\<close>

definition hex_digit :: "nat \<Rightarrow> nat" where
  "hex_digit n = (if n < 10 then 48 + n else 87 + n)"

definition hex4 :: "nat \<Rightarrow> ustring" where
  "hex4 n = [hex_digit (n div 4096), hex_digit (n div 256 mod 16), hex_digit (n div 16 mod 16),
             hex_digit (n mod 16)]"

definition unicode_escape :: "nat \<Rightarrow> ustring" where
  "unicode_escape c = 92 # 117 # hex4 c"

text \<open>The short escapes both languages write: quote, backslash, \<^verbatim>\<open>\b \f \n \r \t\<close>.\<close>

definition short_escape :: "nat \<Rightarrow> ustring option" where
  "short_escape c =
     (if c = 34 then Some [92, 34]
      else if c = 92 then Some [92, 92]
      else if c = 8 then Some [92, 98]
      else if c = 12 then Some [92, 102]
      else if c = 10 then Some [92, 110]
      else if c = 13 then Some [92, 114]
      else if c = 9 then Some [92, 116]
      else None)"

text \<open>
  \<^verbatim>\<open>json_encode\<close> with its default flags also escapes the slash and writes every character
  outside ASCII as \<^verbatim>\<open>\uXXXX\<close> (a character above U+FFFF as its surrogate pair, which are
  its two code units here): the text it writes is ASCII.
\<close>

definition php_escape :: "nat \<Rightarrow> ustring" where
  "php_escape c =
     (case short_escape c of
        Some e \<Rightarrow> e
      | None \<Rightarrow>
          if c = 47 then [92, 47]
          else if c < 32 \<or> 128 \<le> c then unicode_escape c
          else [c])"

definition php_quote :: "ustring \<Rightarrow> ustring" where
  "php_quote s = 34 # concat (map php_escape s) @ [34]"

definition high_surrogate :: "nat \<Rightarrow> bool" where
  "high_surrogate c = (55296 \<le> c \<and> c \<le> 56319)"

definition low_surrogate :: "nat \<Rightarrow> bool" where
  "low_surrogate c = (56320 \<le> c \<and> c \<le> 57343)"

text \<open>
  \<^verbatim>\<open>JSON.stringify\<close> escapes the control characters and a surrogate that has no partner;
  everything else is written as it is.
\<close>

fun js_escape_all :: "ustring \<Rightarrow> ustring" where
  "js_escape_all [] = []"
| "js_escape_all [c] =
     (case short_escape c of
        Some e \<Rightarrow> e
      | None \<Rightarrow> if c < 32 \<or> high_surrogate c \<or> low_surrogate c then unicode_escape c else [c])"
| "js_escape_all (c # d # rest) =
     (case short_escape c of
        Some e \<Rightarrow> e @ js_escape_all (d # rest)
      | None \<Rightarrow>
          if high_surrogate c \<and> low_surrogate d then c # d # js_escape_all rest
          else if c < 32 \<or> high_surrogate c \<or> low_surrogate c then
            unicode_escape c @ js_escape_all (d # rest)
          else c # js_escape_all (d # rest))"

definition js_quote :: "ustring \<Rightarrow> ustring" where
  "js_quote s = 34 # js_escape_all s @ [34]"

text \<open>
  The text of a value, for a given way of quoting strings. As \<^verbatim>\<open>JSON.stringify\<close> does, an
  \<^verbatim>\<open>undefined\<close> array element is written \<^verbatim>\<open>null\<close> and a property whose value is
  \<^verbatim>\<open>undefined\<close> is left out; PHP has no such value.
\<close>

fun json_text :: "(ustring \<Rightarrow> ustring) \<Rightarrow> jsval \<Rightarrow> ustring"
  and json_elements :: "(ustring \<Rightarrow> ustring) \<Rightarrow> jsval list \<Rightarrow> ustring"
  and json_members :: "(ustring \<Rightarrow> ustring) \<Rightarrow> bool \<Rightarrow> (ustring \<times> jsval) list \<Rightarrow> ustring" where
  "json_text q JUndefined = ascii ''null''"
| "json_text q JNull = ascii ''null''"
| "json_text q (JBool b) = (if b then ascii ''true'' else ascii ''false'')"
| "json_text q (JNum n) = show_int n"
| "json_text q (JStr s) = q s"
| "json_text q (JArr vs) = 91 # json_elements q vs @ [93]"
| "json_text q (JObj kvs) = 123 # json_members q True kvs @ [125]"
| "json_elements q [] = []"
| "json_elements q [v] = json_text q v"
| "json_elements q (v # w # vs) = json_text q v @ 44 # json_elements q (w # vs)"
| "json_members q first [] = []"
| "json_members q first ((k, v) # kvs) =
     (if v = JUndefined then json_members q first kvs
      else (if first then [] else [44]) @ q k @ 58 # json_text q v @ json_members q False kvs)"

text \<open>\<^verbatim>\<open>JSON.stringify(v)\<close> returns \<^verbatim>\<open>undefined\<close>, not a string, for \<^verbatim>\<open>undefined\<close>.\<close>

definition JSON_stringify :: "jsval \<Rightarrow> ustring option" where
  "JSON_stringify v = (if v = JUndefined then None else Some (json_text js_quote v))"

definition json_encode :: "jsval \<Rightarrow> ustring" where
  "json_encode v = json_text php_quote v"

subsection \<open>Reading JSON text\<close>

fun skip_ws :: "ustring \<Rightarrow> ustring" where
  "skip_ws [] = []"
| "skip_ws (c # cs) = (if c = 32 \<or> c = 9 \<or> c = 10 \<or> c = 13 then skip_ws cs else c # cs)"

definition hex_val :: "nat \<Rightarrow> nat option" where
  "hex_val c =
     (if 48 \<le> c \<and> c \<le> 57 then Some (c - 48)
      else if 97 \<le> c \<and> c \<le> 102 then Some (c - 87)
      else if 65 \<le> c \<and> c \<le> 70 then Some (c - 55)
      else None)"

definition unescape :: "nat \<Rightarrow> nat option" where
  "unescape e =
     (if e = 34 \<or> e = 92 \<or> e = 47 then Some e
      else if e = 98 then Some 8
      else if e = 102 then Some 12
      else if e = 110 then Some 10
      else if e = 114 then Some 13
      else if e = 116 then Some 9
      else None)"

definition cons_fst :: "nat \<Rightarrow> (ustring \<times> ustring) option \<Rightarrow> (ustring \<times> ustring) option" where
  "cons_fst c r = (case r of None \<Rightarrow> None | Some (s, rest) \<Rightarrow> Some (c # s, rest))"

text \<open>The characters of a string after its opening quote, and what follows the closing one.\<close>

fun parse_string :: "ustring \<Rightarrow> (ustring \<times> ustring) option" where
  "parse_string [] = None"
| "parse_string (c # cs) =
     (if c = 34 then Some ([], cs)
      else if c = 92 then
        (case cs of
           [] \<Rightarrow> None
         | e # r \<Rightarrow>
             if e = 117 then
               (case r of
                  a # b # c' # d # r' \<Rightarrow>
                    (case (hex_val a, hex_val b, hex_val c', hex_val d) of
                       (Some h1, Some h2, Some h3, Some h4) \<Rightarrow>
                         cons_fst (h1 * 4096 + h2 * 256 + h3 * 16 + h4) (parse_string r')
                     | _ \<Rightarrow> None)
                | _ \<Rightarrow> None)
             else (case unescape e of None \<Rightarrow> None | Some x \<Rightarrow> cons_fst x (parse_string r)))
      else if c < 32 then None
      else cons_fst c (parse_string cs))"

definition is_digit :: "nat \<Rightarrow> bool" where
  "is_digit c = (48 \<le> c \<and> c \<le> 57)"

fun digits_value :: "nat \<Rightarrow> ustring \<Rightarrow> nat" where
  "digits_value acc [] = acc"
| "digits_value acc (c # cs) = digits_value (acc * 10 + (c - 48)) cs"

text \<open>
  A number: an optional minus sign and an integer part without a leading zero. A fraction
  or an exponent makes a number that is not an integer of the model: such text is refused.
\<close>

definition parse_number :: "ustring \<Rightarrow> (jsval \<times> ustring) option" where
  "parse_number s =
     (let (neg, t) = (case s of c # cs \<Rightarrow> if c = 45 then (True, cs) else (False, s) | [] \<Rightarrow> (False, s));
          ds = takeWhile is_digit t;
          rest = dropWhile is_digit t in
      if ds = [] \<or> (hd ds = 48 \<and> length ds > 1) then None
      else if rest \<noteq> [] \<and> (hd rest = 46 \<or> hd rest = 101 \<or> hd rest = 69) then None
      else Some (JNum (if neg then - int (digits_value 0 ds) else int (digits_value 0 ds)), rest))"

definition parse_literal :: "ustring \<Rightarrow> jsval \<Rightarrow> ustring \<Rightarrow> (jsval \<times> ustring) option" where
  "parse_literal word v s =
     (if take (length word) s = word then Some (v, drop (length word) s) else None)"

text \<open>
  The parser of values, elements and members; the first argument bounds the nesting and the
  number of elements, and \<open>json_parse\<close> starts it above the length of the text.
\<close>

fun parse_value :: "nat \<Rightarrow> ustring \<Rightarrow> (jsval \<times> ustring) option"
  and parse_elements :: "nat \<Rightarrow> ustring \<Rightarrow> (jsval list \<times> ustring) option"
  and parse_members :: "nat \<Rightarrow> ustring \<Rightarrow> ((ustring \<times> jsval) list \<times> ustring) option" where
  "parse_value 0 s = None"
| "parse_value (Suc n) s =
     (case skip_ws s of
        [] \<Rightarrow> None
      | c # cs \<Rightarrow>
          if c = 34 then
            (case parse_string cs of None \<Rightarrow> None | Some (str, rest) \<Rightarrow> Some (JStr str, rest))
          else if c = 91 then
            (case skip_ws cs of
               [] \<Rightarrow> None
             | d # ds \<Rightarrow>
                 if d = 93 then Some (JArr [], ds)
                 else (case parse_elements n cs of
                         None \<Rightarrow> None
                       | Some (vs, rest) \<Rightarrow> Some (JArr vs, rest)))
          else if c = 123 then
            (case skip_ws cs of
               [] \<Rightarrow> None
             | d # ds \<Rightarrow>
                 if d = 125 then Some (JObj [], ds)
                 else (case parse_members n cs of
                         None \<Rightarrow> None
                       | Some (kvs, rest) \<Rightarrow> Some (JObj kvs, rest)))
          else if c = 116 then parse_literal (ascii ''true'') (JBool True) (c # cs)
          else if c = 102 then parse_literal (ascii ''false'') (JBool False) (c # cs)
          else if c = 110 then parse_literal (ascii ''null'') JNull (c # cs)
          else parse_number (c # cs))"
| "parse_elements 0 s = None"
| "parse_elements (Suc n) s =
     (case parse_value n s of
        None \<Rightarrow> None
      | Some (v, rest) \<Rightarrow>
          (case skip_ws rest of
             [] \<Rightarrow> None
           | c # cs \<Rightarrow>
               if c = 93 then Some ([v], cs)
               else if c = 44 then
                 (case parse_elements n cs of
                    None \<Rightarrow> None
                  | Some (vs, rest') \<Rightarrow> Some (v # vs, rest'))
               else None))"
| "parse_members 0 s = None"
| "parse_members (Suc n) s =
     (case skip_ws s of
        [] \<Rightarrow> None
      | q # qs \<Rightarrow>
          if q \<noteq> 34 then None
          else
            (case parse_string qs of
               None \<Rightarrow> None
             | Some (k, rest) \<Rightarrow>
                 (case skip_ws rest of
                    [] \<Rightarrow> None
                  | colon # r \<Rightarrow>
                      if colon \<noteq> 58 then None
                      else
                        (case parse_value n r of
                           None \<Rightarrow> None
                         | Some (v, rest') \<Rightarrow>
                             (case skip_ws rest' of
                                [] \<Rightarrow> None
                              | c # cs \<Rightarrow>
                                  if c = 125 then Some ([(k, v)], cs)
                                  else if c = 44 then
                                    (case parse_members n cs of
                                       None \<Rightarrow> None
                                     | Some (kvs, rest'') \<Rightarrow> Some ((k, v) # kvs, rest''))
                                  else None)))))"

text \<open>
  \<^verbatim>\<open>JSON.parse\<close>: one value, then nothing but white space. The members of an object are
  returned as written. JavaScript would keep only the last of a repeated key and list the
  keys that are array indices first: the reader is \<^verbatim>\<open>JSON.parse\<close> on text whose objects have
  distinct keys, none of them an array index, and whose numbers are integers.
\<close>

definition json_parse :: "ustring \<Rightarrow> jsval option" where
  "json_parse s =
     (case parse_value (Suc (length s)) s of
        None \<Rightarrow> None
      | Some (v, rest) \<Rightarrow> if skip_ws rest = [] then Some v else None)"

subsection \<open>PHP's view of a decoded value\<close>

text \<open>
  \<^verbatim>\<open>json_decode($text, true)\<close> returns arrays only, and PHP cannot tell an array with the keys
  0, 1, ... from a list: an object with exactly these keys (the empty object among them) is
  a list to every later \<^verbatim>\<open>json_encode\<close>.
\<close>

definition php_list_like :: "(ustring \<times> jsval) list \<Rightarrow> bool" where
  "php_list_like kvs = (map fst kvs = map show_nat [0..<length kvs])"

fun php_assoc :: "jsval \<Rightarrow> jsval"
  and php_assoc_list :: "jsval list \<Rightarrow> jsval list"
  and php_assoc_members :: "(ustring \<times> jsval) list \<Rightarrow> (ustring \<times> jsval) list" where
  "php_assoc (JArr vs) = JArr (php_assoc_list vs)"
| "php_assoc (JObj kvs) =
     (if php_list_like kvs then JArr (map snd (php_assoc_members kvs))
      else JObj (php_assoc_members kvs))"
| "php_assoc JUndefined = JUndefined"
| "php_assoc JNull = JNull"
| "php_assoc (JBool b) = JBool b"
| "php_assoc (JNum n) = JNum n"
| "php_assoc (JStr s) = JStr s"
| "php_assoc_list [] = []"
| "php_assoc_list (v # vs) = php_assoc v # php_assoc_list vs"
| "php_assoc_members [] = []"
| "php_assoc_members ((k, v) # kvs) = (k, php_assoc v) # php_assoc_members kvs"

text \<open>
  \<^verbatim>\<open>json_decode($text, true)\<close> on ASCII text; it returns \<^verbatim>\<open>null\<close> when the text is not JSON.
  Text with bytes outside ASCII (UTF-8 sequences, which PHP decodes) is outside the model and
  is refused here.
\<close>

definition json_decode :: "ustring \<Rightarrow> jsval" where
  "json_decode text =
     (if list_all (\<lambda>b. b < 128) text then
        (case json_parse text of None \<Rightarrow> JNull | Some v \<Rightarrow> php_assoc v)
      else JNull)"

text \<open>What PHP takes for false in \<^verbatim>\<open>!$x\<close>.\<close>

fun php_falsy :: "jsval \<Rightarrow> bool" where
  "php_falsy JUndefined = True"
| "php_falsy JNull = True"
| "php_falsy (JBool b) = (\<not> b)"
| "php_falsy (JNum n) = (n = 0)"
| "php_falsy (JStr s) = (s = [] \<or> s = ascii ''0'')"
| "php_falsy (JArr vs) = (vs = [])"
| "php_falsy (JObj kvs) = (kvs = [])"

text \<open>
  A value of the JSON data model that PHP holds as it is: no \<^verbatim>\<open>undefined\<close>, code units
  below 65536, and no object that PHP would take for a list.
\<close>

fun json_value :: "jsval \<Rightarrow> bool"
  and json_values :: "jsval list \<Rightarrow> bool"
  and json_properties :: "(ustring \<times> jsval) list \<Rightarrow> bool" where
  "json_value JUndefined = False"
| "json_value JNull = True"
| "json_value (JBool b) = True"
| "json_value (JNum n) = True"
| "json_value (JStr s) = list_all (\<lambda>c. c < 65536) s"
| "json_value (JArr vs) = json_values vs"
| "json_value (JObj kvs) = (\<not> php_list_like kvs \<and> json_properties kvs)"
| "json_values [] = True"
| "json_values (v # vs) = (json_value v \<and> json_values vs)"
| "json_properties [] = True"
| "json_properties ((k, v) # kvs) =
     (list_all (\<lambda>c. c < 65536) k \<and> json_value v \<and> json_properties kvs)"

text \<open>All strings and keys of a value are ASCII.\<close>

fun ascii_value :: "jsval \<Rightarrow> bool"
  and ascii_values :: "jsval list \<Rightarrow> bool"
  and ascii_properties :: "(ustring \<times> jsval) list \<Rightarrow> bool" where
  "ascii_value (JStr s) = list_all (\<lambda>c. c < 128) s"
| "ascii_value (JArr vs) = ascii_values vs"
| "ascii_value (JObj kvs) = ascii_properties kvs"
| "ascii_value JUndefined = True"
| "ascii_value JNull = True"
| "ascii_value (JBool b) = True"
| "ascii_value (JNum n) = True"
| "ascii_values [] = True"
| "ascii_values (v # vs) = (ascii_value v \<and> ascii_values vs)"
| "ascii_properties [] = True"
| "ascii_properties ((k, v) # kvs) =
     (list_all (\<lambda>c. c < 128) k \<and> ascii_value v \<and> ascii_properties kvs)"

section \<open>The payment gate: \<^verbatim>\<open>X402Middleware\<close>\<close>

text \<open>
  The PHP middleware in front of a paid resource. A PHP value is written as a value of the
  same data type as a JavaScript one: a list is an array, an array with string keys an
  object, and there is no \<^verbatim>\<open>undefined\<close>. A PHP string is written by the code units of its
  text. What the script leaves behind is its response (status, the headers the middleware
  sets, the value whose JSON text it echoes) or the value it returns to the protected page,
  together with the requests it has posted to the facilitator.
\<close>

subsection \<open>PHP expressions\<close>

text \<open>\<^verbatim>\<open>is_array\<close>, which the return type \<^verbatim>\<open>?array\<close> asks of a value that is not null.\<close>

fun is_array :: "jsval \<Rightarrow> bool" where
  "is_array (JArr vs) = True"
| "is_array (JObj kvs) = True"
| "is_array v = False"

text \<open>
  \<^verbatim>\<open>$v[$key]\<close> under \<^verbatim>\<open>??\<close> for a key that is not a number: the value at the key, and null
  when there is none or when \<^verbatim>\<open>$v\<close> is null or a list.
\<close>

fun php_index :: "jsval \<Rightarrow> ustring \<Rightarrow> jsval" where
  "php_index (JObj kvs) key = (case map_of kvs key of Some v \<Rightarrow> v | None \<Rightarrow> JNull)"
| "php_index v key = JNull"

text \<open>\<^verbatim>\<open>$a ?? $b\<close>.\<close>

definition coalesce :: "jsval \<Rightarrow> jsval \<Rightarrow> jsval" where
  "coalesce a b = (if nullish a then b else a)"

text \<open>
  The string a value becomes under the concatenation operator; an array becomes
  \<^verbatim>\<open>Array\<close> (with a warning).
\<close>

fun php_strval :: "jsval \<Rightarrow> ustring" where
  "php_strval (JStr s) = s"
| "php_strval (JNum n) = show_int n"
| "php_strval (JBool b) = (if b then ascii ''1'' else [])"
| "php_strval JNull = []"
| "php_strval JUndefined = []"
| "php_strval (JArr vs) = ascii ''Array''"
| "php_strval (JObj kvs) = ascii ''Array''"

subsection \<open>Responses\<close>

record php_response =
  rs_status :: nat
  rs_headers :: "(string \<times> string) list"
  rs_body :: jsval

text \<open>\<^verbatim>\<open>Response::json\<close> and \<^verbatim>\<open>Response::error\<close> (with no \<^verbatim>\<open>$errors\<close>); both end the script.\<close>

definition Response_json :: "jsval \<Rightarrow> nat \<Rightarrow> php_response" where
  "Response_json data statusCode =
     \<lparr>rs_status = statusCode,
      rs_headers = [(''Content-Type'', ''application/json; charset=utf-8'')],
      rs_body = data\<rparr>"

definition Response_error :: "ustring \<Rightarrow> nat \<Rightarrow> ustring \<Rightarrow> php_response" where
  "Response_error msg statusCode errorCode =
     Response_json
       (JObj ([(ascii ''success'', JBool False), (ascii ''message'', JStr msg)] @
              (if php_falsy (JStr errorCode) then [] else [(ascii ''error_code'', JStr errorCode)])))
       statusCode"

subsection \<open>The environment of the script\<close>

text \<open>
  The request headers as \<^verbatim>\<open>getallheaders()\<close> returns them, the configured key, the built-in
  \<^verbatim>\<open>json_decode($text, true)\<close>, and the HTTP client: \<open>curl_post url key text\<close> is the status
  code and the body that \<^verbatim>\<open>curl_exec\<close> and \<^verbatim>\<open>curl_getinfo\<close> return for a POST of \<open>text\<close> to
  \<open>url\<close> with the header \<^verbatim>\<open>X-API-Key: key\<close>; the status code is 0 when no response arrives.
\<close>

record php_env =
  getallheaders :: "string \<Rightarrow> string option"
  X402_FACILITATOR_KEY :: string
  php_json_decode :: "ustring \<Rightarrow> jsval"
  curl_post :: "string \<Rightarrow> string \<Rightarrow> ustring \<Rightarrow> nat \<times> ustring"

definition FACILITATOR_URL :: string where
  "FACILITATOR_URL = ''http://127.0.0.1:3849''"

definition HEADER_PAYMENT_REQUIRED :: string where
  "HEADER_PAYMENT_REQUIRED = ''PAYMENT-REQUIRED''"

definition HEADER_PAYMENT_SIGNATURE :: string where
  "HEADER_PAYMENT_SIGNATURE = ''PAYMENT-SIGNATURE''"

definition HEADER_PAYMENT_RESPONSE :: string where
  "HEADER_PAYMENT_RESPONSE = ''PAYMENT-RESPONSE''"

subsection \<open>The middleware\<close>

definition getPaymentHeader :: "(string \<Rightarrow> string option) \<Rightarrow> string option" where
  "getPaymentHeader headers =
     (case headers HEADER_PAYMENT_SIGNATURE of
        Some h \<Rightarrow> Some h
      | None \<Rightarrow>
          (case headers ''Payment-Signature'' of
             Some h \<Rightarrow> Some h
           | None \<Rightarrow> headers ''payment-signature''))"

definition send402 :: "jsval \<Rightarrow> php_response" where
  "send402 requirements =
     \<lparr>rs_status = 402,
      rs_headers = [(''Content-Type'', ''application/json''),
                    (HEADER_PAYMENT_REQUIRED, base64_encode (json_encode (JArr [requirements])))],
      rs_body = JObj [(ascii ''success'', JBool False),
                      (ascii ''message'', JStr (ascii ''Payment Required'')),
                      (ascii ''error_code'', JStr (ascii ''X402_PAYMENT_REQUIRED'')),
                      (ascii ''x402Version'', JNum 2)]\<rparr>"

text \<open>
  \<^verbatim>\<open>callFacilitator\<close> returns null unless the status is 200 or 402. Its return type is
  \<^verbatim>\<open>?array\<close>: a decoded body that is neither null nor an array is a \<^verbatim>\<open>TypeError\<close>, which
  nothing catches. The request it posts is recorded beside the result.
\<close>

datatype php_fatal = TypeError

type_synonym posted = "string \<times> string \<times> ustring"

definition callFacilitator :: "php_env \<Rightarrow> string \<Rightarrow> jsval \<Rightarrow> (php_fatal + jsval) \<times> posted list" where
  "callFacilitator penv endpoint data =
     (let url = FACILITATOR_URL @ endpoint;
          key = X402_FACILITATOR_KEY penv;
          text = json_encode data;
          (httpCode, response) = curl_post penv url key text in
      (if httpCode \<noteq> 200 \<and> httpCode \<noteq> 402 then Inr JNull
       else (let decoded = php_json_decode penv response in
             if nullish decoded \<or> is_array decoded then Inr decoded else Inl TypeError),
       [(url, key, text)]))"

text \<open>How a run of the middleware ends.\<close>

datatype gate_outcome =
    Exit php_response
  | Returned jsval "(string \<times> string) list"
  | Uncaught php_fatal

definition handle :: "php_env \<Rightarrow> jsval \<Rightarrow> gate_outcome \<times> posted list" where
  "handle penv requirements =
     (case getPaymentHeader (getallheaders penv) of
        None \<Rightarrow> (Exit (send402 requirements), [])
      | Some paymentHeader \<Rightarrow>
          (let payload = php_json_decode penv (base64_decode paymentHeader) in
           if php_falsy payload then
             (Exit (Response_error (ascii ''Invalid PAYMENT-SIGNATURE header'') 400
                      (ascii ''X402_INVALID_PAYLOAD'')), [])
           else
             (case callFacilitator penv ''/x402/verify''
                     (JObj [(ascii ''payload'', payload), (ascii ''requirements'', requirements)]) of
                (Inl fatal, verify_posted) \<Rightarrow> (Uncaught fatal, verify_posted)
              | (Inr verifyResult, verify_posted) \<Rightarrow>
                  if php_falsy verifyResult \<or>
                     php_falsy (coalesce (php_index verifyResult (ascii ''valid'')) (JBool False))
                  then
                    (Exit (Response_error
                             (ascii ''Payment verification failed: '' @
                              php_strval (coalesce (php_index verifyResult (ascii ''reason''))
                                            (JStr (ascii ''unknown''))))
                             402 (ascii ''X402_VERIFY_FAILED'')),
                     verify_posted)
                  else
                    (case callFacilitator penv ''/x402/settle''
                            (JObj [(ascii ''payload'', payload),
                                   (ascii ''requirements'', requirements)]) of
                       (Inl fatal, settle_posted) \<Rightarrow> (Uncaught fatal, verify_posted @ settle_posted)
                     | (Inr settleResult, settle_posted) \<Rightarrow>
                         if php_falsy settleResult \<or>
                            php_falsy (coalesce (php_index settleResult (ascii ''success''))
                                         (JBool False))
                         then
                           (Exit (Response_error
                                    (ascii ''Payment settlement failed: '' @
                                     php_strval (coalesce (php_index settleResult (ascii ''error''))
                                                   (JStr (ascii ''unknown''))))
                                    500 (ascii ''X402_SETTLE_FAILED'')),
                            verify_posted @ settle_posted)
                         else
                           (Returned settleResult
                              [(HEADER_PAYMENT_RESPONSE, base64_encode (json_encode settleResult))],
                            verify_posted @ settle_posted)))))"

definition handleTransfer :: "php_env \<Rightarrow> jsval \<Rightarrow> gate_outcome \<times> posted list" where
  "handleTransfer penv requirements =
     (case getPaymentHeader (getallheaders penv) of
        None \<Rightarrow> (Exit (send402 requirements), [])
      | Some paymentHeader \<Rightarrow>
          (let payload = php_json_decode penv (base64_decode paymentHeader) in
           if php_falsy payload then
             (Exit (Response_error (ascii ''Invalid PAYMENT-SIGNATURE header'') 400
                      (ascii ''X402_INVALID_PAYLOAD'')), [])
           else
             (case callFacilitator penv ''/x402/verify-transfer''
                     (JObj [(ascii ''payload'', payload), (ascii ''requirements'', requirements)]) of
                (Inl fatal, verify_posted) \<Rightarrow> (Uncaught fatal, verify_posted)
              | (Inr verifyResult, verify_posted) \<Rightarrow>
                  if php_falsy verifyResult \<or>
                     php_falsy (coalesce (php_index verifyResult (ascii ''valid'')) (JBool False))
                  then
                    (Exit (Response_error
                             (ascii ''Payment verification failed: '' @
                              php_strval (coalesce (php_index verifyResult (ascii ''reason''))
                                            (JStr (ascii ''unknown''))))
                             402 (ascii ''X402_VERIFY_FAILED'')),
                     verify_posted)
                  else
                    (case callFacilitator penv ''/x402/settle-transfer''
                            (JObj [(ascii ''payload'', payload),
                                   (ascii ''requirements'', requirements)]) of
                       (Inl fatal, settle_posted) \<Rightarrow> (Uncaught fatal, verify_posted @ settle_posted)
                     | (Inr settleResult, settle_posted) \<Rightarrow>
                         if php_falsy settleResult \<or>
                            php_falsy (coalesce (php_index settleResult (ascii ''success''))
                                         (JBool False))
                         then
                           (Exit (Response_error
                                    (ascii ''Payment settlement failed: '' @
                                     php_strval (coalesce (php_index settleResult (ascii ''error''))
                                                   (JStr (ascii ''unknown''))))
                                    500 (ascii ''X402_SETTLE_FAILED'')),
                            verify_posted @ settle_posted)
                         else
                           (Returned settleResult
                              [(HEADER_PAYMENT_RESPONSE, base64_encode (json_encode settleResult))],
                            verify_posted @ settle_posted)))))"

section \<open>The client: \<^verbatim>\<open>X402Service\<close>\<close>

text \<open>
  The two codec methods of the browser client. \<^verbatim>\<open>JSON.parse\<close> is the reader of the previous
  section, whose numbers are integers; JavaScript holds an integer exactly up to
  \<open>2\<^sup>5\<^sup>3 - 1\<close>.
\<close>

datatype client_error = Missing_header | InvalidCharacterError | SyntaxError

text \<open>\<^verbatim>\<open>JSON.parse(atob(header))\<close>.\<close>

definition parse_header :: "string \<Rightarrow> client_error + jsval" where
  "parse_header header =
     (case atob header of
        None \<Rightarrow> Inl InvalidCharacterError
      | Some text \<Rightarrow> (case json_parse text of None \<Rightarrow> Inl SyntaxError | Some v \<Rightarrow> Inr v))"

text \<open>The argument is \<^verbatim>\<open>response.headers.get\<close>; a missing header and an empty one throw.\<close>

definition parsePaymentRequired :: "(string \<Rightarrow> string option) \<Rightarrow> client_error + jsval" where
  "parsePaymentRequired headers_get =
     (case headers_get ''PAYMENT-REQUIRED'' of
        None \<Rightarrow> Inl Missing_header
      | Some header \<Rightarrow> if header = [] then Inl Missing_header else parse_header header)"

text \<open>
  \<^verbatim>\<open>btoa(JSON.stringify(payload))\<close>; \<^verbatim>\<open>btoa\<close> turns the \<^verbatim>\<open>undefined\<close> that \<^verbatim>\<open>JSON.stringify\<close>
  returns for \<^verbatim>\<open>undefined\<close> into a string.
\<close>

definition encodePayload :: "jsval \<Rightarrow> string option" where
  "encodePayload payload =
     btoa (case JSON_stringify payload of None \<Rightarrow> ascii ''undefined'' | Some text \<Rightarrow> text)"

text \<open>All numbers of a value are integers that JavaScript holds exactly.\<close>

fun safe_integers :: "jsval \<Rightarrow> bool"
  and safe_integers_list :: "jsval list \<Rightarrow> bool"
  and safe_integers_members :: "(ustring \<times> jsval) list \<Rightarrow> bool" where
  "safe_integers (JNum n) = (\<bar>n\<bar> \<le> 9007199254740991)"
| "safe_integers (JArr vs) = safe_integers_list vs"
| "safe_integers (JObj kvs) = safe_integers_members kvs"
| "safe_integers JUndefined = True"
| "safe_integers JNull = True"
| "safe_integers (JBool b) = True"
| "safe_integers (JStr s) = True"
| "safe_integers_list [] = True"
| "safe_integers_list (v # vs) = (safe_integers v \<and> safe_integers_list vs)"
| "safe_integers_members [] = True"
| "safe_integers_members ((k, v) # kvs) = (safe_integers v \<and> safe_integers_members kvs)"

text \<open>
  A JavaScript object lists the keys that are array indices (decimal numerals without a
  leading zero) first, in ascending order, whatever the order they were written in, and it
  holds a key once. The values below keep apart from both: in each of their objects the keys
  are distinct and none is such a numeral, so that the order of the members as written is the
  order JavaScript gives them.
\<close>

definition index_key :: "ustring \<Rightarrow> bool" where
  "index_key k = (k \<noteq> [] \<and> list_all is_digit k \<and> (length k = 1 \<or> hd k \<noteq> 48))"

fun plain_keys :: "jsval \<Rightarrow> bool"
  and plain_keys_list :: "jsval list \<Rightarrow> bool"
  and plain_keys_members :: "(ustring \<times> jsval) list \<Rightarrow> bool" where
  "plain_keys (JObj kvs) =
     (distinct (map fst kvs) \<and> list_all (\<lambda>k. \<not> index_key k) (map fst kvs) \<and>
      plain_keys_members kvs)"
| "plain_keys (JArr vs) = plain_keys_list vs"
| "plain_keys JUndefined = True"
| "plain_keys JNull = True"
| "plain_keys (JBool b) = True"
| "plain_keys (JNum n) = True"
| "plain_keys (JStr s) = True"
| "plain_keys_list [] = True"
| "plain_keys_list (v # vs) = (plain_keys v \<and> plain_keys_list vs)"
| "plain_keys_members [] = True"
| "plain_keys_members ((k, v) # kvs) = (plain_keys v \<and> plain_keys_members kvs)"

text \<open>
  Text in UTF-16 is well formed when every surrogate is one of a pair; only such text is
  the text of a PHP string, which holds it in UTF-8.
\<close>

fun well_formed :: "ustring \<Rightarrow> bool" where
  "well_formed [] = True"
| "well_formed [c] = (\<not> high_surrogate c \<and> \<not> low_surrogate c)"
| "well_formed (c # d # rest) =
     (if high_surrogate c \<and> low_surrogate d then well_formed rest
      else \<not> high_surrogate c \<and> \<not> low_surrogate c \<and> well_formed (d # rest))"

fun well_formed_strings :: "jsval \<Rightarrow> bool"
  and well_formed_list :: "jsval list \<Rightarrow> bool"
  and well_formed_members :: "(ustring \<times> jsval) list \<Rightarrow> bool" where
  "well_formed_strings (JStr s) = well_formed s"
| "well_formed_strings (JArr vs) = well_formed_list vs"
| "well_formed_strings (JObj kvs) = well_formed_members kvs"
| "well_formed_strings JUndefined = True"
| "well_formed_strings JNull = True"
| "well_formed_strings (JBool b) = True"
| "well_formed_strings (JNum n) = True"
| "well_formed_list [] = True"
| "well_formed_list (v # vs) = (well_formed_strings v \<and> well_formed_list vs)"
| "well_formed_members [] = True"
| "well_formed_members ((k, v) # kvs) =
     (well_formed k \<and> well_formed_strings v \<and> well_formed_members kvs)"

text \<open>
  How deep the arrays and objects of a value are nested. \<^verbatim>\<open>json_encode\<close> and \<^verbatim>\<open>json_decode\<close>
  give up beyond their default depth of 512.
\<close>

fun nesting :: "jsval \<Rightarrow> nat"
  and nesting_list :: "jsval list \<Rightarrow> nat"
  and nesting_members :: "(ustring \<times> jsval) list \<Rightarrow> nat" where
  "nesting (JArr vs) = Suc (nesting_list vs)"
| "nesting (JObj kvs) = Suc (nesting_members kvs)"
| "nesting JUndefined = 0"
| "nesting JNull = 0"
| "nesting (JBool b) = 0"
| "nesting (JNum n) = 0"
| "nesting (JStr s) = 0"
| "nesting_list [] = 0"
| "nesting_list (v # vs) = max (nesting v) (nesting_list vs)"
| "nesting_members [] = 0"
| "nesting_members ((k, v) # kvs) = max (nesting v) (nesting_members kvs)"

section \<open>Gate and facilitator together\<close>

text \<open>A request as the gate posts it, with the body in one chunk.\<close>

definition post :: "string \<Rightarrow> string \<Rightarrow> ustring \<Rightarrow> request" where
  "post pathname key body =
     \<lparr>rq_method = ''POST'', rq_pathname = pathname,
      rq_headers = (\<lambda>name. if name = ''x-api-key'' then Some key else None),
      rq_chunks = [body], rq_stream_error = False\<rparr>"

text \<open>
  The HTTP client of the gate when the facilitator is the server of the first section: the
  response is the status and the JSON text that \<^verbatim>\<open>sendJson\<close> writes, and there is none (status
  0 after the timeout) when the handler throws. Text of the facilitator outside ASCII would
  reach PHP as UTF-8, which is not modelled.
\<close>

definition facilitator_post :: "env \<Rightarrow> string \<Rightarrow> string \<Rightarrow> ustring \<Rightarrow> nat \<times> ustring" where
  "facilitator_post fenv url key text =
     (case fst (server fenv (post (drop (length FACILITATOR_URL) url) key text)) of
        Return statusCode data \<Rightarrow>
          (statusCode, case JSON_stringify data of None \<Rightarrow> [] | Some t \<Rightarrow> t)
      | Throw error \<Rightarrow> (0, [])
      | Next x \<Rightarrow> (0, []))"

section \<open>A worked example\<close>

text \<open>
  The requirements that \<^verbatim>\<open>api/x402/ai.php\<close> builds for the default price and a treasury
  address, a payload a buyer signs for them, and an environment around the facilitator:
  key \<^verbatim>\<open>secret\<close>, no escrow adapter, a clock at 1700000000, a chain on which the buyer
  holds 5000 units and on which a transfer is mined unless the nonce was used. Signatures,
  nonces and the transaction hash are short strings that stand for the 65, 32 and 32 bytes
  of real ones.
\<close>

definition example_treasury :: ustring where
  "example_treasury = ascii ''0x1111111111111111111111111111111111111111''"

definition example_buyer :: ustring where
  "example_buyer = ascii ''0xAbCdEf0123456789aBcDeF0123456789abcdef01''"

definition example_requirements :: jsval where
  "example_requirements =
     JObj [(ascii ''scheme'', JStr (ascii ''exact'')),
           (ascii ''network'', JStr (ascii ''eip155:1030'')),
           (ascii ''amount'', JStr (ascii ''100'')),
           (ascii ''asset'', JStr (ascii ''0xaf37e8b6c9ed7f6318979f56fc287d76c30847ff'')),
           (ascii ''payTo'', JStr example_treasury),
           (ascii ''extra'',
              JObj [(ascii ''settlementMode'', JStr (ascii ''transfer'')),
                    (ascii ''name'', JStr (ascii ''USDT0'')),
                    (ascii ''version'', JStr (ascii ''1'')),
                    (ascii ''description'',
                       JStr (ascii ''AI API query '' @ [8212] @ ascii '' 0.0001 USDT0 per request''))])]"

definition example_authorization :: jsval where
  "example_authorization =
     JObj [(ascii ''from'', JStr example_buyer),
           (ascii ''to'', JStr example_treasury),
           (ascii ''value'', JStr (ascii ''100'')),
           (ascii ''validAfter'', JStr (ascii ''0'')),
           (ascii ''validBefore'', JStr (ascii ''1700003600'')),
           (ascii ''nonce'', JStr (ascii ''0x5e''))]"

definition example_payload :: jsval where
  "example_payload =
     JObj [(ascii ''x402Version'', JNum 2),
           (ascii ''scheme'', JStr (ascii ''exact'')),
           (ascii ''network'', JStr (ascii ''eip155:1030'')),
           (ascii ''payload'',
              JObj [(ascii ''signature'', JStr (ascii ''0x51c0'')),
                    (ascii ''authorization'', example_authorization)])]"

definition example_body :: jsval where
  "example_body =
     JObj [(ascii ''payload'', example_payload), (ascii ''requirements'', example_requirements)]"

text \<open>
  \<^verbatim>\<open>BigInt\<close> and \<^verbatim>\<open>Number\<close> on the values the examples use: numbers, booleans and strings of
  decimal digits. (The built-ins read more strings than these: signs, blanks, other bases.)
\<close>

definition decimal_BigInt :: "jsval \<Rightarrow> ustring + int" where
  "decimal_BigInt v =
     (case v of
        JNum n \<Rightarrow> Inr n
      | JBool b \<Rightarrow> Inr (if b then 1 else 0)
      | JStr s \<Rightarrow>
          if s \<noteq> [] \<and> list_all is_digit s then Inr (int (digits_value 0 s))
          else Inl (ascii ''Cannot convert '' @ s @ ascii '' to a BigInt'')
      | _ \<Rightarrow> Inl (ascii ''Cannot convert '' @ js_String v @ ascii '' to a BigInt''))"

definition decimal_Number :: "jsval \<Rightarrow> jsnum" where
  "decimal_Number v =
     (case v of
        JNum n \<Rightarrow> Fin n
      | JBool b \<Rightarrow> Fin (if b then 1 else 0)
      | JNull \<Rightarrow> Fin 0
      | JStr s \<Rightarrow> if s \<noteq> [] \<and> list_all is_digit s then Fin (int (digits_value 0 s)) else NaN
      | _ \<Rightarrow> NaN)"

definition ascii_lower :: "ustring \<Rightarrow> ustring" where
  "ascii_lower s = map (\<lambda>c. if 65 \<le> c \<and> c \<le> 90 then c + 32 else c) s"

text \<open>The library recovers the buyer from the example signature and nobody from another.\<close>

definition example_verifyTypedData ::
  "(ustring \<times> ustring \<times> int \<times> jsval) \<Rightarrow> jsval list \<Rightarrow> jsval \<Rightarrow> js_error + ustring" where
  "example_verifyTypedData domain msg signature =
     (if signature = JStr (ascii ''0x51c0'')
      then Inr (ascii ''0xABCDEF0123456789ABCDEF0123456789ABCDEF01'')
      else Inl \<lparr>reason = None, message = ascii ''invalid signature''\<rparr>)"

text \<open>The library builds a contract object for a string and throws for anything else.\<close>

definition example_Contract :: "jsval \<Rightarrow> js_error + unit" where
  "example_Contract target =
     (case target of
        JStr s \<Rightarrow> Inr ()
      | _ \<Rightarrow> Inl \<lparr>reason = None, message = ascii ''invalid value for Contract target''\<rparr>)"

definition example_env :: env where
  "example_env =
     \<lparr>API_KEY = ''secret'',
      escrowAdapter = [],
      relayerAddress = ascii ''0x2222222222222222222222222222222222222222'',
      unix_now = 1700000000,
      JSON_parse = json_parse,
      js_BigInt = decimal_BigInt,
      js_Number = decimal_Number,
      str_toLowerCase = ascii_lower,
      verifyTypedData = example_verifyTypedData,
      new_Contract = example_Contract,
      balanceOf = (\<lambda>asset account. Inr 5000),
      settlePayment_staticCall = (\<lambda>adapter args from. None),
      settlePayment = (\<lambda>adapter args gasLimit. Inr (ascii ''0x7a'')),
      transferWithAuthorization =
        (\<lambda>asset args gasLimit.
           if args ! 5 = JStr (ascii ''0x5e'') then Inr (ascii ''0x7a'')
           else Inl \<lparr>reason = Some (ascii ''authorization is used''),
                     message = ascii ''execution reverted''\<rparr>),
      getBalance = (\<lambda>address. Inr 0),
      formatEther = (\<lambda>wei. ascii ''0.0''),
      demo_flow = (\<lambda>body. sendJson 200 JNull)\<rparr>"

definition example_request :: request where
  "example_request = post ''/x402/verify-transfer'' ''secret'' (json_encode example_body)"

text \<open>
  The gate in front of this facilitator, with the same key and the \<^verbatim>\<open>json_decode\<close> of the
  codec section, for given request headers.
\<close>

definition example_gate :: "(string \<Rightarrow> string option) \<Rightarrow> php_env" where
  "example_gate headers =
     \<lparr>getallheaders = headers,
      X402_FACILITATOR_KEY = ''secret'',
      php_json_decode = json_decode,
      curl_post = facilitator_post example_env\<rparr>"

text \<open>A second payload for the same requirements, signed over a nonce that was used before.\<close>

definition replayed_authorization :: jsval where
  "replayed_authorization =
     JObj [(ascii ''from'', JStr example_buyer),
           (ascii ''to'', JStr example_treasury),
           (ascii ''value'', JStr (ascii ''100'')),
           (ascii ''validAfter'', JStr (ascii ''0'')),
           (ascii ''validBefore'', JStr (ascii ''1700003600'')),
           (ascii ''nonce'', JStr (ascii ''0x5f''))]"

definition replayed_payload :: jsval where
  "replayed_payload =
     JObj [(ascii ''x402Version'', JNum 2),
           (ascii ''scheme'', JStr (ascii ''exact'')),
           (ascii ''network'', JStr (ascii ''eip155:1030'')),
           (ascii ''payload'',
              JObj [(ascii ''signature'', JStr (ascii ''0x51c0'')),
                    (ascii ''authorization'', replayed_authorization)])]"

text \<open>
  A third payload, whose authorization has the string \<^verbatim>\<open>-\<close> for both bounds of its time
  window: \<^verbatim>\<open>Number("-")\<close> is \<^verbatim>\<open>NaN\<close>.
\<close>

definition timeless_authorization :: jsval where
  "timeless_authorization =
     JObj [(ascii ''from'', JStr example_buyer),
           (ascii ''to'', JStr example_treasury),
           (ascii ''value'', JStr (ascii ''100'')),
           (ascii ''validAfter'', JStr (ascii ''-'')),
           (ascii ''validBefore'', JStr (ascii ''-'')),
           (ascii ''nonce'', JStr (ascii ''0x60''))]"

definition timeless_payload :: jsval where
  "timeless_payload =
     JObj [(ascii ''x402Version'', JNum 2),
           (ascii ''scheme'', JStr (ascii ''exact'')),
           (ascii ''network'', JStr (ascii ''eip155:1030'')),
           (ascii ''payload'',
              JObj [(ascii ''signature'', JStr (ascii ''0x51c0'')),
                    (ascii ''authorization'', timeless_authorization)])]"

section \<open>Vocabulary of the claims\<close>

text \<open>The handler answers with a body whose \<^verbatim>\<open>valid\<close> is \<^verbatim>\<open>true\<close>.\<close>

definition answers_valid :: "'a prog \<Rightarrow> bool" where
  "answers_valid p =
     (case fst p of Return statusCode data \<Rightarrow> js_prop data (ascii ''valid'') = JBool True | _ \<Rightarrow> False)"

text \<open>What may follow a number in JSON text: nothing, or a character that does not continue it.\<close>

definition number_end :: "ustring \<Rightarrow> bool" where
  "number_end rest =
     (rest = [] \<or> (\<not> is_digit (hd rest) \<and> hd rest \<noteq> 46 \<and> hd rest \<noteq> 101 \<and> hd rest \<noteq> 69))"

text \<open>The characters a JSON value can begin with.\<close>

definition value_start :: "nat \<Rightarrow> bool" where
  "value_start c =
     (c = 34 \<or> c = 91 \<or> c = 123 \<or> c = 116 \<or> c = 102 \<or> c = 110 \<or> c = 45 \<or> is_digit c)"

text \<open>A verdict body: \<^verbatim>\<open>{valid: true}\<close>, or \<^verbatim>\<open>{valid: false, reason}\<close> with a string.\<close>

fun verdict_body :: "jsval \<Rightarrow> bool" where
  "verdict_body (JObj [(k, JBool True)]) = (k = ascii ''valid'')"
| "verdict_body (JObj [(k, JBool False), (k', JStr r)]) = (k = ascii ''valid'' \<and> k' = ascii ''reason'')"
| "verdict_body v = False"

text \<open>A piece of a verify handler ends with a verdict under status 200, or it throws.\<close>

definition verdict_or_throw :: "'a prog \<Rightarrow> bool" where
  "verdict_or_throw p =
     (case fst p of
        Return statusCode data \<Rightarrow> statusCode = 200 \<and> verdict_body data
      | Throw e \<Rightarrow> True
      | Next x \<Rightarrow> False)"

text \<open>The two verify handlers by their paths.\<close>

definition verify_endpoint :: "string \<Rightarrow> (env \<Rightarrow> request \<Rightarrow> unit prog) option" where
  "verify_endpoint pathname =
     (if pathname = ''/x402/verify'' then Some handleVerify
      else if pathname = ''/x402/verify-transfer'' then Some handleVerifyTransfer
      else None)"

section \<open>Facts about the control flow\<close>

lemma on_data_concat: "on_data b cs = Some t \<Longrightarrow> t = b @ concat cs"
proof (induction cs arbitrary: b)
  case Nil
  then show ?case by simp
next
  case (Cons c cs)
  from Cons.prems have "on_data (b @ c) cs = Some t"
    by (simp add: Let_def split: if_splits)
  from Cons.IH [OF this] show ?case by simp
qed

lemma toLowerCase_Inr:
  "toLowerCase env e v = Inr l \<longleftrightarrow> (\<exists>s. v = JStr s \<and> l = str_toLowerCase env s)"
  by (cases v) (auto simp: toLowerCase_def)

lemma js_get_Inr: "js_get v k = Inr x \<longleftrightarrow> \<not> nullish v \<and> x = js_prop v k"
  by (auto simp: js_get_def)

lemma js_destructure_Inr: "js_destructure k e v = Inr u \<longleftrightarrow> \<not> nullish v"
  by (auto simp: js_destructure_def)

lemma valid_if_not_valid:
  "answers_valid (if P then sendJson c (not_valid r) else m) \<longleftrightarrow> \<not> P \<and> answers_valid m"
  by (simp add: answers_valid_def sendJson_def not_valid_def)

lemma valid_if_invalid_key:
  "answers_valid (if P then sendJson c invalid_key else m) \<longleftrightarrow> \<not> P \<and> answers_valid m"
  by (simp add: answers_valid_def sendJson_def invalid_key_def)

lemma valid_attempt:
  "answers_valid (and_then (attempt r) f) \<longleftrightarrow> (\<exists>x. r = Inr x \<and> answers_valid (f x))"
  by (cases r) (auto simp: answers_valid_def and_then_def attempt_def split: prod.splits)

lemma valid_call:
  "answers_valid (and_then (call r) f) \<longleftrightarrow> (\<exists>x. r = Inr x \<and> answers_valid (f x))"
  by (cases r) (auto simp: answers_valid_def and_then_def call_def split: prod.splits)

lemma valid_emit: "answers_valid (and_then (emit e) f) \<longleftrightarrow> answers_valid (f ())"
  by (auto simp: answers_valid_def and_then_def emit_def split: prod.splits)

lemma valid_case_option:
  "answers_valid (case opt of None \<Rightarrow> sendJson c (not_valid r) | Some a \<Rightarrow> g a) \<longleftrightarrow>
     (\<exists>a. opt = Some a \<and> answers_valid (g a))"
  by (cases opt) (auto simp: answers_valid_def sendJson_def not_valid_def)

lemma valid_try_catch:
  "answers_valid (try_catch m (\<lambda>e. sendJson c (not_valid (h e)))) \<longleftrightarrow> answers_valid m"
  by (cases m; cases "fst m")
     (auto simp: answers_valid_def try_catch_def sendJson_def not_valid_def split: prod.splits)

lemma valid_is_valid: "answers_valid (sendJson c is_valid)"
  by (simp add: answers_valid_def sendJson_def is_valid_def)

lemma valid_and_then:
  "answers_valid (and_then m f) \<longleftrightarrow>
     answers_valid m \<or> (\<exists>x evs. m = (Next x, evs) \<and> answers_valid (f x))"
  by (cases m; cases "fst m") (auto simp: answers_valid_def and_then_def split: prod.splits)

lemma attempt_not_valid: "\<not> answers_valid (attempt r)"
  by (cases r) (auto simp: answers_valid_def attempt_def)

lemma try_catch_sendJson_Next:
  "try_catch m (\<lambda>e. sendJson c (d e)) = (Next x, evs) \<longleftrightarrow> m = (Next x, evs)"
  by (cases m; cases "fst m") (auto simp: try_catch_def sendJson_def split: prod.splits)

lemma parseBody_Next:
  "parseBody env req = (Next body, evs) \<longleftrightarrow>
     evs = [ReadBody] \<and> on_data [] (rq_chunks req) \<noteq> None \<and> \<not> rq_stream_error req \<and>
     JSON_parse env (concat (rq_chunks req)) = Some body"
proof (cases "on_data [] (rq_chunks req)")
  case None
  then show ?thesis
    by (auto simp: parseBody_def and_then_def emit_def attempt_def)
next
  case (Some t)
  then have t: "t = concat (rq_chunks req)"
    using on_data_concat by fastforce
  show ?thesis
    using Some unfolding t
    by (auto simp: parseBody_def and_then_def emit_def attempt_def continue_def
        split: option.splits)
qed

lemma parseBody_not_valid: "\<not> answers_valid (parseBody env req)"
  by (auto simp: answers_valid_def parseBody_def and_then_def emit_def attempt_def continue_def
      split: option.splits)

lemma and_then_attempt_Inr: "and_then (attempt (Inr x)) f = f x"
  by (simp add: and_then_def attempt_def split: prod.splits)

lemma and_then_attempt_Inl:
  "and_then (attempt (Inl m)) f = (Throw \<lparr>reason = None, message = m\<rparr>, [])"
  by (simp add: and_then_def attempt_def)

lemma and_then_call_Inr: "and_then (call (Inr x)) f = f x"
  by (simp add: and_then_def call_def split: prod.splits)

lemma and_then_call_Inl: "and_then (call (Inl e)) f = (Throw e, [])"
  by (simp add: and_then_def call_def)

lemma and_then_emit_eq: "and_then (emit e) f = (fst (f ()), e # snd (f ()))"
  by (simp add: and_then_def emit_def split: prod.splits)

lemma try_catch_Throw: "try_catch (Throw e, evs) h = (fst (h e), evs @ snd (h e))"
  by (simp add: try_catch_def split: prod.splits)

lemma try_catch_Return_eq: "try_catch (Return c d, evs) h = (Return c d, evs)"
  by (simp add: try_catch_def)

lemma sendJson_fst_snd: "fst (sendJson c d) = Return c d" "snd (sendJson c d) = []"
  by (simp_all add: sendJson_def)

section \<open>Base64: decoding what was encoded\<close>

lemma b64_code_bound: "n < 64 \<Longrightarrow> b64_code n < 128"
  by (auto simp: b64_code_def)

lemma of_char_b64_char: "n < 64 \<Longrightarrow> (of_char (b64_char n) :: nat) = b64_code n"
  using b64_code_bound [of n] by (simp add: b64_char_def)

lemma b64_index_char: "n < 64 \<Longrightarrow> b64_index (b64_char n) = Some n"
  by (simp add: b64_index_def of_char_b64_char Let_def) (auto simp: b64_code_def)

lemma b64_char_not_pad: "n < 64 \<Longrightarrow> b64_char n \<noteq> CHR ''=''"
proof
  assume "n < 64" and "b64_char n = CHR ''=''"
  then have "b64_code n = 61"
    using of_char_b64_char [of n] by simp
  with \<open>n < 64\<close> show False
    by (simp add: b64_code_def split: if_splits)
qed

lemma b64_index_pad: "b64_index CHR ''='' = None"
  by (simp add: b64_index_def)

lemma b64_char_not_ws: "n < 64 \<Longrightarrow> \<not> ascii_whitespace (b64_char n)"
  by (simp add: ascii_whitespace_def of_char_b64_char) (auto simp: b64_code_def)

lemma sextets_bound: "\<forall>b\<in>set bs. b < 256 \<Longrightarrow> \<forall>x\<in>set (sextets bs). x < 64"
  by (induction bs rule: sextets.induct) (auto simp: less_mult_imp_div_less)

lemma sextets_bytes_sextets: "\<forall>b\<in>set bs. b < 256 \<Longrightarrow> sextets_bytes (sextets bs) = bs"
proof (induction bs rule: sextets.induct)
  case (1 a b c rest)
  have "b div 16 < 16" "c div 64 < 4" using 1(2) by (auto simp: less_mult_imp_div_less)
  then show ?case using 1 by simp
next
  case (2 a b)
  have "b div 16 < 16" using 2 by (auto simp: less_mult_imp_div_less)
  then show ?case by simp
qed simp_all

lemma padding_cases: "padding bs = [] \<or> padding bs = ''='' \<or> padding bs = ''==''"
  by (induction bs rule: padding.induct) simp_all

lemma length_encoded_mod4: "(length (sextets bs) + length (padding bs)) mod 4 = 0"
  by (induction bs rule: sextets.induct) simp_all

lemma length_sextets_mod4: "length (sextets bs) mod 4 \<noteq> Suc 0"
  by (induction bs rule: sextets.induct) simp_all

lemma map_filter_index:
  "\<forall>x\<in>set xs. x < 64 \<Longrightarrow> \<forall>c\<in>set p. c = CHR ''='' \<Longrightarrow>
     List.map_filter b64_index (map b64_char xs @ p) = xs"
proof (induction xs)
  case Nil
  then show ?case by (induction p) (auto simp: List.map_filter_def b64_index_pad)
next
  case (Cons x xs)
  then show ?case by (auto simp: List.map_filter_def b64_index_char)
qed

lemma padding_pads: "\<forall>c\<in>set (padding bs). c = CHR ''=''"
  using padding_cases [of bs] by auto

lemma base64_decode_encode: "\<forall>b\<in>set bs. b < 256 \<Longrightarrow> base64_decode (base64_encode bs) = bs"
  by (simp add: base64_decode_def base64_encode_def map_filter_index sextets_bound
      sextets_bytes_sextets padding_pads)

lemma not_ws_pad: "\<not> ascii_whitespace CHR ''=''"
  by (simp add: ascii_whitespace_def)

lemma strip_padding_last:
  "length s mod 4 = 0 \<Longrightarrow> s \<noteq> [] \<Longrightarrow> last s = CHR ''='' \<Longrightarrow>
   strip_padding s =
     (if butlast s \<noteq> [] \<and> last (butlast s) = CHR ''='' then butlast (butlast s) else butlast s)"
  by (simp add: strip_padding_def)

lemma strip_padding_none: "s = [] \<or> last s \<noteq> CHR ''='' \<Longrightarrow> strip_padding s = s"
  by (auto simp: strip_padding_def)

lemma strip_padding_padded:
  assumes "\<forall>c\<in>set xs. c \<noteq> CHR ''=''"
    and "p = [] \<or> p = ''='' \<or> p = ''==''"
    and "(length xs + length p) mod 4 = 0"
  shows "strip_padding (xs @ p) = xs"
proof -
  have lastxs: "xs \<noteq> [] \<Longrightarrow> last xs \<noteq> CHR ''=''"
    using assms(1) last_in_set by blast
  have len: "length (xs @ p) mod 4 = 0"
    using assms(3) by simp
  consider "p = []" | "p = ''=''" | "p = ''==''" using assms(2) by blast
  then show ?thesis
  proof cases
    case 1
    then show ?thesis using lastxs strip_padding_none [of xs] by auto
  next
    case 2
    have "strip_padding (xs @ ''='') = xs"
      using strip_padding_last [of "xs @ ''=''"] len lastxs unfolding 2 by auto
    then show ?thesis unfolding 2 .
  next
    case 3
    have "strip_padding (xs @ ''=='') = xs"
      using strip_padding_last [of "xs @ ''==''"] len unfolding 3
      by (simp add: butlast_append)
    then show ?thesis unfolding 3 .
  qed
qed

lemma atob_base64_encode:
  assumes "\<forall>b\<in>set bs. b < 256"
  shows "atob (base64_encode bs) = Some bs"
proof -
  let ?xs = "map b64_char (sextets bs)"
  have sx: "\<forall>x\<in>set (sextets bs). x < 64" using assms by (rule sextets_bound)
  have "\<forall>c\<in>set (base64_encode bs). \<not> ascii_whitespace c"
  proof
    fix c assume "c \<in> set (base64_encode bs)"
    then consider x where "x \<in> set (sextets bs)" "c = b64_char x" | "c \<in> set (padding bs)"
      unfolding base64_encode_def by auto
    then show "\<not> ascii_whitespace c"
    proof cases
      case 1
      then show ?thesis using sx b64_char_not_ws by blast
    next
      case 2
      then have "c = CHR ''=''" using padding_pads by blast
      then show ?thesis by (simp add: not_ws_pad)
    qed
  qed
  then have nows: "filter (\<lambda>c. \<not> ascii_whitespace c) (base64_encode bs) = base64_encode bs"
    by (simp add: filter_id_conv)
  have nopad: "\<forall>c\<in>set ?xs. c \<noteq> CHR ''=''" using sx by (auto simp: b64_char_not_pad)
  have "strip_padding (?xs @ padding bs) = ?xs"
    using nopad padding_cases by (rule strip_padding_padded) (simp add: length_encoded_mod4)
  then have t: "strip_padding (filter (\<lambda>c. \<not> ascii_whitespace c) (base64_encode bs)) = ?xs"
    unfolding nows by (simp add: base64_encode_def)
  have idx: "list_all (\<lambda>c. b64_index c \<noteq> None) ?xs"
    using sx by (auto simp: list_all_iff b64_index_char)
  have mf: "List.map_filter b64_index ?xs = sextets bs"
    using map_filter_index [OF sx, of "[]"] by simp
  have len: "length ?xs mod 4 \<noteq> 1"
    using length_sextets_mod4 [of bs] by simp
  have "atob (base64_encode bs) =
      (if length ?xs mod 4 = 1 \<or> \<not> list_all (\<lambda>c. b64_index c \<noteq> None) ?xs then None
       else Some (sextets_bytes (List.map_filter b64_index ?xs)))"
    by (simp only: atob_def Let_def t)
  also have "\<dots> = Some (sextets_bytes (List.map_filter b64_index ?xs))"
    using len idx by (simp only: if_False simp_thms)
  also have "\<dots> = Some bs"
    by (simp only: mf sextets_bytes_sextets [OF assms])
  finally show ?thesis .
qed

section \<open>JSON text: reading what was written\<close>

lemma hex_val_digit: "d < 16 \<Longrightarrow> hex_val (hex_digit d) = Some d"
  by (auto simp: hex_val_def hex_digit_def)

lemma hex4_value:
  fixes c :: nat
  shows "c div 4096 * 4096 + c div 256 mod 16 * 256 + c div 16 mod 16 * 16 + c mod 16 = c"
proof -
  have a: "c div 16 div 16 = c div 256" "c div 256 div 16 = c div 4096"
    by (simp_all add: div_mult2_eq [symmetric])
  have "c = c div 16 * 16 + c mod 16" by simp
  moreover have "c div 16 = c div 16 div 16 * 16 + c div 16 mod 16" by simp
  moreover have "c div 256 = c div 256 div 16 * 16 + c div 256 mod 16" by simp
  ultimately show ?thesis unfolding a by linarith
qed

lemma parse_string_unicode_escape:
  assumes "c < 65536"
  shows "parse_string (unicode_escape c @ rest) = cons_fst c (parse_string rest)"
proof -
  have d: "c div 4096 < 16" "c div 256 mod 16 < 16" "c div 16 mod 16 < 16" "c mod 16 < 16"
    using assms by (auto simp: less_mult_imp_div_less)
  show ?thesis
    using hex4_value [of c]
    by (simp add: unicode_escape_def hex4_def hex_val_digit d)
qed

lemma parse_string_short_escape:
  "short_escape c = Some e \<Longrightarrow> parse_string (e @ rest) = cons_fst c (parse_string rest)"
  by (auto simp: short_escape_def unescape_def split: if_splits)

lemma parse_string_php_escape:
  assumes "c < 65536"
  shows "parse_string (php_escape c @ rest) = cons_fst c (parse_string rest)"
proof (cases "short_escape c")
  case (Some e)
  then show ?thesis by (simp add: php_escape_def parse_string_short_escape)
next
  case None
  then have c: "c \<noteq> 34" "c \<noteq> 92"
    by (auto simp: short_escape_def split: if_splits)
  show ?thesis
  proof (cases "c = 47")
    case True
    then show ?thesis using None by (simp add: php_escape_def unescape_def)
  next
    case False
    show ?thesis
    proof (cases "c < 32 \<or> 128 \<le> c")
      case True
      then show ?thesis
        using None False parse_string_unicode_escape [OF assms]
        by (simp add: php_escape_def)
    next
      case False
      then show ?thesis using None c \<open>c \<noteq> 47\<close> by (simp add: php_escape_def)
    qed
  qed
qed



lemma short_escape_None: "short_escape c = None \<Longrightarrow> c \<noteq> 34 \<and> c \<noteq> 92"
  by (auto simp: short_escape_def split: if_splits)

lemma parse_string_raw:
  "32 \<le> c \<Longrightarrow> c \<noteq> 34 \<Longrightarrow> c \<noteq> 92 \<Longrightarrow>
     parse_string (c # rest) = cons_fst c (parse_string rest)"
  by simp

lemma parse_string_close: "parse_string (34 # rest) = Some ([], rest)"
  by simp

declare parse_string.simps(2) [simp del]

lemma parse_string_php_quote:
  "\<forall>c\<in>set s. c < 65536 \<Longrightarrow>
     parse_string (concat (map php_escape s) @ 34 # rest) = Some (s, rest)"
proof (induction s)
  case Nil
  then show ?case by (simp add: parse_string_close)
next
  case (Cons c s)
  then show ?case
    using parse_string_php_escape [of c "concat (map php_escape s) @ 34 # rest"]
    by (simp add: cons_fst_def)
qed

lemma parse_string_js_escape:
  "\<forall>c\<in>set s. c < 65536 \<Longrightarrow> parse_string (js_escape_all s @ 34 # rest) = Some (s, rest)"
proof (induction s rule: js_escape_all.induct)
  case 1
  then show ?case by (simp add: parse_string_close)
next
  case (2 c)
  show ?case
  proof (cases "short_escape c")
    case (Some e)
    then show ?thesis
      using parse_string_short_escape [OF Some, of "34 # rest"]
      by (simp add: cons_fst_def parse_string_close)
  next
    case None
    note ne = short_escape_None [OF None]
    show ?thesis
    proof (cases "c < 32 \<or> high_surrogate c \<or> low_surrogate c")
      case True
      then show ?thesis
        using None 2 parse_string_unicode_escape [of c "34 # rest"]
        by (simp add: cons_fst_def parse_string_close)
    next
      case False
      then show ?thesis using None ne by (simp add: cons_fst_def parse_string_raw parse_string_close)
    qed
  qed
next
  case (3 c d rest')
  let ?tail = "js_escape_all (d # rest') @ 34 # rest"
  have bounds: "c < 65536" "\<forall>x\<in>set (d # rest'). x < 65536" "\<forall>x\<in>set rest'. x < 65536"
    using "3.prems" by simp_all
  show ?case
  proof (cases "short_escape c")
    case (Some e)
    have "parse_string ?tail = Some (d # rest', rest)"
      using "3.IH" Some bounds(2) by blast
    then show ?thesis
      using Some parse_string_short_escape [OF Some, of ?tail] by (simp add: cons_fst_def)
  next
    case None
    note ne = short_escape_None [OF None]
    show ?thesis
    proof (cases "high_surrogate c \<and> low_surrogate d")
      case True
      then have raw: "32 \<le> c" "32 \<le> d" "d \<noteq> 34" "d \<noteq> 92"
        by (auto simp: high_surrogate_def low_surrogate_def)
      have "parse_string (js_escape_all rest' @ 34 # rest) = Some (rest', rest)"
        using "3.IH" None True bounds(3) by blast
      then show ?thesis
        using None True ne raw by (simp add: cons_fst_def parse_string_raw)
    next
      case False
      show ?thesis
      proof (cases "c < 32 \<or> high_surrogate c \<or> low_surrogate c")
        case True
        have tail: "parse_string ?tail = Some (d # rest', rest)"
          using "3.IH" None False True bounds(2) by blast
        have "js_escape_all (c # d # rest') = unicode_escape c @ js_escape_all (d # rest')"
          by (simp only: js_escape_all.simps None option.case False True if_False if_True)
        then show ?thesis
          using tail bounds(1) parse_string_unicode_escape [of c ?tail]
          by (simp add: cons_fst_def)
      next
        case nc: False
        have tail: "parse_string ?tail = Some (d # rest', rest)"
          using "3.IH" None False nc bounds(2) by blast
        have "js_escape_all (c # d # rest') = c # js_escape_all (d # rest')"
          by (simp only: js_escape_all.simps None option.case False nc if_False if_True)
        moreover have "32 \<le> c" using nc by simp
        ultimately show ?thesis
          using tail ne by (simp add: cons_fst_def parse_string_raw)
      qed
    qed
  qed
qed

lemma show_digits_fuel: "n < k \<Longrightarrow> n < k' \<Longrightarrow> show_digits k n = show_digits k' n"
proof (induction k n arbitrary: k' rule: show_digits.induct)
  case (1 n)
  then show ?case by simp
next
  case (2 k n)
  then obtain j where k': "k' = Suc j" by (cases k') auto
  show ?case
  proof (cases "n < 10")
    case True
    then show ?thesis by (simp add: k')
  next
    case False
    then have "n div 10 < k" "n div 10 < j"
      using 2(2,3) k' by simp_all (linarith+)?
    then have "show_digits k (n div 10) = show_digits j (n div 10)"
      using 2(1) False by blast
    then show ?thesis using False by (simp add: k')
  qed
qed

lemma show_nat_rec:
  "show_nat n = (if n < 10 then [48 + n] else show_nat (n div 10) @ [48 + n mod 10])"
proof (cases "n < 10")
  case True
  then show ?thesis by (simp add: show_nat_def)
next
  case False
  then have "n div 10 < n" by simp
  then have "show_digits n (n div 10) = show_digits (Suc (n div 10)) (n div 10)"
    by (intro show_digits_fuel) simp_all
  then show ?thesis using False by (simp add: show_nat_def)
qed

lemma show_nat_digits: "\<forall>c\<in>set (show_nat n). is_digit c"
proof (induction n rule: less_induct)
  case (less n)
  show ?case
  proof (cases "n < 10")
    case True
    then show ?thesis by (subst show_nat_rec) (simp add: is_digit_def)
  next
    case False
    then have "\<forall>c\<in>set (show_nat (n div 10)). is_digit c"
      using less [of "n div 10"] by simp
    moreover have "is_digit (48 + n mod 10)"
      by (simp add: is_digit_def)
    ultimately show ?thesis using False by (subst show_nat_rec) simp
  qed
qed

lemma show_nat_nonempty: "show_nat n \<noteq> []"
  by (subst show_nat_rec) simp

lemma show_nat_hd: "0 < n \<Longrightarrow> hd (show_nat n) \<noteq> 48"
proof (induction n rule: less_induct)
  case (less n)
  show ?case
  proof (cases "n < 10")
    case True
    then show ?thesis using less.prems by (subst show_nat_rec) simp
  next
    case False
    then have "0 < n div 10" "n div 10 < n" by simp_all
    then have "hd (show_nat (n div 10)) \<noteq> 48" using less.IH by blast
    then show ?thesis using False show_nat_nonempty [of "n div 10"]
      by (subst show_nat_rec) simp
  qed
qed

lemma digits_value_snoc: "digits_value acc (xs @ [d]) = digits_value acc xs * 10 + (d - 48)"
  by (induction xs arbitrary: acc) simp_all

lemma digits_value_show_nat: "digits_value 0 (show_nat n) = n"
proof (induction n rule: less_induct)
  case (less n)
  show ?case
  proof (cases "n < 10")
    case True
    then show ?thesis by (subst show_nat_rec) simp
  next
    case False
    then have "digits_value 0 (show_nat (n div 10)) = n div 10"
      using less [of "n div 10"] by simp
    then show ?thesis using False by (subst show_nat_rec) (simp add: digits_value_snoc)
  qed
qed

lemma takeWhile_digits:
  "\<forall>c\<in>set ds. is_digit c \<Longrightarrow> number_end rest \<Longrightarrow> takeWhile is_digit (ds @ rest) = ds"
  by (cases rest) (auto simp: number_end_def takeWhile_append2)

lemma dropWhile_digits:
  "\<forall>c\<in>set ds. is_digit c \<Longrightarrow> number_end rest \<Longrightarrow> dropWhile is_digit (ds @ rest) = rest"
  by (cases rest) (auto simp: number_end_def dropWhile_append2)

lemma show_nat_leading: "\<not> (hd (show_nat n) = 48 \<and> 1 < length (show_nat n))"
proof (cases "n = 0")
  case True
  then show ?thesis by (subst (2) show_nat_rec) simp
next
  case False
  then show ?thesis using show_nat_hd [of n] by simp
qed

lemma parse_number_show_nat:
  assumes "number_end rest"
  shows "parse_number (show_nat n @ rest) = Some (JNum (int n), rest)"
proof -
  let ?ds = "show_nat n"
  obtain c cs where ds: "?ds = c # cs"
    using show_nat_nonempty [of n] by (cases ?ds) auto
  have dig: "\<forall>c\<in>set ?ds. is_digit c" by (rule show_nat_digits)
  then have "c \<noteq> 45" using ds by (auto simp: is_digit_def)
  have tw: "takeWhile is_digit (?ds @ rest) = ?ds" "dropWhile is_digit (?ds @ rest) = rest"
    using takeWhile_digits [OF dig assms] dropWhile_digits [OF dig assms] by blast+
  have lead: "\<not> (hd ?ds = 48 \<and> 1 < length ?ds)"
    by (rule show_nat_leading)
  have ne: "\<not> (rest \<noteq> [] \<and> (hd rest = 46 \<or> hd rest = 101 \<or> hd rest = 69))"
    using assms by (auto simp: number_end_def)
  have "parse_number ((c # cs) @ rest) = Some (JNum (int n), rest)"
    unfolding parse_number_def
    using \<open>c \<noteq> 45\<close> tw lead ne show_nat_nonempty [of n] digits_value_show_nat [of n]
    unfolding ds by (simp add: Let_def)
  then show ?thesis unfolding ds .
qed

lemma parse_number_show_int:
  assumes "number_end rest"
  shows "parse_number (show_int i @ rest) = Some (JNum i, rest)"
proof (cases "i < 0")
  case False
  then show ?thesis using parse_number_show_nat [OF assms, of "nat i"] by (simp add: show_int_def)
next
  case True
  let ?ds = "show_nat (nat (- i))"
  have dig: "\<forall>c\<in>set ?ds. is_digit c" by (rule show_nat_digits)
  have tw: "takeWhile is_digit (?ds @ rest) = ?ds" "dropWhile is_digit (?ds @ rest) = rest"
    using takeWhile_digits [OF dig assms] dropWhile_digits [OF dig assms] by blast+
  have lead: "\<not> (hd ?ds = 48 \<and> 1 < length ?ds)"
    by (rule show_nat_leading)
  have ne: "\<not> (rest \<noteq> [] \<and> (hd rest = 46 \<or> hd rest = 101 \<or> hd rest = 69))"
    using assms by (auto simp: number_end_def)
  show ?thesis
    unfolding parse_number_def show_int_def
    using True tw lead ne show_nat_nonempty [of "nat (- i)"] digits_value_show_nat [of "nat (- i)"]
    by (simp add: Let_def)
qed

lemma size_JArr_Cons: "size (JArr (v # vs)) = size v + 1 + size (JArr vs)"
  by simp

lemma size_JObj_Cons: "size (JObj ((k, v) # kvs)) = size v + 2 + size (JObj kvs)"
  by simp

lemma size_JArr_pos: "0 < size (JArr vs)" by simp
lemma size_JObj_pos: "0 < size (JObj kvs)" by simp

lemma number_end_simps [simp]:
  "number_end []" "number_end (93 # r)" "number_end (44 # r)" "number_end (125 # r)"
  by (simp_all add: number_end_def is_digit_def)

lemma ascii_Cons: "ascii (c # cs) = of_char c # ascii cs"
  by (simp add: ascii_def)

lemma ascii_Nil: "ascii [] = []"
  by (simp add: ascii_def)

lemma value_start_skip_ws: "value_start c \<Longrightarrow> skip_ws (c # r) = c # r"
  by (auto simp: value_start_def is_digit_def)

lemma value_start_not_close: "value_start c \<Longrightarrow> c \<noteq> 93 \<and> c \<noteq> 125"
  by (auto simp: value_start_def is_digit_def)

lemma show_int_start: "\<exists>c t. show_int i = c # t \<and> (is_digit c \<or> c = 45)"
proof (cases "i < 0")
  case True
  then show ?thesis by (simp add: show_int_def)
next
  case False
  obtain c t where ct: "show_nat (nat i) = c # t"
    using show_nat_nonempty [of "nat i"] by (cases "show_nat (nat i)") auto
  then have "is_digit c" using show_nat_digits [of "nat i"] by simp
  then show ?thesis using False ct by (simp add: show_int_def)
qed

lemma json_text_start:
  assumes Q: "\<And>s. \<exists>t. q s = 34 # t"
    and "json_value v"
  shows "\<exists>c t. json_text q v = c # t \<and> value_start c"
proof (cases v)
  case JUndefined
  then show ?thesis using assms(2) by simp
next
  case JNull
  then show ?thesis by (simp add: ascii_Cons ascii_Nil value_start_def)
next
  case (JBool b)
  then show ?thesis by (simp add: ascii_Cons ascii_Nil value_start_def)
next
  case (JNum i)
  then show ?thesis using show_int_start [of i] by (auto simp: value_start_def)
next
  case (JStr s)
  then show ?thesis using Q [of s] by (auto simp: value_start_def)
next
  case (JArr vs)
  then show ?thesis by (simp add: value_start_def)
next
  case (JObj kvs)
  then show ?thesis by (simp add: value_start_def)
qed

text \<open>Scalars.\<close>

lemma parse_value_null: "parse_value (Suc n) (ascii ''null'' @ rest) = Some (JNull, rest)"
  by (simp add: ascii_Cons ascii_Nil parse_literal_def)

lemma parse_value_true: "parse_value (Suc n) (ascii ''true'' @ rest) = Some (JBool True, rest)"
  by (simp add: ascii_Cons ascii_Nil parse_literal_def)

lemma parse_value_false: "parse_value (Suc n) (ascii ''false'' @ rest) = Some (JBool False, rest)"
  by (simp add: ascii_Cons ascii_Nil parse_literal_def)

lemma parse_value_number:
  assumes "number_end rest"
  shows "parse_value (Suc n) (show_int i @ rest) = Some (JNum i, rest)"
proof -
  obtain c t where ct: "show_int i = c # t" and c: "is_digit c \<or> c = 45"
    using show_int_start by blast
  have "parse_number ((c # t) @ rest) = Some (JNum i, rest)"
    using parse_number_show_int [OF assms, of i] ct by simp
  then show ?thesis
    using c unfolding ct by (auto simp: is_digit_def)
qed

lemma parse_value_string:
  assumes "q s = 34 # t" and "parse_string (t @ rest) = Some (s, rest)"
  shows "parse_value (Suc n) (q s @ rest) = Some (JStr s, rest)"
  using assms by simp

text \<open>Arrays and objects, one step of the parser at a time.\<close>

lemma parse_value_array_empty: "parse_value (Suc n) (91 # 93 # rest) = Some (JArr [], rest)"
  by simp

lemma parse_value_array:
  assumes "value_start c" and "parse_elements n (c # r) = Some (vs, rest)"
  shows "parse_value (Suc n) (91 # c # r) = Some (JArr vs, rest)"
proof -
  have 1: "skip_ws (91 # c # r) = 91 # c # r" by simp
  have 2: "skip_ws (c # r) = c # r" using assms(1) by (rule value_start_skip_ws)
  show ?thesis
    using value_start_not_close [OF assms(1)] assms(2)
    by (simp add: 1 2 del: skip_ws.simps)
qed

lemma parse_value_object:
  "parse_members n (34 # r) = Some (kvs, rest) \<Longrightarrow>
     parse_value (Suc n) (123 # 34 # r) = Some (JObj kvs, rest)"
  by simp

lemma parse_elements_last:
  "parse_value n s = Some (v, 93 # rest) \<Longrightarrow> parse_elements (Suc n) s = Some ([v], rest)"
  by simp

lemma parse_elements_more:
  "parse_value n s = Some (v, 44 # r) \<Longrightarrow> parse_elements n r = Some (vs, rest) \<Longrightarrow>
     parse_elements (Suc n) s = Some (v # vs, rest)"
  by simp

lemma parse_members_last:
  "parse_string t = Some (k, 58 # r) \<Longrightarrow> parse_value n r = Some (v, 125 # rest) \<Longrightarrow>
     parse_members (Suc n) (34 # t) = Some ([(k, v)], rest)"
  by simp

lemma parse_members_more:
  "parse_string t = Some (k, 58 # r) \<Longrightarrow> parse_value n r = Some (v, 44 # r') \<Longrightarrow>
     parse_members n r' = Some (kvs, rest) \<Longrightarrow>
     parse_members (Suc n) (34 # t) = Some ((k, v) # kvs, rest)"
  by simp

lemma json_value_defined: "json_value v \<Longrightarrow> v \<noteq> JUndefined"
  by auto

lemma json_members_False:
  "json_properties kvs \<Longrightarrow> kvs \<noteq> [] \<Longrightarrow>
     json_members q False kvs = 44 # json_members q True kvs"
  by (cases kvs) (auto dest: json_value_defined)

lemma parse_elements_text:
  assumes P: "\<And>v n rest. v \<in> set vs \<Longrightarrow> size v < n \<Longrightarrow> number_end rest \<Longrightarrow>
                parse_value n (json_text q v @ rest) = Some (v, rest)"
    and "vs \<noteq> []" and "size (JArr vs) \<le> n"
  shows "parse_elements n (json_elements q vs @ 93 # rest) = Some (vs, rest)"
  using assms(2,1,3)
proof (induction vs arbitrary: n rule: list_nonempty_induct)
  case (single v)
  then obtain m where n: "n = Suc m" and m: "size v < m"
    by (cases n) auto
  have "parse_value m (json_text q v @ 93 # rest) = Some (v, 93 # rest)"
    using single(1) [of v m "93 # rest"] m by simp
  then show ?case unfolding n by (simp add: parse_elements_last)
next
  case (cons v vs)
  then obtain w ws where vs: "vs = w # ws" by (cases vs) auto
  from cons(4) obtain m where n: "n = Suc m" and m: "size v < m" "size (JArr vs) \<le> m"
    by (cases n) auto
  have v: "parse_value m (json_text q v @ 44 # json_elements q vs @ 93 # rest)
      = Some (v, 44 # json_elements q vs @ 93 # rest)"
    using cons(3) [of v m "44 # json_elements q vs @ 93 # rest"] m by simp
  have "parse_elements m (json_elements q vs @ 93 # rest) = Some (vs, rest)"
    using cons(2) [of m] cons(3) m by simp
  with v show ?case unfolding n vs
    by (simp add: parse_elements_more del: parse_elements.simps parse_value.simps)
qed

lemma parse_members_text:
  assumes Q: "\<And>s rest. \<forall>c\<in>set s. c < 65536 \<Longrightarrow>
                \<exists>t. q s = 34 # t \<and> parse_string (t @ rest) = Some (s, rest)"
    and P: "\<And>k v n rest. (k, v) \<in> set kvs \<Longrightarrow> size v < n \<Longrightarrow> number_end rest \<Longrightarrow>
                parse_value n (json_text q v @ rest) = Some (v, rest)"
    and "kvs \<noteq> []" and "json_properties kvs" and "size (JObj kvs) \<le> n"
  shows "parse_members n (json_members q True kvs @ 125 # rest) = Some (kvs, rest)"
  using assms(3,2,4,5)
proof (induction kvs arbitrary: n rule: list_nonempty_induct)
  case (single kv)
  obtain k v where kv: "kv = (k, v)" by (cases kv)
  from single(3) obtain m where n: "n = Suc m" and m: "size v < m"
    unfolding kv by (cases n) auto
  have k: "\<forall>c\<in>set k. c < 65536" and v: "v \<noteq> JUndefined"
    using single(2) unfolding kv by (auto simp: list_all_iff)
  obtain t where t: "q k = 34 # t"
    "parse_string (t @ 58 # json_text q v @ 125 # rest) = Some (k, 58 # json_text q v @ 125 # rest)"
    using Q [OF k] by blast
  have "parse_value m (json_text q v @ 125 # rest) = Some (v, 125 # rest)"
    using single(1) [of k v m "125 # rest"] m kv by simp
  with t show ?case unfolding n kv using v
    by (simp add: parse_members_last del: parse_members.simps parse_value.simps)
next
  case (cons kv kvs)
  obtain k v where kv: "kv = (k, v)" by (cases kv)
  from cons(5) obtain m where n: "n = Suc m" and m: "size v < m" "size (JObj kvs) \<le> m"
    unfolding kv by (cases n) auto
  have k: "\<forall>c\<in>set k. c < 65536" and v: "v \<noteq> JUndefined" and props: "json_properties kvs"
    using cons(4) unfolding kv by (auto simp: list_all_iff)
  let ?more = "json_members q True kvs @ 125 # rest"
  obtain t where t: "q k = 34 # t"
    "parse_string (t @ 58 # json_text q v @ 44 # ?more) = Some (k, 58 # json_text q v @ 44 # ?more)"
    using Q [OF k] by blast
  have pv: "parse_value m (json_text q v @ 44 # ?more) = Some (v, 44 # ?more)"
    using cons(3) [of k v m "44 # ?more"] m kv by simp
  have pm: "parse_members m ?more = Some (kvs, rest)"
  proof (rule cons.IH)
    show "json_properties kvs" by (rule props)
    show "size (JObj kvs) \<le> m" by (rule m(2))
  next
    fix k' v' n' rest'
    assume "(k', v') \<in> set kvs" "size v' < n'" "number_end rest'"
    then show "parse_value n' (json_text q v' @ rest') = Some (v', rest')"
      using cons.prems(1) [of k' v' n' rest'] by simp
  qed
  have "json_members q True ((k, v) # kvs) @ 125 # rest = 34 # t @ 58 # json_text q v @ 44 # ?more"
    using v t(1) json_members_False [OF props cons(1), of q] by simp
  then show ?case unfolding n kv
    using parse_members_more [OF t(2) pv pm] by simp
qed

lemma json_values_set: "json_values vs \<Longrightarrow> v \<in> set vs \<Longrightarrow> json_value v"
  by (induction vs) auto

lemma json_properties_set: "json_properties kvs \<Longrightarrow> (k, v) \<in> set kvs \<Longrightarrow> json_value v"
  by (induction kvs) auto

lemma json_elements_start:
  assumes Q: "\<And>s. \<exists>t. q s = 34 # t" and "vs \<noteq> []" and "json_values vs"
  shows "\<exists>c t. json_elements q vs = c # t \<and> value_start c"
proof -
  obtain v ws where vs: "vs = v # ws" using assms(2) by (cases vs) auto
  then have "json_value v" using assms(3) by simp
  from json_text_start [of q, OF Q this] obtain c t where "json_text q v = c # t" "value_start c"
    by blast
  then show ?thesis unfolding vs by (cases ws) auto
qed

lemma json_members_start:
  assumes Q: "\<And>s. \<exists>t. q s = 34 # t" and "kvs \<noteq> []" and "json_properties kvs"
  shows "\<exists>t. json_members q True kvs = 34 # t"
proof -
  obtain k v ws where kvs: "kvs = (k, v) # ws" using assms(2) by (cases kvs) auto
  then have "v \<noteq> JUndefined" using assms(3) by auto
  then show ?thesis unfolding kvs using Q [of k] by auto
qed

lemma parse_json_text:
  assumes Q: "\<And>s rest. \<forall>c\<in>set s. c < 65536 \<Longrightarrow>
                \<exists>t. q s = 34 # t \<and> parse_string (t @ rest) = Some (s, rest)"
    and Q': "\<And>s. \<exists>t. q s = 34 # t"
  shows "json_value v \<Longrightarrow> size v < n \<Longrightarrow> number_end rest \<Longrightarrow>
           parse_value n (json_text q v @ rest) = Some (v, rest)"
proof (induction v arbitrary: n rest)
  case JUndefined
  then show ?case by simp
next
  case JNull
  then obtain m where "n = Suc m" by (cases n) auto
  then show ?case by (simp add: parse_value_null del: parse_value.simps)
next
  case (JBool b)
  then obtain m where "n = Suc m" by (cases n) auto
  then show ?case by (simp add: parse_value_true parse_value_false del: parse_value.simps)
next
  case (JNum i)
  then obtain m where "n = Suc m" by (cases n) auto
  then show ?case using JNum by (simp add: parse_value_number del: parse_value.simps)
next
  case (JStr s)
  then obtain m where n: "n = Suc m" by (cases n) auto
  have "\<forall>c\<in>set s. c < 65536" using JStr by (simp add: list_all_iff)
  from Q [OF this, of rest] obtain t where "q s = 34 # t" "parse_string (t @ rest) = Some (s, rest)"
    by blast
  then show ?case unfolding n using parse_value_string [of q s t rest m] by simp
next
  case (JArr vs)
  then obtain m where n: "n = Suc m" and m: "size (JArr vs) \<le> m" by (cases n) auto
  show ?case
  proof (cases "vs = []")
    case True
    then show ?thesis unfolding n by (simp add: parse_value_array_empty del: parse_value.simps)
  next
    case False
    have vals: "json_values vs" using JArr.prems by simp
    have "parse_elements m (json_elements q vs @ 93 # rest) = Some (vs, rest)"
    proof (rule parse_elements_text [OF _ False m])
      fix v n' rest'
      assume "v \<in> set vs" "size v < n'" "number_end rest'"
      then show "parse_value n' (json_text q v @ rest') = Some (v, rest')"
        using JArr.IH json_values_set [OF vals] by blast
    qed
    moreover obtain c t where "json_elements q vs = c # t" "value_start c"
      using json_elements_start [of q, OF Q' False vals] by blast
    ultimately show ?thesis unfolding n
      using parse_value_array [of c m "t @ 93 # rest" vs rest] by simp
  qed
next
  case (JObj kvs)
  then obtain m where n: "n = Suc m" and m: "size (JObj kvs) \<le> m" by (cases n) auto
  have props: "json_properties kvs" and ne: "kvs \<noteq> []"
    using JObj.prems by (auto simp: php_list_like_def)
  have "parse_members m (json_members q True kvs @ 125 # rest) = Some (kvs, rest)"
  proof (rule parse_members_text [OF Q _ ne props m])
    fix k v n' rest'
    assume kv: "(k, v) \<in> set kvs" and "size v < n'" "number_end rest'"
    moreover have "json_value v" using json_properties_set [OF props kv] .
    moreover have "v \<in> Basic_BNFs.snds (k, v)" by simp
    ultimately show "parse_value n' (json_text q v @ rest') = Some (v, rest')"
      using JObj.IH by blast
  qed
  moreover obtain t where "json_members q True kvs = 34 # t"
    using json_members_start [of q, OF Q' ne props] by blast
  ultimately show ?case unfolding n
    using parse_value_object [of m "t @ 125 # rest" kvs rest] by simp
qed

lemma length_show_int: "0 < length (show_int i)"
  using show_int_start [of i] by auto

lemma size_le_length:
  assumes Q': "\<And>s. \<exists>t. q s = 34 # t"
  shows "json_value v \<Longrightarrow> size v \<le> length (json_text q v)"
proof (induction v)
  case (JArr vs)
  have "json_values vs \<Longrightarrow> (\<And>v. v \<in> set vs \<Longrightarrow> json_value v \<Longrightarrow> size v \<le> length (json_text q v))
      \<Longrightarrow> size (JArr vs) \<le> length (json_elements q vs) + 2"
  proof (induction vs rule: induct_list012)
    case 1
    then show ?case by simp
  next
    case (2 v)
    then show ?case by fastforce
  next
    case (3 v w vs)
    have "size v \<le> length (json_text q v)" using 3(3,4) by simp
    moreover have "size (JArr (w # vs)) \<le> length (json_elements q (w # vs)) + 2"
      using 3(2,3,4) by simp
    ultimately show ?case by simp
  qed
  then show ?case using JArr by simp
next
  case (JObj kvs)
  have bound: "json_properties kvs \<Longrightarrow>
      (\<And>k v. (k, v) \<in> set kvs \<Longrightarrow> json_value v \<Longrightarrow> size v \<le> length (json_text q v))
      \<Longrightarrow> size (JObj kvs) \<le> length (json_members q first kvs) + 1" for first
  proof (induction kvs arbitrary: first)
    case Nil
    then show ?case by simp
  next
    case (Cons kv kvs)
    obtain k v where kv: "kv = (k, v)" by (cases kv)
    have v: "v \<noteq> JUndefined" "json_value v" "json_properties kvs"
      using Cons.prems(1) unfolding kv by auto
    have "size v \<le> length (json_text q v)" using Cons.prems(2) [of k v] v kv by simp
    moreover have "size (JObj kvs) \<le> length (json_members q False kvs) + 1"
    proof (rule Cons.IH)
      show "json_properties kvs" by (rule v(3))
    next
      fix k' v'
      assume "(k', v') \<in> set kvs" "json_value v'"
      then show "size v' \<le> length (json_text q v')"
        using Cons.prems(2) [of k' v'] by simp
    qed
    moreover obtain t where "q k = 34 # t" using Q' by blast
    ultimately show ?case unfolding kv using v by simp
  qed
  have props: "json_properties kvs" using JObj.prems by simp
  have "size (JObj kvs) \<le> length (json_members q True kvs) + 1"
  proof (rule bound [OF props])
    fix k v
    assume "(k, v) \<in> set kvs" "json_value v"
    moreover have "v \<in> Basic_BNFs.snds (k, v)" by simp
    ultimately show "size v \<le> length (json_text q v)"
      using JObj.IH by blast
  qed
  then show ?case by simp
qed simp_all

lemma php_quote_parses:
  "\<forall>c\<in>set s. c < 65536 \<Longrightarrow>
     \<exists>t. php_quote s = 34 # t \<and> parse_string (t @ rest) = Some (s, rest)"
  using parse_string_php_quote [of s rest] by (simp add: php_quote_def)

lemma js_quote_parses:
  "\<forall>c\<in>set s. c < 65536 \<Longrightarrow>
     \<exists>t. js_quote s = 34 # t \<and> parse_string (t @ rest) = Some (s, rest)"
  using parse_string_js_escape [of s rest] by (simp add: js_quote_def)

lemma json_parse_text:
  assumes Q: "\<And>s rest. \<forall>c\<in>set s. c < 65536 \<Longrightarrow>
                \<exists>t. q s = 34 # t \<and> parse_string (t @ rest) = Some (s, rest)"
    and Q': "\<And>s. \<exists>t. q s = 34 # t"
    and v: "json_value v"
  shows "json_parse (json_text q v) = Some v"
proof -
  have size: "size v < Suc (length (json_text q v))"
    using size_le_length [of q, OF Q' v] by simp
  have "parse_value (Suc (length (json_text q v))) (json_text q v @ []) = Some (v, [])"
    by (rule parse_json_text [of q, OF Q Q' v size]) simp_all
  then show ?thesis by (simp add: json_parse_def del: parse_value.simps)
qed

lemma json_parse_json_encode: "json_value v \<Longrightarrow> json_parse (json_encode v) = Some v"
  unfolding json_encode_def
  by (rule json_parse_text) (auto simp: php_quote_parses, simp add: php_quote_def)

lemma json_parse_stringify: "json_value v \<Longrightarrow> json_parse (json_text js_quote v) = Some v"
  by (rule json_parse_text) (auto simp: js_quote_parses, simp add: js_quote_def)

lemma JSON_stringify_value: "json_value v \<Longrightarrow> JSON_stringify v = Some (json_text js_quote v)"
  by (auto simp: JSON_stringify_def)

section \<open>Facts about the worked example\<close>

lemma ascii_eq_iff [simp]: "ascii s = ascii t \<longleftrightarrow> s = t"
  by (simp add: ascii_def inj_map_eq_map inj_on_def)

lemma show_nat_0: "show_nat 0 = [48]"
  by (simp add: show_nat_def)

lemma not_list_like: "k \<noteq> [48] \<Longrightarrow> \<not> php_list_like ((k, v) # kvs)"
  by (simp add: php_list_like_def upt_conv_Cons show_nat_0 del: upt_Suc)

lemma example_body_value: "json_value example_body"
  by (simp add: example_body_def example_payload_def example_requirements_def
      example_authorization_def example_buyer_def example_treasury_def not_list_like ascii_def)

lemma example_parsed:
  "JSON_parse example_env (concat (rq_chunks example_request)) = Some example_body"
  by (simp add: example_env_def example_request_def post_def json_parse_json_encode example_body_value)

lemma show_nat_small: "n < 10 \<Longrightarrow> show_nat n = [48 + n]"
  by (subst show_nat_rec) simp

lemma example_length: "length (json_encode example_body) \<le> 1048576"
  by (simp add: json_encode_def example_body_def example_payload_def example_requirements_def
      example_authorization_def example_buyer_def example_treasury_def ascii_def
      php_quote_def php_escape_def short_escape_def unicode_escape_def hex4_def hex_digit_def
      show_int_def show_nat_small)

lemma parseBody_post:
  "length body \<le> 1048576 \<Longrightarrow> JSON_parse env body = Some v \<Longrightarrow>
     parseBody env (post pathname key body) = (Next v, [ReadBody])"
  by (simp add: parseBody_def post_def and_then_def emit_def continue_def)

lemma example_parseBody: "parseBody example_env example_request = (Next example_body, [ReadBody])"
  unfolding example_request_def
  by (rule parseBody_post [OF example_length])
     (simp add: example_env_def json_parse_json_encode example_body_value)

lemma example_checks:
  "verifyTransfer_checks example_env example_payload example_requirements = (Return 200 is_valid, 
     [BalanceOfCall (JStr (ascii ''0xaf37e8b6c9ed7f6318979f56fc287d76c30847ff'')) (JStr example_buyer)])"
  by (simp add: verifyTransfer_checks_def example_env_def example_payload_def
      example_requirements_def example_authorization_def example_buyer_def example_treasury_def
      and_then_def attempt_def call_def emit_def sendJson_def js_get_def js_get_opt_def
      js_destructure_def toLowerCase_def CONFIG_assets_def CONFIG_network_def CONFIG_chainId_def
      example_verifyTypedData_def decimal_BigInt_def decimal_Number_def ascii_lower_def
      is_digit_def Let_def ascii_def)

lemma example_authorized: "\<not> unauthorized example_env (rq_headers example_request ''x-api-key'')"
  by (simp add: unauthorized_def example_request_def post_def example_env_def)

lemma example_body_props:
  "js_prop example_body (ascii ''payload'') = example_payload"
  "js_prop example_body (ascii ''requirements'') = example_requirements"
  "\<not> nullish example_body"
  by (simp_all add: example_body_def)

lemma example_verify:
  "handleVerifyTransfer example_env example_request =
     (Return 200 is_valid,
      [ReadBody,
       BalanceOfCall (JStr (ascii ''0xaf37e8b6c9ed7f6318979f56fc287d76c30847ff'')) (JStr example_buyer)])"
  unfolding handleVerifyTransfer_def
  by (simp add: example_authorized example_parseBody example_body_props example_checks
      try_catch_def and_then_def attempt_def js_destructure_def Let_def)

section \<open>What the verify handlers can answer\<close>

lemma vt_not_valid: "verdict_or_throw (sendJson 200 (not_valid r))"
  by (simp add: verdict_or_throw_def sendJson_def not_valid_def)

lemma vt_is_valid: "verdict_or_throw (sendJson 200 is_valid)"
  by (simp add: verdict_or_throw_def sendJson_def is_valid_def)

lemma vt_attempt: "(\<And>x. verdict_or_throw (f x)) \<Longrightarrow> verdict_or_throw (and_then (attempt r) f)"
  by (cases r) (auto simp: verdict_or_throw_def and_then_def attempt_def split: prod.splits)

lemma vt_call: "(\<And>x. verdict_or_throw (f x)) \<Longrightarrow> verdict_or_throw (and_then (call r) f)"
  by (cases r) (auto simp: verdict_or_throw_def and_then_def call_def split: prod.splits)

lemma vt_emit: "verdict_or_throw (f ()) \<Longrightarrow> verdict_or_throw (and_then (emit e) f)"
  by (auto simp: verdict_or_throw_def and_then_def emit_def split: prod.splits)

lemma vt_if: "(c \<Longrightarrow> verdict_or_throw a) \<Longrightarrow> (\<not> c \<Longrightarrow> verdict_or_throw b) \<Longrightarrow> verdict_or_throw (if c then a else b)"
  by simp

lemma vt_case_option:
  "verdict_or_throw a \<Longrightarrow> (\<And>x. verdict_or_throw (g x)) \<Longrightarrow>
     verdict_or_throw (case opt of None \<Rightarrow> a | Some x \<Rightarrow> g x)"
  by (cases opt) auto

lemma vt_case_option':
  "(\<And>x. verdict_or_throw (g x)) \<Longrightarrow> verdict_or_throw a \<Longrightarrow> 
     verdict_or_throw (case opt of Some x \<Rightarrow> g x | None \<Rightarrow> a)"
  by (cases opt) auto

lemmas vt_rules = vt_not_valid vt_is_valid vt_attempt vt_call vt_emit vt_if vt_case_option

lemma verifyTransfer_checks_verdict: "verdict_or_throw (verifyTransfer_checks env payload requirements)"
  unfolding verifyTransfer_checks_def Let_def
  by (intro vt_rules)

lemma verify_checks_verdict: "verdict_or_throw (verify_checks env payload requirements)"
  unfolding verify_checks_def Let_def
  by (intro vt_rules)

lemma verdict_not_valid: "verdict_body (not_valid r)"
  by (simp add: not_valid_def)

lemma try_catch_verdict:
  assumes "verdict_or_throw m"
  shows "\<exists>data evs. try_catch m (\<lambda>e. sendJson 200 (not_valid (h e))) = (Return 200 data, evs)
           \<and> verdict_body data"
proof (cases m)
  case (Pair s evs)
  then show ?thesis using assms
    by (cases s) (auto simp: verdict_or_throw_def try_catch_def sendJson_def verdict_not_valid)
qed

lemma parseBody_events: "snd (parseBody env req) = [ReadBody]"
  by (auto simp: parseBody_def and_then_def emit_def attempt_def continue_def split: option.splits)

lemma parseBody_Throw_400:
  assumes "parseBody env req = (Throw e, evs)"
  shows "and_then (try_catch (parseBody env req) (\<lambda>_. sendJson 400 d)) f = (Return 400 d, [ReadBody])"
proof -
  have "evs = [ReadBody]" using parseBody_events [of env req] assms by simp
  then show ?thesis using assms by (simp add: try_catch_def and_then_def sendJson_def)
qed

lemma parseBody_Next_then:
  assumes "parseBody env req = (Next body, evs)"
  shows "and_then (try_catch (parseBody env req) h) f = (fst (f body), ReadBody # snd (f body))"
proof -
  have "evs = [ReadBody]" using parseBody_events [of env req] assms by simp
  then show ?thesis using assms by (simp add: try_catch_def and_then_def split: prod.splits)
qed

section \<open>Texts and headers\<close>

lemma hex_digit_ascii: "n < 16 \<Longrightarrow> hex_digit n < 128"
  by (simp add: hex_digit_def)

lemma unicode_escape_ascii:
  assumes "c0 < 65536"
  shows "\<forall>c \<in> set (unicode_escape c0). c < 128"
proof -
  have "c0 div 4096 < 16" using assms by simp
  then show ?thesis by (simp add: unicode_escape_def hex4_def hex_digit_ascii)
qed

lemma short_escape_ascii: "short_escape c0 = Some e \<Longrightarrow> \<forall>c \<in> set e. c < 128"
  by (auto simp: short_escape_def split: if_splits)

lemma php_escape_ascii:
  assumes "c0 < 65536"
  shows "\<forall>c \<in> set (php_escape c0). c < 128"
proof (cases "short_escape c0")
  case None
  then show ?thesis using unicode_escape_ascii [OF assms] by (simp add: php_escape_def)
next
  case (Some e)
  then show ?thesis using short_escape_ascii [OF Some] by (simp add: php_escape_def)
qed

lemma php_quote_ascii: "list_all (\<lambda>c. c < 65536) s \<Longrightarrow> \<forall>c \<in> set (php_quote s). c < 128"
  using php_escape_ascii by (auto simp: php_quote_def list_all_iff)

lemma js_escape_one_ascii:
  assumes "c0 < 128"
  shows "\<forall>c \<in> set (case short_escape c0 of Some e \<Rightarrow> e | None \<Rightarrow> if c0 < 32 then unicode_escape c0 else [c0]). c < 128"
proof (cases "short_escape c0")
  case None
  have "c0 < 65536" using assms by simp
  then show ?thesis using unicode_escape_ascii [of c0] None assms by simp
next
  case (Some e)
  then show ?thesis using short_escape_ascii [OF Some] by simp
qed

lemma not_surrogate: "c < 128 \<Longrightarrow> \<not> high_surrogate c \<and> \<not> low_surrogate c"
  by (simp add: high_surrogate_def low_surrogate_def)

lemma js_escape_all_Cons:
  assumes "c0 < 128"
  shows "js_escape_all (c0 # s) =
           (case short_escape c0 of Some e \<Rightarrow> e | None \<Rightarrow> if c0 < 32 then unicode_escape c0 else [c0])
           @ js_escape_all s"
  using not_surrogate [OF assms] by (cases s) (simp_all split: option.splits)

lemma js_escape_all_ascii: "list_all (\<lambda>c. c < 128) s \<Longrightarrow> \<forall>c \<in> set (js_escape_all s). c < 128"
proof (induction s)
  case Nil
  then show ?case by simp
next
  case (Cons c0 s)
  then have c0: "c0 < 128" and rest: "\<forall>c \<in> set (js_escape_all s). c < 128" by simp_all
  show ?case unfolding js_escape_all_Cons [OF c0] using js_escape_one_ascii [OF c0] rest
    by (simp only: set_append ball_Un)
qed

lemma js_quote_ascii: "list_all (\<lambda>c. c < 128) s \<Longrightarrow> \<forall>c \<in> set (js_quote s). c < 128"
  using js_escape_all_ascii by (auto simp: js_quote_def)

lemma show_digits_ascii: "\<forall>c \<in> set (show_digits k n). c < 128"
  by (induction k n rule: show_digits.induct) auto

lemma show_int_ascii: "\<forall>c \<in> set (show_int i). c < 128"
  using show_digits_ascii by (auto simp: show_int_def show_nat_def)


lemma json_elements_ascii:
  assumes "\<And>v. v \<in> set vs \<Longrightarrow> \<forall>c \<in> set (json_text q v). c < (128 :: nat)"
  shows "\<forall>c \<in> set (json_elements q vs). c < 128"
  using assms
proof (induction vs rule: induct_list012)
  case 1
  then show ?case by simp
next
  case (2 v)
  then show ?case by simp
next
  case (3 v w vs)
  have here: "\<forall>c \<in> set (json_text q v). c < 128" using "3.prems" [of v] by simp
  have rest: "\<forall>c \<in> set (json_elements q (w # vs)). c < 128"
  proof (rule "3.IH"(2))
    fix x assume "x \<in> set (w # vs)"
    then have "x \<in> set (v # w # vs)" by simp
    then show "\<forall>c \<in> set (json_text q x). c < 128" by (rule "3.prems")
  qed
  show ?case using here rest by (simp add: ball_Un)
qed

lemma json_members_ascii:
  assumes "\<And>k v. (k, v) \<in> set kvs \<Longrightarrow> \<forall>c \<in> set (q k @ json_text q v). c < (128 :: nat)"
  shows "\<forall>c \<in> set (json_members q first kvs). c < 128"
  using assms
proof (induction kvs arbitrary: first)
  case Nil
  then show ?case by simp
next
  case (Cons kv kvs)
  obtain k v where kv: "kv = (k, v)" by (cases kv)
  have here: "\<forall>c \<in> set (q k @ json_text q v). c < 128" using Cons.prems [of k v] kv by simp
  have rest: "\<forall>c \<in> set (json_members q b kvs). c < 128" for b
    by (rule Cons.IH) (use Cons.prems in auto)
  show ?case unfolding kv using here rest by auto
qed

lemma json_properties_key: "json_properties kvs \<Longrightarrow> (k, v) \<in> set kvs \<Longrightarrow> list_all (\<lambda>c. c < 65536) k"
  by (induction kvs) auto

lemma json_encode_ascii: "json_value v \<Longrightarrow> \<forall>c \<in> set (json_encode v). c < 128"
  unfolding json_encode_def
proof (induction v)
  case (JNum n)
  then show ?case using show_int_ascii by simp
next
  case (JStr s)
  then show ?case using php_quote_ascii by simp
next
  case (JArr vs)
  have "\<forall>c \<in> set (json_elements php_quote vs). c < 128"
    by (rule json_elements_ascii) (use JArr json_values_set in auto)
  then show ?case by auto
next
  case (JObj kvs)
  have props: "json_properties kvs" using JObj.prems by simp
  have "\<forall>c \<in> set (json_members php_quote True kvs). c < 128"
  proof (rule json_members_ascii)
    fix k v assume kv: "(k, v) \<in> set kvs"
    have "json_value v" using json_properties_set [OF props kv] .
    moreover have "v \<in> Basic_BNFs.snds (k, v)" by simp
    ultimately have "\<forall>c \<in> set (json_text php_quote v). c < 128" using JObj.IH kv by blast
    moreover have "\<forall>c \<in> set (php_quote k). c < 128"
      using php_quote_ascii json_properties_key [OF props kv] by blast
    ultimately show "\<forall>c \<in> set (php_quote k @ json_text php_quote v). c < 128" by auto
  qed
  then show ?case by auto
qed (auto simp: ascii_def)

lemma ascii_values_set: "ascii_values vs \<Longrightarrow> v \<in> set vs \<Longrightarrow> ascii_value v"
  by (induction vs) auto

lemma ascii_properties_set:
  "ascii_properties kvs \<Longrightarrow> (k, v) \<in> set kvs \<Longrightarrow> ascii_value v \<and> list_all (\<lambda>c. c < 128) k"
  by (induction kvs) auto

lemma stringify_ascii: "ascii_value v \<Longrightarrow> \<forall>c \<in> set (json_text js_quote v). c < 128"
proof (induction v)
  case (JNum n)
  then show ?case using show_int_ascii by simp
next
  case (JStr s)
  then show ?case using js_quote_ascii by simp
next
  case (JArr vs)
  have "\<forall>c \<in> set (json_elements js_quote vs). c < 128"
    by (rule json_elements_ascii) (use JArr ascii_values_set in auto)
  then show ?case by auto
next
  case (JObj kvs)
  have props: "ascii_properties kvs" using JObj.prems by simp
  have "\<forall>c \<in> set (json_members js_quote True kvs). c < 128"
  proof (rule json_members_ascii)
    fix k v assume kv: "(k, v) \<in> set kvs"
    have "ascii_value v" using ascii_properties_set [OF props kv] by simp
    moreover have "v \<in> Basic_BNFs.snds (k, v)" by simp
    ultimately have "\<forall>c \<in> set (json_text js_quote v). c < 128" using JObj.IH kv by blast
    moreover have "\<forall>c \<in> set (js_quote k). c < 128"
      using js_quote_ascii ascii_properties_set [OF props kv] by blast
    ultimately show "\<forall>c \<in> set (js_quote k @ json_text js_quote v). c < 128" by auto
  qed
  then show ?case by auto
qed (auto simp: ascii_def)

lemma php_assoc_list_same:
  "(\<And>v. v \<in> set vs \<Longrightarrow> php_assoc v = v) \<Longrightarrow> php_assoc_list vs = vs"
  by (induction vs) auto

lemma php_assoc_members_same:
  "\<forall>(k, v) \<in> set kvs. php_assoc v = v \<Longrightarrow> php_assoc_members kvs = kvs"
  by (induction kvs) auto

lemma php_assoc_value: "json_value v \<Longrightarrow> php_assoc v = v"
proof (induction v)
  case (JArr vs)
  have "php_assoc_list vs = vs"
    by (rule php_assoc_list_same) (use JArr json_values_set in auto)
  then show ?case by simp
next
  case (JObj kvs)
  have props: "json_properties kvs" using JObj.prems by simp
  have "php_assoc_members kvs = kvs"
  proof (rule php_assoc_members_same, clarify)
    fix k v assume kv: "(k, v) \<in> set kvs"
    have "json_value v" using json_properties_set [OF props kv] .
    moreover have "v \<in> Basic_BNFs.snds (k, v)" by simp
    ultimately show "php_assoc v = v" using JObj.IH kv by blast
  qed
  then show ?case using JObj.prems by simp
qed auto

lemma parse_header_json_encode:
  assumes "json_value v"
  shows "parse_header (base64_encode (json_encode v)) = Inr v"
proof -
  have "\<forall>b \<in> set (json_encode v). b < 256" using json_encode_ascii [OF assms] by auto
  then show ?thesis
    by (simp add: parse_header_def atob_base64_encode json_parse_json_encode [OF assms])
qed

lemma base64_decode_json_encode:
  assumes "json_value v"
  shows "base64_decode (base64_encode (json_encode v)) = json_encode v"
proof -
  have "\<forall>b \<in> set (json_encode v). b < 256" using json_encode_ascii [OF assms] by auto
  then show ?thesis by (rule base64_decode_encode)
qed

lemma json_decode_stringify:
  assumes "json_value v" and "ascii_value v"
  shows "json_decode (json_text js_quote v) = v"
  using stringify_ascii [OF assms(2)]
  by (simp add: json_decode_def list_all_iff json_parse_stringify [OF assms(1)]
      php_assoc_value [OF assms(1)])

lemma json_decode_json_encode:
  assumes "json_value v"
  shows "json_decode (json_encode v) = v"
  using json_encode_ascii [OF assms]
  by (simp add: json_decode_def list_all_iff json_parse_json_encode [OF assms]
      php_assoc_value [OF assms])

lemma encodePayload_decodes:
  assumes "json_value v" and "ascii_value v"
  shows "encodePayload v = Some (base64_encode (json_text js_quote v))"
    and "json_decode (base64_decode (base64_encode (json_text js_quote v))) = v"
proof -
  have small: "\<forall>c \<in> set (json_text js_quote v). c < 128" using stringify_ascii [OF assms(2)] .
  then have bytes: "\<forall>c \<in> set (json_text js_quote v). c < 256" by auto
  have "list_all (\<lambda>c. c \<le> 255) (json_text js_quote v)" using small by (auto simp: list_all_iff)
  then show "encodePayload v = Some (base64_encode (json_text js_quote v))"
    by (simp add: encodePayload_def JSON_stringify_value [OF assms(1)] btoa_def)
  show "json_decode (base64_decode (base64_encode (json_text js_quote v))) = v"
    by (simp add: base64_decode_encode [OF bytes] json_decode_stringify [OF assms])
qed

lemma base64_encode_nonempty: "bytes \<noteq> [] \<Longrightarrow> base64_encode bytes \<noteq> []"
  by (cases bytes rule: sextets.cases) (simp_all add: base64_encode_def)

lemma json_encode_list: "json_encode (JArr [v]) = 91 # json_encode v @ [93]"
  by (simp add: json_encode_def)

lemma json_value_list: "json_value v \<Longrightarrow> json_value (JArr [v])"
  by simp

lemma example_requirements_value: "json_value example_requirements"
  by (simp add: example_requirements_def example_treasury_def not_list_like ascii_def)

lemma example_payload_value: "json_value example_payload"
  by (simp add: example_payload_def example_authorization_def example_buyer_def
      example_treasury_def not_list_like ascii_def)

lemma example_payload_ascii: "ascii_value example_payload"
  by (simp add: example_payload_def example_authorization_def example_buyer_def
      example_treasury_def ascii_def)

lemma ascii_well_formed: "list_all (\<lambda>c. c < 128) s \<Longrightarrow> well_formed s"
  by (induction s rule: well_formed.induct) (auto dest: not_surrogate)

lemma ascii_literal_well_formed:
  "list_all (\<lambda>c. (of_char c :: nat) < 128) s \<Longrightarrow> well_formed (ascii s)"
  by (rule ascii_well_formed) (simp add: ascii_def list_all_iff)

section \<open>Facts about the gate and its facilitator\<close>

lemma callFacilitator_answer:
  assumes "curl_post penv (FACILITATOR_URL @ endpoint) (X402_FACILITATOR_KEY penv) (json_encode data)
             = (code, text)"
  shows "callFacilitator penv endpoint data =
           (if code \<noteq> 200 \<and> code \<noteq> 402 then Inr JNull
            else if nullish (php_json_decode penv text) \<or> is_array (php_json_decode penv text)
                 then Inr (php_json_decode penv text) else Inl TypeError,
            [(FACILITATOR_URL @ endpoint, X402_FACILITATOR_KEY penv, json_encode data)])"
  using assms by (simp add: callFacilitator_def Let_def)

lemma callFacilitator_posted:
  "snd (callFacilitator penv endpoint data) =
     [(FACILITATOR_URL @ endpoint, X402_FACILITATOR_KEY penv, json_encode data)]"
  by (simp add: callFacilitator_def Let_def split: prod.splits)

lemma facilitator_post_server:
  "facilitator_post fenv (FACILITATOR_URL @ endpoint) key text =
     (case fst (server fenv (post endpoint key text)) of
        Return statusCode data \<Rightarrow>
          (statusCode, case JSON_stringify data of None \<Rightarrow> [] | Some t \<Rightarrow> t)
      | Throw error \<Rightarrow> (0, [])
      | Next x \<Rightarrow> (0, []))"
  by (simp add: facilitator_post_def)

lemma server_post:
  "server fenv (post ''/x402/verify-transfer'' key text)
     = handleVerifyTransfer fenv (post ''/x402/verify-transfer'' key text)"
  "server fenv (post ''/x402/settle-transfer'' key text)
     = handleSettleTransfer fenv (post ''/x402/settle-transfer'' key text)"
  "server fenv (post ''/x402/verify'' key text) = handleVerify fenv (post ''/x402/verify'' key text)"
  "server fenv (post ''/x402/settle'' key text) = handleSettle fenv (post ''/x402/settle'' key text)"
  by (simp_all add: server_def post_def)

lemma gate_data_value:
  "json_value payload \<Longrightarrow> json_value requirements \<Longrightarrow>
     json_value (JObj [(ascii ''payload'', payload), (ascii ''requirements'', requirements)])"
  by (simp add: not_list_like ascii_def)








lemma settle_transfer_answer:
  assumes "\<not> unauthorized env (rq_headers req ''x-api-key'')"
    and "parseBody env req = (Next body, trace)"
    and "\<not> nullish body"
    and "payload = js_prop body (ascii ''payload'')" and "\<not> nullish payload"
    and "inner = js_prop payload (ascii ''payload'')" and "\<not> nullish inner"
    and "authorization = js_prop inner (ascii ''authorization'')" and "\<not> nullish authorization"
    and "requirements = js_prop body (ascii ''requirements'')" and "\<not> nullish requirements"
    and "args = map (js_prop authorization)
                  [ascii ''from'', ascii ''to'', ascii ''value'', ascii ''validAfter'',
                   ascii ''validBefore'', ascii ''nonce'']
                @ [js_prop inner (ascii ''signature'')]"
    and "asset = js_prop requirements (ascii ''asset'')"
    and "new_Contract env asset = Inr ()"
  shows "handleSettleTransfer env req =
           (case transferWithAuthorization env asset args 200000 of
              Inr receipt_hash \<Rightarrow>
                (Return 200 (settled receipt_hash (js_prop authorization (ascii ''from''))),
                 [ReadBody, SendTransaction asset (ascii ''transferWithAuthorization'') args 200000])
            | Inl error \<Rightarrow>
                (Return 500 (not_settled (reason_or_message error)),
                 [ReadBody, SendTransaction asset (ascii ''transferWithAuthorization'') args 200000]))"
proof -
  have send: "settleTransfer_send env payload requirements =
      (case transferWithAuthorization env asset args 200000 of
         Inr receipt_hash \<Rightarrow>
           (Return 200 (settled receipt_hash (js_prop authorization (ascii ''from''))),
            [SendTransaction asset (ascii ''transferWithAuthorization'') args 200000])
       | Inl error \<Rightarrow>
           (Throw error, [SendTransaction asset (ascii ''transferWithAuthorization'') args 200000]))"
  proof (cases "transferWithAuthorization env asset args 200000")
    case (Inl error)
    then show ?thesis
      using assms(5,7,9,11) assms(14) [unfolded assms(13)]
      unfolding settleTransfer_send_def assms(12,13)
      by (simp add: js_get_def js_destructure_def and_then_attempt_Inr and_then_emit_eq Let_def
          assms(6,8) [symmetric] and_then_call_Inl and_then_call_Inr)
  next
    case (Inr receipt_hash)
    then show ?thesis
      using assms(5,7,9,11) assms(14) [unfolded assms(13)]
      unfolding settleTransfer_send_def assms(12,13)
      by (simp add: js_get_def js_destructure_def and_then_attempt_Inr and_then_emit_eq Let_def
          assms(6,8) [symmetric] and_then_call_Inr sendJson_def)
  qed
  show ?thesis
    unfolding handleSettleTransfer_def
    using assms(1,3)
    by (simp add: parseBody_Next_then [OF assms(2)] and_then_attempt_Inr js_destructure_def Let_def
        assms(4,10) [symmetric] send try_catch_Throw try_catch_Return_eq sendJson_fst_snd
        split: sum.splits)
qed

section \<open>Runs of the example system\<close>

lemma callFacilitator_server:
  assumes "curl_post penv = facilitator_post fenv"
    and "php_json_decode penv = json_decode"
    and "fst (server fenv (post endpoint (X402_FACILITATOR_KEY penv) (json_encode data)))
           = Return code v"
    and "json_value v" and "ascii_value v" and "is_array v"
  shows "callFacilitator penv endpoint data =
           (if code \<noteq> 200 \<and> code \<noteq> 402 then Inr JNull else Inr v,
            [(FACILITATOR_URL @ endpoint, X402_FACILITATOR_KEY penv, json_encode data)])"
proof -
  have "curl_post penv (FACILITATOR_URL @ endpoint) (X402_FACILITATOR_KEY penv) (json_encode data)
          = (code, json_text js_quote v)"
    by (simp add: assms(1,3) facilitator_post_server JSON_stringify_value [OF assms(4)])
  from callFacilitator_answer [OF this] show ?thesis
    by (simp add: assms(2,6) json_decode_stringify [OF assms(4,5)])
qed

lemma example_gate_simps:
  "getallheaders (example_gate headers) = headers"
  "X402_FACILITATOR_KEY (example_gate headers) = ''secret''"
  "php_json_decode (example_gate headers) = json_decode"
  "curl_post (example_gate headers) = facilitator_post example_env"
  by (simp_all add: example_gate_def)

lemma example_posted_body:
  assumes "json_value payload"
    and "length (json_encode (JObj [(ascii ''payload'', payload),
                                    (ascii ''requirements'', example_requirements)])) \<le> 1048576"
  shows "parseBody example_env
           (post pathname ''secret''
              (json_encode (JObj [(ascii ''payload'', payload),
                                  (ascii ''requirements'', example_requirements)])))
         = (Next (JObj [(ascii ''payload'', payload), (ascii ''requirements'', example_requirements)]),
            [ReadBody])"
proof (rule parseBody_post [OF assms(2)])
  show "JSON_parse example_env
          (json_encode (JObj [(ascii ''payload'', payload),
                              (ascii ''requirements'', example_requirements)]))
        = Some (JObj [(ascii ''payload'', payload), (ascii ''requirements'', example_requirements)])"
    using json_parse_json_encode [OF gate_data_value [OF assms(1) example_requirements_value]]
    by (simp add: example_env_def)
qed

lemma verdict_values:
  "json_value is_valid" "ascii_value is_valid" "is_array is_valid"
  "list_all (\<lambda>c. c < 128) r \<Longrightarrow> json_value (not_valid r)"
  "list_all (\<lambda>c. c < 128) r \<Longrightarrow> ascii_value (not_valid r)"
  "is_array (not_valid r)"
  by (simp_all add: is_valid_def not_valid_def not_list_like ascii_def list_all_iff, auto)


lemma example_requirements_props:
  "js_prop example_requirements (ascii ''asset'')
     = JStr (ascii ''0xaf37e8b6c9ed7f6318979f56fc287d76c30847ff'')"
  "\<not> nullish example_requirements"
  by (simp_all add: example_requirements_def)

subsection \<open>A header that decodes to the number 5\<close>

lemma header_five: "json_decode (base64_decode ''NQ=='') = JNum 5"
proof -
  have "base64_decode ''NQ=='' = [53]"
    by (simp add: base64_decode_def List.map_filter_simps b64_index_def)
  moreover have "json_encode (JNum 5) = [53]"
    by (simp add: json_encode_def show_int_def show_nat_small)
  ultimately show ?thesis using json_decode_json_encode [of "JNum 5"] by simp
qed

lemma five_length:
  "length (json_encode (JObj [(ascii ''payload'', JNum 5),
                              (ascii ''requirements'', example_requirements)])) \<le> 1048576"
  by (simp add: json_encode_def example_requirements_def example_treasury_def ascii_def
      php_quote_def php_escape_def short_escape_def unicode_escape_def hex4_def hex_digit_def
      show_int_def show_nat_small)

lemma five_verify:
  "handleVerifyTransfer example_env
     (post ''/x402/verify-transfer'' ''secret''
        (json_encode (JObj [(ascii ''payload'', JNum 5),
                            (ascii ''requirements'', example_requirements)])))
   = (Return 200 (not_valid (ascii ''Unsupported x402 version'')), [ReadBody])"
proof -
  let ?req = "post ''/x402/verify-transfer'' ''secret''
        (json_encode (JObj [(ascii ''payload'', JNum 5),
                            (ascii ''requirements'', example_requirements)]))"
  have key: "\<not> unauthorized example_env (rq_headers ?req ''x-api-key'')"
    by (simp add: unauthorized_def post_def example_env_def)
  have body: "parseBody example_env ?req
      = (Next (JObj [(ascii ''payload'', JNum 5), (ascii ''requirements'', example_requirements)]),
         [ReadBody])"
    by (rule example_posted_body [OF _ five_length]) simp
  have checks: "verifyTransfer_checks example_env (JNum 5) example_requirements
      = (Return 200 (not_valid (ascii ''Unsupported x402 version'')), [])"
    by (simp add: verifyTransfer_checks_def js_get_def and_then_attempt_Inr sendJson_def)
  show ?thesis
    unfolding handleVerifyTransfer_def
    by (simp add: key parseBody_Next_then [OF body] and_then_attempt_Inr js_destructure_def
        checks try_catch_Return_eq Let_def)
qed

subsection \<open>The example payment and its replay\<close>

lemma replayed_payload_value: "json_value replayed_payload"
  by (simp add: replayed_payload_def replayed_authorization_def example_buyer_def
      example_treasury_def not_list_like ascii_def)

lemma replayed_payload_ascii: "ascii_value replayed_payload"
  by (simp add: replayed_payload_def replayed_authorization_def example_buyer_def
      example_treasury_def ascii_def)

lemma replayed_length:
  "length (json_encode (JObj [(ascii ''payload'', replayed_payload),
                              (ascii ''requirements'', example_requirements)])) \<le> 1048576"
  by (simp add: json_encode_def replayed_payload_def replayed_authorization_def
      example_requirements_def example_buyer_def example_treasury_def ascii_def
      php_quote_def php_escape_def short_escape_def unicode_escape_def hex4_def hex_digit_def
      show_int_def show_nat_small)

lemma replayed_checks:
  "verifyTransfer_checks example_env replayed_payload example_requirements = (Return 200 is_valid, 
     [BalanceOfCall (JStr (ascii ''0xaf37e8b6c9ed7f6318979f56fc287d76c30847ff'')) (JStr example_buyer)])"
  by (simp add: verifyTransfer_checks_def example_env_def replayed_payload_def
      example_requirements_def replayed_authorization_def example_buyer_def example_treasury_def
      and_then_def attempt_def call_def emit_def sendJson_def js_get_def js_get_opt_def
      js_destructure_def toLowerCase_def CONFIG_assets_def CONFIG_network_def CONFIG_chainId_def
      example_verifyTypedData_def decimal_BigInt_def decimal_Number_def ascii_lower_def
      is_digit_def Let_def ascii_def)

lemma example_built:
  "new_Contract example_env (JStr (ascii ''0xaf37e8b6c9ed7f6318979f56fc287d76c30847ff'')) = Inr ()"
  by (simp add: example_env_def example_Contract_def)

lemma example_key: "\<not> unauthorized example_env (rq_headers (post pathname ''secret'' text) ''x-api-key'')"
  by (simp add: unauthorized_def post_def example_env_def)

lemma replayed_verify:
  "handleVerifyTransfer example_env
     (post ''/x402/verify-transfer'' ''secret''
        (json_encode (JObj [(ascii ''payload'', replayed_payload),
                            (ascii ''requirements'', example_requirements)])))
   = (Return 200 is_valid,
      [ReadBody,
       BalanceOfCall (JStr (ascii ''0xaf37e8b6c9ed7f6318979f56fc287d76c30847ff'')) (JStr example_buyer)])"
  unfolding handleVerifyTransfer_def
  by (simp add: example_key
      parseBody_Next_then [OF example_posted_body [OF replayed_payload_value replayed_length]]
      and_then_attempt_Inr js_destructure_def replayed_checks try_catch_Return_eq Let_def)

lemma replayed_settle:
  "handleSettleTransfer example_env
     (post ''/x402/settle-transfer'' ''secret''
        (json_encode (JObj [(ascii ''payload'', replayed_payload),
                            (ascii ''requirements'', example_requirements)])))
   = (Return 500 (not_settled (ascii ''authorization is used'')),
      [ReadBody,
       SendTransaction (JStr (ascii ''0xaf37e8b6c9ed7f6318979f56fc287d76c30847ff''))
         (ascii ''transferWithAuthorization'')
         [JStr example_buyer, JStr example_treasury, JStr (ascii ''100''), JStr (ascii ''0''),
          JStr (ascii ''1700003600''), JStr (ascii ''0x5f''), JStr (ascii ''0x51c0'')]
         200000])"
proof -
  have reverted: "transferWithAuthorization example_env
      (JStr (ascii ''0xaf37e8b6c9ed7f6318979f56fc287d76c30847ff''))
      [JStr example_buyer, JStr example_treasury, JStr (ascii ''100''), JStr (ascii ''0''),
       JStr (ascii ''1700003600''), JStr (ascii ''0x5f''), JStr (ascii ''0x51c0'')] 200000
      = Inl \<lparr>reason = Some (ascii ''authorization is used''), message = ascii ''execution reverted''\<rparr>"
    by (simp add: example_env_def)
  have used: "ascii ''authorization is used'' \<noteq> []" by (simp add: ascii_def)
  show ?thesis
    using settle_transfer_answer [OF example_key
        example_posted_body [OF replayed_payload_value replayed_length, of "''/x402/settle-transfer''"]
        _ refl _ refl _ refl _ refl _ refl refl]
    by (simp add: replayed_payload_def replayed_authorization_def example_requirements_props
        example_built reverted reason_or_message_def used)
qed




lemma failure_values:
  assumes "list_all (\<lambda>c. c < 128) e"
  shows "json_value (not_settled e)" and "ascii_value (not_settled e)" and "is_array (not_settled e)"
  using assms
  by (simp_all add: not_settled_def not_list_like ascii_def list_all_iff, auto)

lemma example_header:
  "getPaymentHeader (getallheaders (example_gate [''PAYMENT-SIGNATURE'' \<mapsto> header])) = Some header"
  by (simp add: getPaymentHeader_def example_gate_simps HEADER_PAYMENT_SIGNATURE_def)

lemma replayed_run:
  "handleTransfer
     (example_gate [''PAYMENT-SIGNATURE'' \<mapsto> base64_encode (json_text js_quote replayed_payload)])
     example_requirements
   = (Exit (Response_error (ascii ''Payment settlement failed: '' @ ascii ''unknown'') 500
              (ascii ''X402_SETTLE_FAILED'')),
      [(FACILITATOR_URL @ ''/x402/verify-transfer'', ''secret'',
        json_encode (JObj [(ascii ''payload'', replayed_payload),
                           (ascii ''requirements'', example_requirements)])),
       (FACILITATOR_URL @ ''/x402/settle-transfer'', ''secret'',
        json_encode (JObj [(ascii ''payload'', replayed_payload),
                           (ascii ''requirements'', example_requirements)]))])"
proof -
  let ?h = "base64_encode (json_text js_quote replayed_payload)"
  let ?gate = "example_gate [''PAYMENT-SIGNATURE'' \<mapsto> ?h]"
  let ?data = "JObj [(ascii ''payload'', replayed_payload),
                     (ascii ''requirements'', example_requirements)]"
  have decoded: "json_decode (base64_decode ?h) = replayed_payload"
    using replayed_payload_value replayed_payload_ascii by (rule encodePayload_decodes(2))
  have truthy: "\<not> php_falsy replayed_payload" by (simp add: replayed_payload_def)
  have "fst (server example_env (post ''/x402/verify-transfer'' (X402_FACILITATOR_KEY ?gate)
               (json_encode ?data))) = Return 200 is_valid"
    by (simp add: example_gate_simps server_post replayed_verify)
  from callFacilitator_server [OF example_gate_simps(4) example_gate_simps(3) this verdict_values(1-3)]
  have verify: "callFacilitator ?gate ''/x402/verify-transfer'' ?data
      = (Inr is_valid, [(FACILITATOR_URL @ ''/x402/verify-transfer'', ''secret'', json_encode ?data)])"
    by (simp add: example_gate_simps)
  have used: "list_all (\<lambda>c. c < 128) (ascii ''authorization is used'')" by (simp add: ascii_def)
  have "fst (server example_env (post ''/x402/settle-transfer'' (X402_FACILITATOR_KEY ?gate)
               (json_encode ?data))) = Return 500 (not_settled (ascii ''authorization is used''))"
    by (simp add: example_gate_simps server_post replayed_settle)
  from callFacilitator_server [OF example_gate_simps(4) example_gate_simps(3) this
      failure_values [OF used]]
  have settle: "callFacilitator ?gate ''/x402/settle-transfer'' ?data
      = (Inr JNull, [(FACILITATOR_URL @ ''/x402/settle-transfer'', ''secret'', json_encode ?data)])"
    by (simp add: example_gate_simps)
  show ?thesis
    unfolding handleTransfer_def
    by (simp add: example_header example_gate_simps(3) decoded truthy verify settle is_valid_def
        coalesce_def)
qed


section \<open>Soundness of an accepted transfer verification\<close>

lemma verifyTransfer_checks_valid:
  assumes "answers_valid (verifyTransfer_checks env payload requirements)"
    and "auth = js_prop (js_prop payload (ascii ''payload'')) (ascii ''authorization'')"
  shows "\<exists>asset_s asset signer f t p bal v amt.
      js_prop requirements (ascii ''asset'') = JStr asset_s \<and>
      CONFIG_assets (str_toLowerCase env asset_s) = Some asset \<and>
      verifyTypedData env (eip712Name asset, eip712Version asset, CONFIG_chainId, JStr asset_s)
         (map (js_prop auth) [(ascii ''from''), (ascii ''to''), (ascii ''value''), (ascii ''validAfter''), (ascii ''validBefore''), (ascii ''nonce'')])
         (js_prop (js_prop payload (ascii ''payload'')) (ascii ''signature'')) = Inr signer \<and>
      js_prop auth (ascii ''from'') = JStr f \<and> str_toLowerCase env signer = str_toLowerCase env f \<and>
      js_prop auth (ascii ''to'') = JStr t \<and> js_prop requirements (ascii ''payTo'') = JStr p \<and>
      str_toLowerCase env t = str_toLowerCase env p \<and>
      balanceOf env (JStr asset_s) (JStr f) = Inr bal \<and>
      js_BigInt env (js_prop auth (ascii ''value'')) = Inr v \<and> v \<le> bal \<and>
      \<not> num_lt (unix_now env) (js_Number env (js_prop auth (ascii ''validAfter''))) \<and>
      \<not> num_gt (unix_now env) (js_Number env (js_prop auth (ascii ''validBefore''))) \<and>
      js_BigInt env (js_prop requirements (ascii ''amount'')) = Inr amt \<and> amt \<le> v"
  using assms
  unfolding verifyTransfer_checks_def
  apply (simp only: valid_if_not_valid valid_attempt valid_call valid_emit valid_case_option
      Let_def valid_is_valid toLowerCase_Inr js_get_Inr)
  apply (elim exE conjE)
  apply simp
  apply (metis linorder_not_less)
  done

text \<open>
  What acceptance does guarantee. Whenever \<^verbatim>\<open>/x402/verify-transfer\<close> answers
  \<^verbatim>\<open>{valid: true}\<close>, then for the body it parsed: the signer recovered from the EIP-712 data equals \<^verbatim>\<open>authorization.from\<close> up to
  letter case, \<^verbatim>\<open>authorization.to\<close> equals \<^verbatim>\<open>requirements.payTo\<close> up to letter case, the
  balance read from the chain is at least \<^verbatim>\<open>authorization.value\<close>, the clock lies between
  \<^verbatim>\<open>validAfter\<close> and \<^verbatim>\<open>validBefore\<close> (for an authorization whose two bounds \<^verbatim>\<open>Number\<close> reads
  as numbers),
  and \<^verbatim>\<open>authorization.value\<close> is at least \<^verbatim>\<open>requirements.amount\<close> as big integers.
\<close>

theorem verify_transfer_sound:
  assumes "answers_valid (handleVerifyTransfer env req)"
    and "JSON_parse env (concat (rq_chunks req)) = Some body"
    and "auth = js_prop (js_prop (js_prop body (ascii ''payload'')) (ascii ''payload'')) (ascii ''authorization'')"
    and "requirements = js_prop body (ascii ''requirements'')"
    and "js_Number env (js_prop auth (ascii ''validAfter'')) = Fin a"
    and "js_Number env (js_prop auth (ascii ''validBefore'')) = Fin b"
  shows "\<exists>asset_s asset signer from to payTo balance v amount.
      js_prop requirements (ascii ''asset'') = JStr asset_s \<and>
      CONFIG_assets (str_toLowerCase env asset_s) = Some asset \<and>
      verifyTypedData env (eip712Name asset, eip712Version asset, CONFIG_chainId, JStr asset_s)
         (map (js_prop auth) [(ascii ''from''), (ascii ''to''), (ascii ''value''), (ascii ''validAfter''), (ascii ''validBefore''), (ascii ''nonce'')])
         (js_prop (js_prop (js_prop body (ascii ''payload'')) (ascii ''payload'')) (ascii ''signature'')) = Inr signer \<and>
      js_prop auth (ascii ''from'') = JStr from \<and> str_toLowerCase env signer = str_toLowerCase env from \<and>
      js_prop auth (ascii ''to'') = JStr to \<and> js_prop requirements (ascii ''payTo'') = JStr payTo \<and>
      str_toLowerCase env to = str_toLowerCase env payTo \<and>
      balanceOf env (JStr asset_s) (JStr from) = Inr balance \<and>
      js_BigInt env (js_prop auth (ascii ''value'')) = Inr v \<and> v \<le> balance \<and>
      a \<le> unix_now env \<and> unix_now env \<le> b \<and>
      js_BigInt env (js_prop requirements (ascii ''amount'')) = Inr amount \<and> amount \<le> v"
proof -
  from assms(1) have "\<exists>x evs. parseBody env req = (Next x, evs) \<and>
      answers_valid (verifyTransfer_checks env (js_prop x (ascii ''payload'')) (js_prop x (ascii ''requirements'')))"
    unfolding handleVerifyTransfer_def
    by (auto simp add: valid_if_invalid_key valid_and_then valid_try_catch parseBody_not_valid
        try_catch_sendJson_Next attempt_not_valid Let_def)
  then obtain x evs where x: "parseBody env req = (Next x, evs)"
    and checks: "answers_valid (verifyTransfer_checks env (js_prop x (ascii ''payload'')) (js_prop x (ascii ''requirements'')))"
    by blast
  from x assms(2) have "x = body"
    by (simp add: parseBody_Next)
  with checks assms(3,4) have
    "answers_valid (verifyTransfer_checks env (js_prop body (ascii ''payload'')) requirements)"
    by simp
  from verifyTransfer_checks_valid [OF this assms(3)]
  obtain asset_s asset signer f t p bal v amt where facts:
    "js_prop requirements (ascii ''asset'') = JStr asset_s"
    "CONFIG_assets (str_toLowerCase env asset_s) = Some asset"
    "verifyTypedData env (eip712Name asset, eip712Version asset, CONFIG_chainId, JStr asset_s)
       (map (js_prop auth) [(ascii ''from''), (ascii ''to''), (ascii ''value''), (ascii ''validAfter''), (ascii ''validBefore''), (ascii ''nonce'')])
       (js_prop (js_prop (js_prop body (ascii ''payload'')) (ascii ''payload'')) (ascii ''signature'')) = Inr signer"
    "js_prop auth (ascii ''from'') = JStr f" "str_toLowerCase env signer = str_toLowerCase env f"
    "js_prop auth (ascii ''to'') = JStr t" "js_prop requirements (ascii ''payTo'') = JStr p"
    "str_toLowerCase env t = str_toLowerCase env p"
    "balanceOf env (JStr asset_s) (JStr f) = Inr bal"
    "js_BigInt env (js_prop auth (ascii ''value'')) = Inr v" "v \<le> bal"
    "js_BigInt env (js_prop requirements (ascii ''amount'')) = Inr amt" "amt \<le> v"
    and window:
    "\<not> num_lt (unix_now env) (js_Number env (js_prop auth (ascii ''validAfter'')))"
    "\<not> num_gt (unix_now env) (js_Number env (js_prop auth (ascii ''validBefore'')))"
    by blast
  from window assms(5,6) have "a \<le> unix_now env" "unix_now env \<le> b"
    by simp_all
  with facts show ?thesis
    by blast
qed

theorem verify_transfer_sound_witness:
  "answers_valid (handleVerifyTransfer example_env example_request) \<and>
   JSON_parse example_env (concat (rq_chunks example_request)) = Some example_body \<and>
   js_Number example_env (js_prop example_authorization (ascii ''validAfter'')) = Fin 0 \<and>
   js_Number example_env (js_prop example_authorization (ascii ''validBefore'')) = Fin 1700003600 \<and>
   (\<exists>signer balance v amount.
      verifyTypedData example_env (ascii ''USDT0'', ascii ''1'', CONFIG_chainId,
          JStr (ascii ''0xaf37e8b6c9ed7f6318979f56fc287d76c30847ff''))
        (map (js_prop example_authorization)
          [ascii ''from'', ascii ''to'', ascii ''value'', ascii ''validAfter'', ascii ''validBefore'',
           ascii ''nonce''])
        (JStr (ascii ''0x51c0'')) = Inr signer \<and>
      str_toLowerCase example_env signer = str_toLowerCase example_env example_buyer \<and>
      balanceOf example_env (JStr (ascii ''0xaf37e8b6c9ed7f6318979f56fc287d76c30847ff''))
        (JStr example_buyer) = Inr balance \<and>
      js_BigInt example_env (JStr (ascii ''100'')) = Inr v \<and> v \<le> balance \<and>
      0 \<le> unix_now example_env \<and> unix_now example_env \<le> 1700003600 \<and>
      js_BigInt example_env (JStr (ascii ''100'')) = Inr amount \<and> amount \<le> v)"
proof -
  have valid: "answers_valid (handleVerifyTransfer example_env example_request)"
    by (simp add: example_verify answers_valid_def is_valid_def)
  have auth: "example_authorization =
      js_prop (js_prop (js_prop example_body (ascii ''payload'')) (ascii ''payload''))
        (ascii ''authorization'')"
    by (simp add: example_body_def example_payload_def)
  have reqs: "example_requirements = js_prop example_body (ascii ''requirements'')"
    by (simp add: example_body_def)
  have after: "js_Number example_env (js_prop example_authorization (ascii ''validAfter'')) = Fin 0"
    by (simp add: example_env_def example_authorization_def decimal_Number_def is_digit_def ascii_def)
  have before:
    "js_Number example_env (js_prop example_authorization (ascii ''validBefore'')) = Fin 1700003600"
    by (simp add: example_env_def example_authorization_def decimal_Number_def is_digit_def ascii_def)
  have props:
    "js_prop example_requirements (ascii ''asset'') = JStr (ascii ''0xaf37e8b6c9ed7f6318979f56fc287d76c30847ff'')"
    "js_prop example_requirements (ascii ''amount'') = JStr (ascii ''100'')"
    "js_prop example_authorization (ascii ''value'') = JStr (ascii ''100'')"
    "js_prop example_authorization (ascii ''from'') = JStr example_buyer"
    "js_prop (js_prop (js_prop example_body (ascii ''payload'')) (ascii ''payload'')) (ascii ''signature'')
       = JStr (ascii ''0x51c0'')"
    by (simp_all add: example_requirements_def example_authorization_def example_body_def
        example_payload_def)
  have asset: "CONFIG_assets (ascii ''0xaf37e8b6c9ed7f6318979f56fc287d76c30847ff'') =
      Some \<lparr>symbol = ascii ''USDT0'', decimals = 6, eip3009 = True,
            eip712Name = ascii ''USDT0'', eip712Version = ascii ''1''\<rparr>"
    by (simp add: CONFIG_assets_def)
  from verify_transfer_sound [OF valid example_parsed auth reqs after before]
  obtain asset_s asset signer f t p bal v amt where facts:
    "js_prop example_requirements (ascii ''asset'') = JStr asset_s"
    "CONFIG_assets (str_toLowerCase example_env asset_s) = Some asset"
    "verifyTypedData example_env (eip712Name asset, eip712Version asset, CONFIG_chainId, JStr asset_s)
       (map (js_prop example_authorization)
         [ascii ''from'', ascii ''to'', ascii ''value'', ascii ''validAfter'', ascii ''validBefore'',
          ascii ''nonce''])
       (js_prop (js_prop (js_prop example_body (ascii ''payload'')) (ascii ''payload'')) (ascii ''signature''))
       = Inr signer"
    "js_prop example_authorization (ascii ''from'') = JStr f"
    "str_toLowerCase example_env signer = str_toLowerCase example_env f"
    "balanceOf example_env (JStr asset_s) (JStr f) = Inr bal"
    "js_BigInt example_env (js_prop example_authorization (ascii ''value'')) = Inr v" "v \<le> bal"
    "0 \<le> unix_now example_env" "unix_now example_env \<le> 1700003600"
    "js_BigInt example_env (js_prop example_requirements (ascii ''amount'')) = Inr amt" "amt \<le> v"
    by blast
  have s: "asset_s = ascii ''0xaf37e8b6c9ed7f6318979f56fc287d76c30847ff''" and f: "f = example_buyer"
    using facts(1,4) props by simp_all
  have lower: "str_toLowerCase example_env asset_s = ascii ''0xaf37e8b6c9ed7f6318979f56fc287d76c30847ff''"
    unfolding s by (simp add: example_env_def ascii_lower_def ascii_def)
  have a: "eip712Name asset = ascii ''USDT0''" "eip712Version asset = ascii ''1''"
    using facts(2) asset unfolding lower by auto
  show ?thesis
    using valid example_parsed after before facts(3,5,6,7,8,9,10,11,12)
    unfolding a s f props by blast
qed

text \<open>
  C1. The claim promises for every accepted request that the clock lies between
  \<^verbatim>\<open>validAfter\<close> and \<^verbatim>\<open>validBefore\<close>. The handler tests
  \<^verbatim>\<open>now < Number(validAfter) || now > Number(validBefore)\<close>, and both comparisons are false
  for a bound that \<^verbatim>\<open>Number\<close> reads as \<^verbatim>\<open>NaN\<close>: such a bound is not checked at all. The
  authorization of the third example payload has the string \<^verbatim>\<open>-\<close> for both bounds, and the
  request that carries it is accepted whatever the clock says.
\<close>

theorem verify_transfer_ignores_window:
  "js_Number (example_env\<lparr>unix_now := now\<rparr>)
     (js_prop timeless_authorization (ascii ''validAfter'')) = NaN \<and>
   js_Number (example_env\<lparr>unix_now := now\<rparr>)
     (js_prop timeless_authorization (ascii ''validBefore'')) = NaN \<and>
   handleVerifyTransfer (example_env\<lparr>unix_now := now\<rparr>)
     (post ''/x402/verify-transfer'' ''secret''
        (json_encode (JObj [(ascii ''payload'', timeless_payload),
                            (ascii ''requirements'', example_requirements)])))
   = (Return 200 is_valid,
      [ReadBody,
       BalanceOfCall (JStr (ascii ''0xaf37e8b6c9ed7f6318979f56fc287d76c30847ff'')) (JStr example_buyer)])"
proof -
  let ?env = "example_env\<lparr>unix_now := now\<rparr>"
  let ?body = "JObj [(ascii ''payload'', timeless_payload),
                     (ascii ''requirements'', example_requirements)]"
  let ?req = "post ''/x402/verify-transfer'' ''secret'' (json_encode ?body)"
  have bounds: "js_Number ?env (js_prop timeless_authorization (ascii ''validAfter'')) = NaN"
    "js_Number ?env (js_prop timeless_authorization (ascii ''validBefore'')) = NaN"
    by (simp_all add: example_env_def timeless_authorization_def decimal_Number_def is_digit_def
        ascii_def)
  have key: "\<not> unauthorized ?env (rq_headers ?req ''x-api-key'')"
    by (simp add: unauthorized_def post_def example_env_def)
  have val: "json_value ?body"
    by (simp add: timeless_payload_def timeless_authorization_def example_requirements_def
        example_buyer_def example_treasury_def not_list_like ascii_def)
  have len: "length (json_encode ?body) \<le> 1048576"
    by (simp add: json_encode_def timeless_payload_def timeless_authorization_def
        example_requirements_def example_buyer_def example_treasury_def ascii_def
        php_quote_def php_escape_def short_escape_def unicode_escape_def hex4_def hex_digit_def
        show_int_def show_nat_small)
  have parsed: "JSON_parse ?env (json_encode ?body) = Some ?body"
    using json_parse_json_encode [OF val] by (simp add: example_env_def)
  have body: "parseBody ?env ?req = (Next ?body, [ReadBody])"
    using len parsed by (rule parseBody_post)
  have checks: "verifyTransfer_checks ?env timeless_payload example_requirements =
      (Return 200 is_valid,
       [BalanceOfCall (JStr (ascii ''0xaf37e8b6c9ed7f6318979f56fc287d76c30847ff'')) (JStr example_buyer)])"
    by (simp add: verifyTransfer_checks_def example_env_def timeless_payload_def
        example_requirements_def timeless_authorization_def example_buyer_def example_treasury_def
        and_then_def attempt_def call_def emit_def sendJson_def js_get_def js_get_opt_def
        js_destructure_def toLowerCase_def CONFIG_assets_def CONFIG_network_def CONFIG_chainId_def
        example_verifyTypedData_def decimal_BigInt_def decimal_Number_def ascii_lower_def
        is_digit_def Let_def ascii_def)
  have "handleVerifyTransfer ?env ?req =
      (Return 200 is_valid,
       [ReadBody,
        BalanceOfCall (JStr (ascii ''0xaf37e8b6c9ed7f6318979f56fc287d76c30847ff'')) (JStr example_buyer)])"
    unfolding handleVerifyTransfer_def
    by (simp add: key parseBody_Next_then [OF body] and_then_attempt_Inr js_destructure_def
        checks try_catch_Return_eq Let_def)
  then show ?thesis using bounds by simp
qed

section \<open>The shared secret comes first\<close>

text \<open>
  C8. On each of the five \<^verbatim>\<open>POST\<close> endpoints a request whose key header (\<^verbatim>\<open>x-api-key\<close>, or
  \<^verbatim>\<open>x-facilitator-key\<close> for \<^verbatim>\<open>/x402/demo-ai\<close>) is absent or differs from the configured key is
  answered 401 with an \<^verbatim>\<open>{error}\<close> body, and nothing has happened before: the body was not
  read and the chain was not called.
\<close>

theorem wrong_key_401:
  assumes "rq_method req = ''POST''"
    and "(rq_pathname req, header) \<in> set [(''/x402/verify'', ''x-api-key''),
           (''/x402/settle'', ''x-api-key''), (''/x402/verify-transfer'', ''x-api-key''),
           (''/x402/settle-transfer'', ''x-api-key''), (''/x402/demo-ai'', ''x-facilitator-key'')]"
    and "rq_headers req header \<noteq> Some (API_KEY env)"
  shows "server env req =
           (Return 401 (JObj [(ascii ''error'', JStr (ascii ''Invalid or missing API key''))]), [])"
proof -
  have "unauthorized env (rq_headers req header)"
    using assms(3) by (cases "rq_headers req header") (auto simp: unauthorized_def)
  then show ?thesis
    using assms(1,2)
    by (auto simp: server_def handleVerify_def handleSettle_def handleVerifyTransfer_def
        handleSettleTransfer_def handleDemoAi_def sendJson_def invalid_key_def Let_def)
qed

theorem wrong_key_401_witness:
  "rq_method (post ''/x402/settle-transfer'' ''guess'' (json_encode example_body)) = ''POST'' \<and>
   rq_headers (post ''/x402/settle-transfer'' ''guess'' (json_encode example_body)) ''x-api-key''
     \<noteq> Some (API_KEY example_env) \<and>
   server example_env (post ''/x402/settle-transfer'' ''guess'' (json_encode example_body)) =
     (Return 401 (JObj [(ascii ''error'', JStr (ascii ''Invalid or missing API key''))]), [])"
proof -
  let ?req = "post ''/x402/settle-transfer'' ''guess'' (json_encode example_body)"
  have 1: "rq_method ?req = ''POST''" by (simp add: post_def)
  have 2: "(rq_pathname ?req, ''x-api-key'') \<in> set [(''/x402/verify'', ''x-api-key''),
           (''/x402/settle'', ''x-api-key''), (''/x402/verify-transfer'', ''x-api-key''),
           (''/x402/settle-transfer'', ''x-api-key''), (''/x402/demo-ai'', ''x-facilitator-key'')]"
    by (simp add: post_def)
  have 3: "rq_headers ?req ''x-api-key'' \<noteq> Some (API_KEY example_env)"
    by (simp add: post_def example_env_def)
  from wrong_key_401 [OF 1 2 3] 1 3 show ?thesis by simp
qed

section \<open>A body that is the JSON value null\<close>

lemma json_parse_null: "json_parse (ascii ''null'') = Some JNull"
  by (simp add: json_parse_def ascii_def parse_literal_def)

text \<open>
  C2. The claim promises an answer \<^verbatim>\<open>{valid, reason}\<close> for every request with the right key and
  a body that parses. The body \<^verbatim>\<open>null\<close> parses, and \<^verbatim>\<open>const { payload, requirements } = body\<close>,
  which stands before the \<^verbatim>\<open>try\<close> block, throws on it: the handler's promise rejects after
  the body was read and no response is written.
\<close>

theorem verify_transfer_null_body:
  "handleVerifyTransfer example_env (post ''/x402/verify-transfer'' ''secret'' (ascii ''null'')) =
     (Throw \<lparr>reason = None,
             message = ascii ''Cannot destructure property '' @ quoted (ascii ''payload'') @
                       ascii '' of '' @ quoted (ascii ''body'') @
                       ascii '' as it is '' @ ascii ''null'' @ ascii ''.''\<rparr>,
      [ReadBody])"
proof -
  let ?req = "post ''/x402/verify-transfer'' ''secret'' (ascii ''null'')"
  have body: "parseBody example_env ?req = (Next JNull, [ReadBody])"
    by (rule parseBody_post) (simp_all add: example_env_def json_parse_null, simp add: ascii_def)
  have key: "\<not> unauthorized example_env (rq_headers ?req ''x-api-key'')"
    by (simp add: unauthorized_def post_def example_env_def)
  show ?thesis
    unfolding handleVerifyTransfer_def
    by (simp add: key body try_catch_def and_then_def attempt_def js_destructure_def)
qed

section \<open>Status codes of the verify endpoints\<close>

text \<open>
  C3, as stated, fails: with no escrow adapter configured, \<^verbatim>\<open>/x402/verify\<close> answers an
  authenticated request whose body is readable with status 400.
\<close>

theorem verify_400_with_readable_body:
  "\<not> unauthorized example_env
       (rq_headers (post ''/x402/verify'' ''secret'' (json_encode example_body)) ''x-api-key'') \<and>
   parseBody example_env (post ''/x402/verify'' ''secret'' (json_encode example_body))
     = (Next example_body, [ReadBody]) \<and>
   server example_env (post ''/x402/verify'' ''secret'' (json_encode example_body))
     = (Return 400 (JObj [(ascii ''valid'', JBool False),
                          (ascii ''reason'', JStr (ascii ''Escrow adapter not configured''))]), [])"
proof -
  let ?req = "post ''/x402/verify'' ''secret'' (json_encode example_body)"
  have key: "\<not> unauthorized example_env (rq_headers ?req ''x-api-key'')"
    by (simp add: unauthorized_def post_def example_env_def)
  have body: "parseBody example_env ?req = (Next example_body, [ReadBody])"
    by (rule parseBody_post [OF example_length])
       (simp add: example_env_def json_parse_json_encode example_body_value)
  have "server example_env ?req = handleVerify example_env ?req"
    by (simp add: server_def post_def)
  also have "\<dots> = (Return 400 (not_valid (ascii ''Escrow adapter not configured'')), [])"
    unfolding handleVerify_def by (simp add: key) (simp add: example_env_def sendJson_def)
  finally show ?thesis using key body by (simp add: not_valid_def)
qed

text \<open>
  C3, amended. For a request with the right key to \<^verbatim>\<open>/x402/verify\<close> or
  \<^verbatim>\<open>/x402/verify-transfer\<close>: \<^verbatim>\<open>/x402/verify\<close> without a configured escrow adapter answers 400
  \<^verbatim>\<open>{valid: false, reason}\<close> before it reads the body; otherwise a body that cannot be read
  or parsed is answered 400 \<^verbatim>\<open>{valid: false, reason: 'Invalid JSON body'}\<close>; otherwise a body
  that parses to a value other than \<^verbatim>\<open>null\<close> is answered 200 with \<^verbatim>\<open>{valid: true}\<close> or
  \<^verbatim>\<open>{valid: false, reason}\<close>.
\<close>

theorem verify_endpoints_status:
  assumes "verify_endpoint (rq_pathname req) = Some handler"
    and "\<not> unauthorized env (rq_headers req ''x-api-key'')"
  shows "(rq_pathname req = ''/x402/verify'' \<and> escrowAdapter env = [] \<longrightarrow>
            handler env req =
              (Return 400 (not_valid (ascii ''Escrow adapter not configured'')), []))
       \<and> (\<not> (rq_pathname req = ''/x402/verify'' \<and> escrowAdapter env = []) \<and>
            parseBody env req = (Throw e, trace) \<longrightarrow>
            handler env req = (Return 400 (not_valid (ascii ''Invalid JSON body'')), [ReadBody]))
       \<and> (\<not> (rq_pathname req = ''/x402/verify'' \<and> escrowAdapter env = []) \<and>
            parseBody env req = (Next body, trace) \<and> \<not> nullish body \<longrightarrow>
            (\<exists>data events. handler env req = (Return 200 data, events) \<and> verdict_body data))"
proof -
  consider (escrow) "rq_pathname req = ''/x402/verify''" "handler = handleVerify"
    | (transfer) "rq_pathname req = ''/x402/verify-transfer''" "handler = handleVerifyTransfer"
    using assms(1) by (auto simp: verify_endpoint_def split: if_splits)
  then show ?thesis
  proof cases
    case escrow
    have a: "escrowAdapter env = [] \<Longrightarrow>
        handleVerify env req = (Return 400 (not_valid (ascii ''Escrow adapter not configured'')), [])"
      unfolding handleVerify_def using assms(2) by (simp add: sendJson_def)
    have b: "handleVerify env req = (Return 400 (not_valid (ascii ''Invalid JSON body'')), [ReadBody])"
      if nz: "escrowAdapter env \<noteq> []" and pb: "parseBody env req = (Throw e, trace)"
      unfolding handleVerify_def using assms(2) nz by (simp add: parseBody_Throw_400 [OF pb])
    have c: "\<exists>data events. handleVerify env req = (Return 200 data, events) \<and> verdict_body data"
      if nz: "escrowAdapter env \<noteq> []" and pb: "parseBody env req = (Next body, trace)"
        and nn: "\<not> nullish body"
    proof -
      obtain data evs where
        "try_catch (verify_checks env (js_prop body (ascii ''payload'')) (js_prop body (ascii ''requirements'')))
           (\<lambda>error. sendJson 200 (not_valid (message error))) = (Return 200 data, evs)"
        "verdict_body data"
        using try_catch_verdict [OF verify_checks_verdict] by blast
      then show ?thesis
        unfolding handleVerify_def using assms(2) nz nn
        by (simp add: parseBody_Next_then [OF pb] and_then_attempt_Inr js_destructure_def Let_def)
    qed
    show ?thesis using a b c escrow by blast
  next
    case transfer
    have b: "handleVerifyTransfer env req = (Return 400 (not_valid (ascii ''Invalid JSON body'')), [ReadBody])"
      if pb: "parseBody env req = (Throw e, trace)"
      unfolding handleVerifyTransfer_def using assms(2) by (simp add: parseBody_Throw_400 [OF pb])
    have c: "\<exists>data events. handleVerifyTransfer env req = (Return 200 data, events) \<and> verdict_body data"
      if pb: "parseBody env req = (Next body, trace)" and nn: "\<not> nullish body"
    proof -
      obtain data evs where
        "try_catch (verifyTransfer_checks env (js_prop body (ascii ''payload'')) (js_prop body (ascii ''requirements'')))
           (\<lambda>error. sendJson 200 (not_valid (message error))) = (Return 200 data, evs)"
        "verdict_body data"
        using try_catch_verdict [OF verifyTransfer_checks_verdict] by blast
      then show ?thesis
        unfolding handleVerifyTransfer_def using assms(2) nn
        by (simp add: parseBody_Next_then [OF pb] and_then_attempt_Inr js_destructure_def Let_def)
    qed
    show ?thesis using b c transfer by auto
  qed
qed

theorem verify_endpoints_status_witness:
  "handleVerify example_env (post ''/x402/verify'' ''secret'' (json_encode example_body))
     = (Return 400 (not_valid (ascii ''Escrow adapter not configured'')), []) \<and>
   parseBody example_env (post ''/x402/verify-transfer'' ''secret'' (ascii ''{''))
     = (Throw \<lparr>reason = None, message = ascii ''Unexpected token in JSON''\<rparr>, [ReadBody]) \<and>
   handleVerifyTransfer example_env (post ''/x402/verify-transfer'' ''secret'' (ascii ''{''))
     = (Return 400 (not_valid (ascii ''Invalid JSON body'')), [ReadBody]) \<and>
   parseBody example_env example_request = (Next example_body, [ReadBody]) \<and>
   \<not> nullish example_body \<and>
   (\<exists>data events. handleVerifyTransfer example_env example_request = (Return 200 data, events)
      \<and> verdict_body data)"
proof -
  let ?escrow = "post ''/x402/verify'' ''secret'' (json_encode example_body)"
  let ?broken = "post ''/x402/verify-transfer'' ''secret'' (ascii ''{'')"
  have keys: "\<not> unauthorized example_env (rq_headers ?escrow ''x-api-key'')"
    "\<not> unauthorized example_env (rq_headers ?broken ''x-api-key'')"
    by (simp_all add: unauthorized_def post_def example_env_def)
  have paths: "verify_endpoint (rq_pathname ?escrow) = Some handleVerify"
    "verify_endpoint (rq_pathname ?broken) = Some handleVerifyTransfer"
    "verify_endpoint (rq_pathname example_request) = Some handleVerifyTransfer"
    by (simp_all add: verify_endpoint_def post_def example_request_def)
  have no_adapter: "rq_pathname ?escrow = ''/x402/verify'' \<and> escrowAdapter example_env = []"
    by (simp add: post_def example_env_def)
  have transfer: "\<not> (rq_pathname ?broken = ''/x402/verify'' \<and> escrowAdapter example_env = [])"
    "\<not> (rq_pathname example_request = ''/x402/verify'' \<and> escrowAdapter example_env = [])"
    by (simp_all add: post_def example_request_def)
  have broken: "parseBody example_env ?broken
      = (Throw \<lparr>reason = None, message = ascii ''Unexpected token in JSON''\<rparr>, [ReadBody])"
    by (simp add: parseBody_def post_def example_env_def and_then_def emit_def attempt_def
        json_parse_def ascii_def)
  have a: "handleVerify example_env ?escrow
      = (Return 400 (not_valid (ascii ''Escrow adapter not configured'')), [])"
    using verify_endpoints_status [OF paths(1) keys(1)] no_adapter by blast
  have b: "handleVerifyTransfer example_env ?broken
      = (Return 400 (not_valid (ascii ''Invalid JSON body'')), [ReadBody])"
    using verify_endpoints_status [OF paths(2) keys(2)] transfer(1) broken by blast
  have c: "\<exists>data events. handleVerifyTransfer example_env example_request = (Return 200 data, events)
      \<and> verdict_body data"
    using verify_endpoints_status [OF paths(3) example_authorized] transfer(2) example_parseBody
      example_body_props(3) by blast
  show ?thesis using a b c broken example_parseBody example_body_props(3) by blast
qed

section \<open>Settlement in transfer mode\<close>

lemma json_parse_empty_object: "json_parse [123, 125] = Some (JObj [])"
  by (simp add: json_parse_def)

text \<open>
  C5, as stated, fails: the body \<^verbatim>\<open>{}\<close> parses, and the handler answers it 500 without
  calling the token contract, since there is no authorization to hand over.
\<close>

theorem settle_transfer_without_authorization:
  "\<not> unauthorized example_env
       (rq_headers (post ''/x402/settle-transfer'' ''secret'' [123, 125]) ''x-api-key'') \<and>
   parseBody example_env (post ''/x402/settle-transfer'' ''secret'' [123, 125])
     = (Next (JObj []), [ReadBody]) \<and>
   handleSettleTransfer example_env (post ''/x402/settle-transfer'' ''secret'' [123, 125])
     = (Return 500
          (JObj [(ascii ''success'', JBool False),
                 (ascii ''error'',
                    JStr (ascii ''Cannot read properties of '' @ ascii ''undefined'' @
                          ascii '' (reading '' @ quoted (ascii ''payload'') @ ascii '')''))]),
        [ReadBody])"
proof -
  let ?req = "post ''/x402/settle-transfer'' ''secret'' [123, 125]"
  have key: "\<not> unauthorized example_env (rq_headers ?req ''x-api-key'')"
    by (simp add: unauthorized_def post_def example_env_def)
  have body: "parseBody example_env ?req = (Next (JObj []), [ReadBody])"
    by (rule parseBody_post) (simp_all add: example_env_def json_parse_empty_object)
  have send: "settleTransfer_send example_env JUndefined JUndefined =
      (Throw \<lparr>reason = None,
               message = ascii ''Cannot read properties of '' @ ascii ''undefined'' @
                         ascii '' (reading '' @ quoted (ascii ''payload'') @ ascii '')''\<rparr>, [])"
    unfolding settleTransfer_send_def by (simp add: js_get_def and_then_attempt_Inl)
  have "handleSettleTransfer example_env ?req =
      (Return 500 (not_settled (ascii ''Cannot read properties of '' @ ascii ''undefined'' @
          ascii '' (reading '' @ quoted (ascii ''payload'') @ ascii '')'')), [ReadBody])"
    unfolding handleSettleTransfer_def
    by (simp add: key parseBody_Next_then [OF body] and_then_attempt_Inr js_destructure_def send
        try_catch_Throw sendJson_fst_snd reason_or_message_def Let_def)
  then show ?thesis using key body by (simp add: not_settled_def)
qed

text \<open>
  C5, amended. For a request to \<^verbatim>\<open>/x402/settle-transfer\<close> with the right key whose body parses
  to a value in which \<^verbatim>\<open>payload.payload.authorization\<close> and \<^verbatim>\<open>requirements\<close> can be read, and
  for whose \<^verbatim>\<open>requirements.asset\<close> the library builds a contract object, the handler calls
  \<^verbatim>\<open>transferWithAuthorization(from, to, value, validAfter, validBefore, nonce, signature)\<close> on
  that contract with gas limit 200000, once and as its only call into the chain; it answers
  200 with the settlement when the call and the receipt succeed and 500
  \<^verbatim>\<open>{success: false, error}\<close> with the error's reason, or else its message, when they throw.
  Signature recovery, balance, clock and the number conversions play no part: the handler
  behaves the same whatever they are.
\<close>

theorem settle_transfer_sends:
  assumes "\<not> unauthorized env (rq_headers req ''x-api-key'')"
    and "parseBody env req = (Next body, trace)"
    and "\<not> nullish body"
    and "payload = js_prop body (ascii ''payload'')" and "\<not> nullish payload"
    and "inner = js_prop payload (ascii ''payload'')" and "\<not> nullish inner"
    and "authorization = js_prop inner (ascii ''authorization'')" and "\<not> nullish authorization"
    and "requirements = js_prop body (ascii ''requirements'')" and "\<not> nullish requirements"
    and "args = map (js_prop authorization)
                  [ascii ''from'', ascii ''to'', ascii ''value'', ascii ''validAfter'',
                   ascii ''validBefore'', ascii ''nonce'']
                @ [js_prop inner (ascii ''signature'')]"
    and "asset = js_prop requirements (ascii ''asset'')"
    and "new_Contract env asset = Inr ()"
  shows "handleSettleTransfer env req =
           (case transferWithAuthorization env asset args 200000 of
              Inr receipt_hash \<Rightarrow>
                (Return 200 (settled receipt_hash (js_prop authorization (ascii ''from''))),
                 [ReadBody, SendTransaction asset (ascii ''transferWithAuthorization'') args 200000])
            | Inl error \<Rightarrow>
                (Return 500 (not_settled (reason_or_message error)),
                 [ReadBody, SendTransaction asset (ascii ''transferWithAuthorization'') args 200000]))
       \<and> handleSettleTransfer
             (env\<lparr>verifyTypedData := recover, balanceOf := balance, unix_now := now,
                  js_BigInt := big, js_Number := num, str_toLowerCase := lower\<rparr>) req
           = handleSettleTransfer env req"
proof -
  have second: "handleSettleTransfer
             (env\<lparr>verifyTypedData := recover, balanceOf := balance, unix_now := now,
                  js_BigInt := big, js_Number := num, str_toLowerCase := lower\<rparr>) req
           = handleSettleTransfer env req"
    by (simp add: handleSettleTransfer_def settleTransfer_send_def parseBody_def unauthorized_def
        Let_def cong: option.case_cong if_cong)
  show ?thesis using settle_transfer_answer [OF assms] second by blast
qed

theorem settle_transfer_sends_witness:
  "\<not> unauthorized example_env
       (rq_headers (post ''/x402/settle-transfer'' ''secret'' (json_encode example_body)) ''x-api-key'') \<and>
   parseBody example_env (post ''/x402/settle-transfer'' ''secret'' (json_encode example_body))
     = (Next example_body, [ReadBody]) \<and>
   \<not> nullish example_body \<and> \<not> nullish example_payload \<and>
   \<not> nullish (js_prop example_payload (ascii ''payload'')) \<and>
   \<not> nullish example_authorization \<and> \<not> nullish example_requirements \<and>
   new_Contract example_env (js_prop example_requirements (ascii ''asset'')) = Inr () \<and>
   handleSettleTransfer example_env
       (post ''/x402/settle-transfer'' ''secret'' (json_encode example_body))
     = (Return 200 (settled (ascii ''0x7a'') (JStr example_buyer)),
        [ReadBody,
         SendTransaction (JStr (ascii ''0xaf37e8b6c9ed7f6318979f56fc287d76c30847ff''))
           (ascii ''transferWithAuthorization'')
           [JStr example_buyer, JStr example_treasury, JStr (ascii ''100''), JStr (ascii ''0''),
            JStr (ascii ''1700003600''), JStr (ascii ''0x5e''), JStr (ascii ''0x51c0'')]
           200000]) \<and>
   handleSettleTransfer
       (example_env\<lparr>verifyTypedData := (\<lambda>domain msg signature. Inr []),
                    balanceOf := (\<lambda>asset account. Inr 0), unix_now := 0,
                    js_BigInt := (\<lambda>v. Inr 0), js_Number := (\<lambda>v. NaN),
                    str_toLowerCase := (\<lambda>s. s)\<rparr>)
       (post ''/x402/settle-transfer'' ''secret'' (json_encode example_body))
     = handleSettleTransfer example_env
         (post ''/x402/settle-transfer'' ''secret'' (json_encode example_body))"
proof -
  let ?req = "post ''/x402/settle-transfer'' ''secret'' (json_encode example_body)"
  have key: "\<not> unauthorized example_env (rq_headers ?req ''x-api-key'')"
    by (simp add: unauthorized_def post_def example_env_def)
  have body: "parseBody example_env ?req = (Next example_body, [ReadBody])"
    by (rule parseBody_post [OF example_length])
       (simp add: example_env_def json_parse_json_encode example_body_value)
  have payload: "example_payload = js_prop example_body (ascii ''payload'')"
    and requirements: "example_requirements = js_prop example_body (ascii ''requirements'')"
    and authorization: "example_authorization =
          js_prop (js_prop example_payload (ascii ''payload'')) (ascii ''authorization'')"
    by (simp_all add: example_body_def example_payload_def)
  have defined: "\<not> nullish example_body" "\<not> nullish example_payload"
    "\<not> nullish (js_prop example_payload (ascii ''payload''))"
    "\<not> nullish example_authorization" "\<not> nullish example_requirements"
    by (simp_all add: example_body_def example_payload_def example_authorization_def
        example_requirements_def)
  have args: "map (js_prop example_authorization)
                  [ascii ''from'', ascii ''to'', ascii ''value'', ascii ''validAfter'',
                   ascii ''validBefore'', ascii ''nonce'']
                @ [js_prop (js_prop example_payload (ascii ''payload'')) (ascii ''signature'')]
      = [JStr example_buyer, JStr example_treasury, JStr (ascii ''100''), JStr (ascii ''0''),
         JStr (ascii ''1700003600''), JStr (ascii ''0x5e''), JStr (ascii ''0x51c0'')]"
    by (simp add: example_payload_def example_authorization_def)
  have asset: "js_prop example_requirements (ascii ''asset'')
      = JStr (ascii ''0xaf37e8b6c9ed7f6318979f56fc287d76c30847ff'')"
    by (simp add: example_requirements_def)
  have mined: "transferWithAuthorization example_env
      (JStr (ascii ''0xaf37e8b6c9ed7f6318979f56fc287d76c30847ff''))
      [JStr example_buyer, JStr example_treasury, JStr (ascii ''100''), JStr (ascii ''0''),
       JStr (ascii ''1700003600''), JStr (ascii ''0x5e''), JStr (ascii ''0x51c0'')] 200000
      = Inr (ascii ''0x7a'')"
    by (simp add: example_env_def)
  have "from": "js_prop example_authorization (ascii ''from'') = JStr example_buyer"
    by (simp add: example_authorization_def)
  have built: "new_Contract example_env (js_prop example_requirements (ascii ''asset'')) = Inr ()"
    by (simp add: example_env_def example_Contract_def example_requirements_def)
  show ?thesis
    using settle_transfer_sends [OF key body defined(1) payload defined(2) refl defined(3)
        authorization defined(4) requirements defined(5) refl refl built,
        where recover = "\<lambda>domain msg signature. Inr []" and balance = "\<lambda>asset account. Inr 0"
          and now = 0 and big = "\<lambda>v. Inr 0" and num = "\<lambda>v. NaN" and lower = "\<lambda>s. s"]
      key body defined built
    unfolding args asset by (simp add: mined "from")
qed

section \<open>The gate without a payment header\<close>

text \<open>
  C7. When the request has none of the three spellings of the header that the gate looks
  for, both entry points of the gate end the script with status 402 and the header
  \<^verbatim>\<open>PAYMENT-REQUIRED\<close> set to Base64 of the JSON text of the list that holds the requirements
  and nothing else, and they post nothing to the facilitator. That text is the text of the
  requirements between square brackets; decoded by PHP's Base64 it is this text again, and
  the client's \<^verbatim>\<open>JSON.parse(atob(...))\<close> reads it as the one-element array, for requirements
  that JSON can carry.
\<close>

theorem no_payment_header_402:
  assumes "getallheaders penv ''PAYMENT-SIGNATURE'' = None"
    and "getallheaders penv ''Payment-Signature'' = None"
    and "getallheaders penv ''payment-signature'' = None"
  shows "handleTransfer penv requirements = (Exit (send402 requirements), []) \<and>
         handle penv requirements = (Exit (send402 requirements), []) \<and>
         rs_status (send402 requirements) = 402 \<and>
         map_of (rs_headers (send402 requirements)) ''PAYMENT-REQUIRED''
           = Some (base64_encode (json_encode (JArr [requirements]))) \<and>
         json_encode (JArr [requirements]) = 91 # json_encode requirements @ [93] \<and>
         (json_value requirements \<longrightarrow>
            base64_decode (base64_encode (json_encode (JArr [requirements])))
              = 91 # json_encode requirements @ [93] \<and>
            parse_header (base64_encode (json_encode (JArr [requirements])))
              = Inr (JArr [requirements]))"
proof -
  have none: "getPaymentHeader (getallheaders penv) = None"
    using assms by (simp add: getPaymentHeader_def HEADER_PAYMENT_SIGNATURE_def)
  have gate: "handleTransfer penv requirements = (Exit (send402 requirements), [])"
    "handle penv requirements = (Exit (send402 requirements), [])"
    by (simp_all add: handleTransfer_def handle_def none)
  have response: "rs_status (send402 requirements) = 402"
    "map_of (rs_headers (send402 requirements)) ''PAYMENT-REQUIRED''
       = Some (base64_encode (json_encode (JArr [requirements])))"
    by (simp_all add: send402_def HEADER_PAYMENT_REQUIRED_def)
  have decoded: "base64_decode (base64_encode (json_encode (JArr [requirements])))
              = 91 # json_encode requirements @ [93]"
    "parse_header (base64_encode (json_encode (JArr [requirements]))) = Inr (JArr [requirements])"
    if "json_value requirements"
    using base64_decode_json_encode [OF json_value_list [OF that]]
      parse_header_json_encode [OF json_value_list [OF that]]
    by (simp_all only: json_encode_list)
  show ?thesis using gate response decoded json_encode_list by blast
qed

theorem no_payment_header_402_witness:
  "getallheaders (example_gate (\<lambda>name. None)) ''PAYMENT-SIGNATURE'' = None \<and>
   getallheaders (example_gate (\<lambda>name. None)) ''Payment-Signature'' = None \<and>
   getallheaders (example_gate (\<lambda>name. None)) ''payment-signature'' = None \<and>
   json_value example_requirements \<and>
   handleTransfer (example_gate (\<lambda>name. None)) example_requirements
     = (Exit (send402 example_requirements), []) \<and>
   rs_status (send402 example_requirements) = 402 \<and>
   parse_header (base64_encode (json_encode (JArr [example_requirements])))
     = Inr (JArr [example_requirements])"
proof -
  have absent: "getallheaders (example_gate (\<lambda>name. None)) ''PAYMENT-SIGNATURE'' = None"
    "getallheaders (example_gate (\<lambda>name. None)) ''Payment-Signature'' = None"
    "getallheaders (example_gate (\<lambda>name. None)) ''payment-signature'' = None"
    by (simp_all add: example_gate_def)
  show ?thesis
    using no_payment_header_402 [OF absent, of example_requirements]
      example_requirements_value absent
    by blast
qed

section \<open>Round trips of the payment headers\<close>

text \<open>
  C9. Let \<open>x\<close> be a value that JSON can carry and both languages hold as it is: no
  \<^verbatim>\<open>undefined\<close>, no object that PHP takes for a list, objects with distinct keys none of
  which is an array index, integers that JavaScript holds exactly, well-formed text in the
  strings, nesting below the depth at which PHP gives up (the requirements and payloads of
  this system are objects with named keys that hold strings and small integers, nested three
  deep at most).
  Then the client's \<^verbatim>\<open>JSON.parse(atob(...))\<close> of the gate's
  \<^verbatim>\<open>base64_encode(json_encode(x))\<close> is \<open>x\<close>, with the properties in their order; in
  particular \<^verbatim>\<open>parsePaymentRequired\<close> on the response that \<^verbatim>\<open>send402\<close> writes for \<open>x\<close> is the
  array that holds \<open>x\<close> and nothing else. In the other direction, when the strings of \<open>x\<close>
  are ASCII, the client's \<^verbatim>\<open>encodePayload\<close> succeeds and the gate's
  \<^verbatim>\<open>json_decode(base64_decode(...), true)\<close> of its result is \<open>x\<close>.
\<close>

theorem header_round_trip:
  assumes "json_value x" and "safe_integers x" and "plain_keys x"
    and "well_formed_strings x" and "nesting x < 512"
  shows "parse_header (base64_encode (json_encode x)) = Inr x \<and>
         parsePaymentRequired (map_of (rs_headers (send402 x))) = Inr (JArr [x]) \<and>
         (ascii_value x \<longrightarrow>
            (\<exists>header. encodePayload x = Some header \<and> json_decode (base64_decode header) = x))"
proof -
  have php_js: "parse_header (base64_encode (json_encode x)) = Inr x"
    using assms(1) by (rule parse_header_json_encode)
  have "base64_encode (json_encode (JArr [x])) \<noteq> []"
    by (rule base64_encode_nonempty) (simp add: json_encode_list)
  then have required: "parsePaymentRequired (map_of (rs_headers (send402 x))) = Inr (JArr [x])"
    using parse_header_json_encode [OF json_value_list [OF assms(1)]]
    by (simp add: parsePaymentRequired_def send402_def HEADER_PAYMENT_REQUIRED_def)
  have js_php: "\<exists>header. encodePayload x = Some header \<and> json_decode (base64_decode header) = x"
    if "ascii_value x"
    using encodePayload_decodes [OF assms(1) that] by blast
  show ?thesis using php_js required js_php by blast
qed

theorem header_round_trip_witness:
  "json_value example_payload \<and> safe_integers example_payload \<and> plain_keys example_payload \<and>
   well_formed_strings example_payload \<and> nesting example_payload < 512 \<and>
   ascii_value example_payload \<and>
   parse_header (base64_encode (json_encode example_payload)) = Inr example_payload \<and>
   parsePaymentRequired (map_of (rs_headers (send402 example_payload)))
     = Inr (JArr [example_payload]) \<and>
   (\<exists>header. encodePayload example_payload = Some header \<and>
      json_decode (base64_decode header) = example_payload)"
proof -
  have safe: "safe_integers example_payload"
    by (simp add: example_payload_def example_authorization_def)
  have plain: "plain_keys example_payload"
    by (simp add: example_payload_def example_authorization_def index_key_def is_digit_def
        ascii_def)
  have formed: "well_formed_strings example_payload"
    by (simp add: example_payload_def example_authorization_def example_buyer_def
        example_treasury_def ascii_literal_well_formed del: well_formed.simps)
  have shallow: "nesting example_payload < 512"
    by (simp add: example_payload_def example_authorization_def)
  show ?thesis
    using header_round_trip [OF example_payload_value safe plain formed shallow]
      example_payload_value safe plain formed shallow example_payload_ascii
    by blast
qed

section \<open>What the gate takes for a payload\<close>

lemma header_null: "json_decode (base64_decode ''bnVsbA=='') = JNull"
proof -
  have "base64_decode ''bnVsbA=='' = ascii ''null''"
    by (simp add: base64_decode_def List.map_filter_simps b64_index_def ascii_def)
  then show ?thesis by (simp add: json_decode_def json_parse_null) 
qed

text \<open>
  C10, as stated, fails in its second half: the header \<^verbatim>\<open>NQ==\<close> is Base64 of the text
  \<^verbatim>\<open>5\<close>, which decodes to the number 5. PHP does not take 5 for false, so the gate posts
  \<^verbatim>\<open>{"payload":5,"requirements":...}\<close> to the facilitator's verify endpoint, and answers 402
  with the facilitator's reason, not 400.
\<close>

theorem scalar_payload_reaches_verify:
  "json_decode (base64_decode ''NQ=='') = JNum 5 \<and>
   handleTransfer (example_gate [''PAYMENT-SIGNATURE'' \<mapsto> ''NQ=='']) example_requirements
     = (Exit (Response_error
                (ascii ''Payment verification failed: '' @ ascii ''Unsupported x402 version'')
                402 (ascii ''X402_VERIFY_FAILED'')),
        [(FACILITATOR_URL @ ''/x402/verify-transfer'', ''secret'',
          json_encode (JObj [(ascii ''payload'', JNum 5),
                             (ascii ''requirements'', example_requirements)]))])"
proof -
  let ?gate = "example_gate [''PAYMENT-SIGNATURE'' \<mapsto> ''NQ=='']"
  let ?data = "JObj [(ascii ''payload'', JNum 5), (ascii ''requirements'', example_requirements)]"
  have header: "getPaymentHeader (getallheaders ?gate) = Some ''NQ==''"
    by (simp add: getPaymentHeader_def example_gate_simps HEADER_PAYMENT_SIGNATURE_def)
  have reason: "list_all (\<lambda>c. c < 128) (ascii ''Unsupported x402 version'')"
    by (simp add: ascii_def)
  have "fst (server example_env (post ''/x402/verify-transfer'' (X402_FACILITATOR_KEY ?gate)
               (json_encode ?data)))
          = Return 200 (not_valid (ascii ''Unsupported x402 version''))"
    by (simp add: example_gate_simps server_post five_verify)
  from callFacilitator_server [OF example_gate_simps(4) example_gate_simps(3) this
      verdict_values(4) [OF reason] verdict_values(5) [OF reason] verdict_values(6)]
  have verify: "callFacilitator ?gate ''/x402/verify-transfer'' ?data
      = (Inr (not_valid (ascii ''Unsupported x402 version'')),
         [(FACILITATOR_URL @ ''/x402/verify-transfer'', ''secret'', json_encode ?data)])"
    by (simp add: example_gate_simps)
  have "handleTransfer ?gate example_requirements
     = (Exit (Response_error
                (ascii ''Payment verification failed: '' @ ascii ''Unsupported x402 version'')
                402 (ascii ''X402_VERIFY_FAILED'')),
        [(FACILITATOR_URL @ ''/x402/verify-transfer'', ''secret'', json_encode ?data)])"
    unfolding handleTransfer_def
    by (simp add: header example_gate_simps(3) header_five verify not_valid_def coalesce_def)
  then show ?thesis using header_five by simp
qed

text \<open>
  C10, amended. Let the request carry a payment header, and let \<open>payload\<close> be what
  \<^verbatim>\<open>json_decode(base64_decode($paymentHeader), true)\<close> returns for it. When PHP takes \<open>payload\<close>
  for false (null, which is also what text that is not JSON decodes to, \<^verbatim>\<open>false\<close>, 0, the
  strings \<^verbatim>\<open>""\<close> and \<^verbatim>\<open>"0"\<close>, the empty array, which is also what \<^verbatim>\<open>{}\<close> decodes to), both
  entry points answer 400 with \<^verbatim>\<open>X402_INVALID_PAYLOAD\<close> and post nothing to the facilitator.
  For every other value, a scalar such as \<^verbatim>\<open>true\<close>, 5 or \<^verbatim>\<open>"x"\<close> included, the first thing
  they do is to post \<^verbatim>\<open>{payload, requirements}\<close> to the verify endpoint of their mode.
\<close>

theorem payment_header_decoded:
  assumes "getPaymentHeader (getallheaders penv) = Some header"
    and "payload = php_json_decode penv (base64_decode header)"
    and "data = JObj [(ascii ''payload'', payload), (ascii ''requirements'', requirements)]"
  shows "(php_falsy payload \<longrightarrow>
            handleTransfer penv requirements
              = (Exit (Response_error (ascii ''Invalid PAYMENT-SIGNATURE header'') 400
                         (ascii ''X402_INVALID_PAYLOAD'')), []) \<and>
            handle penv requirements
              = (Exit (Response_error (ascii ''Invalid PAYMENT-SIGNATURE header'') 400
                         (ascii ''X402_INVALID_PAYLOAD'')), [])) \<and>
         (\<not> php_falsy payload \<longrightarrow>
            (\<exists>rest. snd (handleTransfer penv requirements)
               = (FACILITATOR_URL @ ''/x402/verify-transfer'', X402_FACILITATOR_KEY penv,
                  json_encode data) # rest) \<and>
            (\<exists>rest. snd (handle penv requirements)
               = (FACILITATOR_URL @ ''/x402/verify'', X402_FACILITATOR_KEY penv,
                  json_encode data) # rest))"
proof -
  have refused: "handleTransfer penv requirements
              = (Exit (Response_error (ascii ''Invalid PAYMENT-SIGNATURE header'') 400
                         (ascii ''X402_INVALID_PAYLOAD'')), [])"
    "handle penv requirements
              = (Exit (Response_error (ascii ''Invalid PAYMENT-SIGNATURE header'') 400
                         (ascii ''X402_INVALID_PAYLOAD'')), [])"
    if "php_falsy payload"
    using that assms by (simp_all add: handleTransfer_def handle_def)
  have posted: "\<exists>rest. snd (handleTransfer penv requirements)
               = (FACILITATOR_URL @ ''/x402/verify-transfer'', X402_FACILITATOR_KEY penv,
                  json_encode data) # rest"
    "\<exists>rest. snd (handle penv requirements)
               = (FACILITATOR_URL @ ''/x402/verify'', X402_FACILITATOR_KEY penv,
                  json_encode data) # rest"
    if "\<not> php_falsy payload"
  proof -
    obtain r where transfer: "callFacilitator penv ''/x402/verify-transfer'' data
        = (r, [(FACILITATOR_URL @ ''/x402/verify-transfer'', X402_FACILITATOR_KEY penv,
                json_encode data)])"
      using callFacilitator_posted [of penv "''/x402/verify-transfer''" data]
      by (cases "callFacilitator penv ''/x402/verify-transfer'' data") simp
    show "\<exists>rest. snd (handleTransfer penv requirements)
               = (FACILITATOR_URL @ ''/x402/verify-transfer'', X402_FACILITATOR_KEY penv,
                  json_encode data) # rest"
      using that assms(1) transfer unfolding handleTransfer_def assms(2,3)
      by (auto simp: Let_def split: prod.splits sum.splits)
    obtain r' where escrow: "callFacilitator penv ''/x402/verify'' data
        = (r', [(FACILITATOR_URL @ ''/x402/verify'', X402_FACILITATOR_KEY penv,
                 json_encode data)])"
      using callFacilitator_posted [of penv "''/x402/verify''" data]
      by (cases "callFacilitator penv ''/x402/verify'' data") simp
    show "\<exists>rest. snd (handle penv requirements)
               = (FACILITATOR_URL @ ''/x402/verify'', X402_FACILITATOR_KEY penv,
                  json_encode data) # rest"
      using that assms(1) escrow unfolding handle_def assms(2,3)
      by (auto simp: Let_def split: prod.splits sum.splits)
  qed
  show ?thesis using refused posted by blast
qed

theorem payment_header_decoded_witness:
  "getPaymentHeader (getallheaders (example_gate [''PAYMENT-SIGNATURE'' \<mapsto> ''bnVsbA==''])) = Some ''bnVsbA=='' \<and>
   php_falsy (json_decode (base64_decode ''bnVsbA=='')) \<and>
   handleTransfer (example_gate [''PAYMENT-SIGNATURE'' \<mapsto> ''bnVsbA=='']) example_requirements
     = (Exit (Response_error (ascii ''Invalid PAYMENT-SIGNATURE header'') 400
                (ascii ''X402_INVALID_PAYLOAD'')), []) \<and>
   getPaymentHeader
       (getallheaders
          (example_gate [''payment-signature'' \<mapsto> base64_encode (json_text js_quote example_payload)]))
     = Some (base64_encode (json_text js_quote example_payload)) \<and>
   \<not> php_falsy (json_decode (base64_decode (base64_encode (json_text js_quote example_payload)))) \<and>
   (\<exists>rest. snd (handleTransfer
                  (example_gate [''payment-signature'' \<mapsto>
                                   base64_encode (json_text js_quote example_payload)])
                  example_requirements)
      = (FACILITATOR_URL @ ''/x402/verify-transfer'', ''secret'', json_encode example_body) # rest)"
proof -
  let ?none = "example_gate [''PAYMENT-SIGNATURE'' \<mapsto> ''bnVsbA=='']"
  let ?h = "base64_encode (json_text js_quote example_payload)"
  let ?some = "example_gate [''payment-signature'' \<mapsto> ?h]"
  have h0: "getPaymentHeader (getallheaders ?none) = Some ''bnVsbA==''"
    by (simp add: getPaymentHeader_def example_gate_simps HEADER_PAYMENT_SIGNATURE_def)
  have h1: "getPaymentHeader (getallheaders ?some) = Some ?h"
    by (simp add: getPaymentHeader_def example_gate_simps HEADER_PAYMENT_SIGNATURE_def)
  have d0: "JNull = php_json_decode ?none (base64_decode ''bnVsbA=='')"
    by (simp add: example_gate_simps header_null)
  have d1: "example_payload = php_json_decode ?some (base64_decode ?h)"
    by (simp add: example_gate_simps
        encodePayload_decodes(2) [OF example_payload_value example_payload_ascii])
  have truthy: "\<not> php_falsy example_payload" by (simp add: example_payload_def)
  have body: "example_body
      = JObj [(ascii ''payload'', example_payload), (ascii ''requirements'', example_requirements)]"
    by (simp add: example_body_def)
  show ?thesis
    using payment_header_decoded [OF h0 d0 refl, of example_requirements]
      payment_header_decoded [OF h1 d1 body]
      h0 h1 truthy d0 [symmetric] d1 [symmetric]
    by (simp add: example_gate_simps)
qed

section \<open>A settlement that fails\<close>

text \<open>
  C4. The claim promises that the gate's 500 for a failed settlement includes the
  facilitator's error. The gate does build its message from \<^verbatim>\<open>$settleResult['error']\<close>, but
  \<^verbatim>\<open>callFacilitator\<close> returns null for every status other than 200 and 402, and the
  facilitator answers a failed settlement with status 500. For the replayed payment, which
  passes verification and reverts on the chain, the facilitator answers
  \<^verbatim>\<open>{success: false, error: "authorization is used"}\<close> and the gate answers
  \<^verbatim>\<open>Payment settlement failed: unknown\<close>.
\<close>

theorem settle_error_is_dropped:
  "encodePayload replayed_payload = Some (base64_encode (json_text js_quote replayed_payload)) \<and>
   fst (server example_env
          (post ''/x402/settle-transfer'' ''secret''
             (json_encode (JObj [(ascii ''payload'', replayed_payload),
                                 (ascii ''requirements'', example_requirements)]))))
     = Return 500 (JObj [(ascii ''success'', JBool False),
                         (ascii ''error'', JStr (ascii ''authorization is used''))]) \<and>
   handleTransfer
     (example_gate [''PAYMENT-SIGNATURE'' \<mapsto> base64_encode (json_text js_quote replayed_payload)])
     example_requirements
   = (Exit \<lparr>rs_status = 500,
             rs_headers = [(''Content-Type'', ''application/json; charset=utf-8'')],
             rs_body = JObj [(ascii ''success'', JBool False),
                             (ascii ''message'',
                                JStr (ascii ''Payment settlement failed: '' @ ascii ''unknown'')),
                             (ascii ''error_code'', JStr (ascii ''X402_SETTLE_FAILED''))]\<rparr>,
      [(FACILITATOR_URL @ ''/x402/verify-transfer'', ''secret'',
        json_encode (JObj [(ascii ''payload'', replayed_payload),
                           (ascii ''requirements'', example_requirements)])),
       (FACILITATOR_URL @ ''/x402/settle-transfer'', ''secret'',
        json_encode (JObj [(ascii ''payload'', replayed_payload),
                           (ascii ''requirements'', example_requirements)]))])"
proof -
  have header: "encodePayload replayed_payload
      = Some (base64_encode (json_text js_quote replayed_payload))"
    using replayed_payload_value replayed_payload_ascii by (rule encodePayload_decodes(1))
  have facilitator: "fst (server example_env
          (post ''/x402/settle-transfer'' ''secret''
             (json_encode (JObj [(ascii ''payload'', replayed_payload),
                                 (ascii ''requirements'', example_requirements)]))))
     = Return 500 (JObj [(ascii ''success'', JBool False),
                         (ascii ''error'', JStr (ascii ''authorization is used''))])"
    by (simp add: server_post replayed_settle not_settled_def)
  have code: "\<not> php_falsy (JStr (ascii ''X402_SETTLE_FAILED''))" by (simp add: ascii_def)
  show ?thesis
    using header facilitator code
    by (simp add: replayed_run Response_error_def Response_json_def)
qed

section \<open>The receipt of a settled payment\<close>




end
